theory Spec2Isabelle
  imports Main
begin

section \<open>Data model\<close>

text \<open>
  The tables of \<^verbatim>\<open>backend/packages/shared/src/db.ts\<close> (and \<^verbatim>\<open>infra/schema.sql\<close>).
  Identifiers are UUID strings; a timestamp is the number of milliseconds since the epoch,
  as \<^verbatim>\<open>Date.now()\<close> returns it. A nullable column is an \<open>option\<close>. A table is the list
  of its rows in storage order, so that \<^verbatim>\<open>executeTakeFirst\<close> is the first matching row.
  Columns that no handler of the orchestrator ever writes (\<^verbatim>\<open>test_output\<close>,
  \<^verbatim>\<open>input_tokens\<close>, \<^verbatim>\<open>output_tokens\<close>, \<^verbatim>\<open>created_at\<close> of projects) are left out.
\<close>

type_synonym uuid = string
type_synonym timestamp = nat

text \<open>A JSONB object, as the list of its keys and values.\<close>
type_synonym json_obj = "(string \<times> string) list"

record project =
  prj_id :: uuid
  prj_user_id :: uuid
  prj_name :: string
  repo_url :: string

datatype ws_state = Warm | Cold | Error | Deleted

record workspace =
  ws_id :: uuid
  ws_user_id :: uuid
  ws_project_id :: uuid
  ws_state :: ws_state
  container_id :: "string option"
  volume_name :: "string option"
  thread_id :: "string option"
  ws_image_name :: "string option"
  ws_image_digest :: "string option"
  runtime_metadata :: "json_obj option"
  last_active_at :: timestamp
  idle_expires_at :: "timestamp option"

datatype run_status = Queued | Running | Succeeded | Failed | Timeout

record run =
  run_id :: uuid
  run_user_id :: uuid
  run_project_id :: uuid
  run_workspace_id :: uuid
  run_status :: run_status
  prompt :: string
  final_text :: "string option"
  run_diff :: "string option"
  run_error_message :: "string option"
  started_at :: timestamp
  finished_at :: "timestamp option"
  duration_ms :: "int option"
  git_commit :: "string option"
  run_image_name :: "string option"
  run_image_digest :: "string option"
  env_snapshot :: "json_obj option"

datatype bundle_status = Pending | Ready | BundleError | BundleDeleted

record evidence_bundle =
  eb_id :: uuid
  eb_run_id :: uuid
  eb_user_id :: uuid
  eb_project_id :: uuid
  eb_workspace_id :: uuid
  eb_status :: bundle_status
  bundle_path :: "string option"
  eb_error_message :: "string option"
  eb_created_at :: timestamp
  eb_updated_at :: timestamp

record db =
  projects :: "project list"
  workspaces :: "workspace list"
  runs :: "run list"
  evidence_bundles :: "evidence_bundle list"

text \<open>
  JavaScript truthiness of a \<^verbatim>\<open>string | null\<close>: \<^verbatim>\<open>null\<close> and the empty string are falsy.
\<close>

definition truthy :: "string option \<Rightarrow> bool" where
  "truthy s = (case s of None \<Rightarrow> False | Some t \<Rightarrow> t \<noteq> [])"

section \<open>Quota (lib/quota.ts)\<close>

definition DEFAULT_MAX_RUNS :: int where
  "DEFAULT_MAX_RUNS = 500"

definition ms_per_day :: nat where
  "ms_per_day = 24 * 60 * 60 * 1000"

text \<open>\<^verbatim>\<open>startOfDay.setUTCHours(0, 0, 0, 0)\<close>: the last UTC midnight at or before \<open>now\<close>.\<close>

definition start_of_utc_day :: "timestamp \<Rightarrow> timestamp" where
  "start_of_utc_day now = now - now mod ms_per_day"

text \<open>
  \<^verbatim>\<open>parseInt(process.env.MAX_RUNS_PER_DAY || String(DEFAULT_MAX_RUNS), 10)\<close>, for a setting
  that is unset (\<open>None\<close>) or a decimal integer.
\<close>

definition max_runs_per_day :: "int option \<Rightarrow> int" where
  "max_runs_per_day setting = (case setting of None \<Rightarrow> DEFAULT_MAX_RUNS | Some n \<Rightarrow> n)"

text \<open>The \<^verbatim>\<open>count(id)\<close> of the user's runs started at or after the start of the UTC day.\<close>

definition runs_today :: "db \<Rightarrow> uuid \<Rightarrow> timestamp \<Rightarrow> nat" where
  "runs_today d userId now =
     length (filter (\<lambda>r. run_user_id r = userId \<and> start_of_utc_day now \<le> started_at r) (runs d))"

definition checkQuota :: "int option \<Rightarrow> db \<Rightarrow> uuid \<Rightarrow> timestamp \<Rightarrow> bool" where
  "checkQuota setting d userId now =
     (let maxRuns = max_runs_per_day setting;
          count = int (runs_today d userId now)
      in count < maxRuns)"

section \<open>Events, the agent worker and the sandbox\<close>

text \<open>
  A canonical event (\<^verbatim>\<open>CodexEvent\<close>): its type with the fields of that type, \<^verbatim>\<open>ts\<close> and
  \<^verbatim>\<open>runId\<close>. \<^verbatim>\<open>events.jsonl\<close> is the events' \<^verbatim>\<open>JSON.stringify\<close> joined by newlines;
  \<^verbatim>\<open>JSON.stringify\<close> escapes every newline of a string, so a line of the file is one event
  and the file is modelled as the list of its events.
\<close>

datatype event_payload =
    RunStart
  | Token string nat
  | Diff string
  | RunComplete run_status "string option"

datatype event = Event (ev_payload: event_payload) (ev_ts: timestamp) (ev_runId: uuid)

text \<open>The worker's answer \<^verbatim>\<open>{finalText, diff, threadId, gitCommit?}\<close>.\<close>

record agent_result =
  finalText :: string
  diff :: string
  threadId :: string
  gitCommit :: "string option"

text \<open>A thrown \<^verbatim>\<open>Error\<close>: its \<^verbatim>\<open>name\<close> and its \<^verbatim>\<open>message\<close>.\<close>

datatype js_error = JsError (err_name: string) (err_message: string)

text \<open>
  What \<^verbatim>\<open>fetch\<close> resolves to: the status, the body as \<^verbatim>\<open>response.text()\<close> gives it and
  what \<^verbatim>\<open>response.json()\<close> gives (it rejects on a body that is not JSON).
\<close>

datatype http_response =
  HttpResponse (http_status: nat) (http_text: string) (http_json: "js_error + agent_result")

definition response_ok :: "http_response \<Rightarrow> bool" where
  "response_ok r = (200 \<le> http_status r \<and> http_status r \<le> 299)"

text \<open>The decimal digits of a number, as a template literal prints it.\<close>

definition digit_char :: "nat \<Rightarrow> char" where
  "digit_char k = char_of (k + of_char CHR ''0'')"

fun string_of_nat :: "nat \<Rightarrow> string" where
  "string_of_nat n =
     (if 10 \<le> n then string_of_nat (n div 10) @ [digit_char (n mod 10)] else [digit_char n])"

declare string_of_nat.simps [simp del]

text \<open>
  Steps 4 of both message handlers after \<^verbatim>\<open>fetch\<close> has settled: a response that is not
  \<^verbatim>\<open>ok\<close> is thrown as an \<^verbatim>\<open>Error\<close>, the body of an \<^verbatim>\<open>ok\<close> one is parsed.
\<close>

definition worker_result :: "js_error + http_response \<Rightarrow> js_error + agent_result" where
  "worker_result fetched =
     (case fetched of
        Inl e \<Rightarrow> Inl e
      | Inr response \<Rightarrow>
          if \<not> response_ok response
          then Inl (JsError ''Error''
                 (''Worker responded with '' @ string_of_nat (http_status response) @ '': ''
                    @ http_text response))
          else http_json response)"

definition evidence_dir :: "uuid \<Rightarrow> string" where
  "evidence_dir runId = ''/workspace/evidence/'' @ runId"

definition events_path :: "uuid \<Rightarrow> string" where
  "events_path runId = evidence_dir runId @ ''/events.jsonl''"

text \<open>
  A file put into a sandbox by \<^verbatim>\<open>workspaceManager.putFile\<close>: the container, the path and
  the events of the file.
\<close>

type_synonym put_file = "string \<times> string \<times> event list"

text \<open>
  \<^verbatim>\<open>putFile\<close> inside its \<^verbatim>\<open>try\<close>: when the driver fails the error is logged and nothing
  is written.
\<close>

definition try_putFile :: "bool \<Rightarrow> string \<Rightarrow> string \<Rightarrow> event list \<Rightarrow> put_file list" where
  "try_putFile ok containerId path events = (if ok then [(containerId, path, events)] else [])"

text \<open>Object spread \<^verbatim>\<open>{...a, ...b}\<close>: a key of \<open>b\<close> replaces the key in place or is appended.\<close>

fun set_key :: "string \<Rightarrow> string \<Rightarrow> json_obj \<Rightarrow> json_obj" where
  "set_key k v [] = [(k, v)]"
| "set_key k v ((k', v') # rest) =
     (if k' = k then (k, v) # rest else (k', v') # set_key k v rest)"

definition spread :: "json_obj \<Rightarrow> json_obj \<Rightarrow> json_obj" where
  "spread a b = foldl (\<lambda>acc (k, v). set_key k v acc) a b"

definition evidenceInfo :: "uuid \<Rightarrow> json_obj" where
  "evidenceInfo runId =
     [(''evidencePath'', evidence_dir runId),
      (''hasCommandLog'', ''true''),
      (''hasOutputsManifest'', ''true'')]"

definition newSnapshot :: "json_obj option \<Rightarrow> uuid \<Rightarrow> json_obj" where
  "newSnapshot metadata runId =
     spread (case metadata of None \<Rightarrow> [] | Some m \<Rightarrow> m) (evidenceInfo runId)"

section \<open>Store operations\<close>

text \<open>
  The Kysely queries the handlers issue. An insert appends the row; the primary key makes
  it fail on an id that is already there. An update rewrites every row its \<^verbatim>\<open>where\<close>
  selects.
\<close>

definition insert_run :: "run \<Rightarrow> db \<Rightarrow> db option" where
  "insert_run r d =
     (if run_id r \<in> set (map run_id (runs d)) then None
      else Some (d\<lparr>runs := runs d @ [r]\<rparr>))"

definition update_run :: "uuid \<Rightarrow> (run \<Rightarrow> run) \<Rightarrow> db \<Rightarrow> db" where
  "update_run runId f d = d\<lparr>runs := map (\<lambda>r. if run_id r = runId then f r else r) (runs d)\<rparr>"

definition insert_workspace :: "workspace \<Rightarrow> db \<Rightarrow> db option" where
  "insert_workspace w d =
     (if ws_id w \<in> set (map ws_id (workspaces d)) then None
      else Some (d\<lparr>workspaces := workspaces d @ [w]\<rparr>))"

definition update_workspace :: "uuid \<Rightarrow> (workspace \<Rightarrow> workspace) \<Rightarrow> db \<Rightarrow> db" where
  "update_workspace wsId f d =
     d\<lparr>workspaces := map (\<lambda>w. if ws_id w = wsId then f w else w) (workspaces d)\<rparr>"

text \<open>
  \<^verbatim>\<open>triggerEvidenceBuild\<close>: insert the \<^verbatim>\<open>pending\<close> row (\<^verbatim>\<open>onConflict run_id doNothing\<close>) and
  fire \<^verbatim>\<open>buildBundle\<close> without awaiting it; an error of the insert is logged and no build
  is fired. The result is the store and the run ids whose build was fired.
\<close>

definition triggerEvidenceBuild ::
  "uuid \<Rightarrow> timestamp \<Rightarrow> uuid \<Rightarrow> uuid \<Rightarrow> uuid \<Rightarrow> uuid \<Rightarrow> db \<Rightarrow> db \<times> uuid list" where
  "triggerEvidenceBuild newId now runId userId projectId workspaceId d =
     (if runId \<in> set (map eb_run_id (evidence_bundles d)) then (d, [runId])
      else if newId \<in> set (map eb_id (evidence_bundles d)) then (d, [])
      else (d\<lparr>evidence_bundles := evidence_bundles d @
              [\<lparr>eb_id = newId, eb_run_id = runId, eb_user_id = userId,
                eb_project_id = projectId, eb_workspace_id = workspaceId,
                eb_status = Pending, bundle_path = None, eb_error_message = None,
                eb_created_at = now, eb_updated_at = now\<rparr>]\<rparr>, [runId]))"


section \<open>The unary message handler (POST /projects/:id/message)\<close>

datatype body =
    ErrorBody string
  | OpenBody uuid ws_state
  | MessageBody uuid string string
  | GcBody

datatype response = Reply nat body

text \<open>
  What the environment contributes to one call of the handler: the configuration, the
  clock at the points where the handler reads it (reads that no \<^verbatim>\<open>await\<close> separates are
  one reading), the ids the database generates, and the answers of the Docker daemon and of
  the worker.
\<close>

record message_env =
  max_runs_setting :: "int option"
  warm_idle_ms :: nat
  t_quota :: timestamp
  t_start :: timestamp
  t_finish :: timestamp
  t_touch :: timestamp
  t_emit :: "nat \<Rightarrow> timestamp"
  new_run_id :: uuid
  new_bundle_id :: uuid
  container_addr :: "js_error + string"
  fetched :: "nat \<Rightarrow> js_error + http_response"
  put_ok :: bool

record handled =
  reply :: "response option"
  sse :: "event list"
  store :: db
  puts :: "put_file list"
  builds :: "uuid list"

definition find_warm_workspace :: "db \<Rightarrow> uuid \<Rightarrow> uuid \<Rightarrow> workspace option" where
  "find_warm_workspace d userId projectId =
     find (\<lambda>w. ws_project_id w = projectId \<and> ws_user_id w = userId \<and> ws_state w = Warm)
       (workspaces d)"

definition running_run :: "message_env \<Rightarrow> uuid \<Rightarrow> uuid \<Rightarrow> string \<Rightarrow> workspace \<Rightarrow> run" where
  "running_run env userId projectId text w =
     \<lparr>run_id = new_run_id env, run_user_id = userId, run_project_id = projectId,
      run_workspace_id = ws_id w, run_status = Running, prompt = text,
      final_text = None, run_diff = None, run_error_message = None,
      started_at = t_start env, finished_at = None, duration_ms = None,
      git_commit = None, run_image_name = ws_image_name w,
      run_image_digest = ws_image_digest w, env_snapshot = runtime_metadata w\<rparr>"

definition duration :: "message_env \<Rightarrow> int" where
  "duration env = int (t_finish env) - int (t_start env)"

text \<open>Step 5 of both handlers: the run row of a worker call that succeeded.\<close>

definition run_succeeded :: "message_env \<Rightarrow> workspace \<Rightarrow> agent_result \<Rightarrow> run \<Rightarrow> run" where
  "run_succeeded env w result r =
     r\<lparr>run_status := Succeeded, final_text := Some (finalText result),
       run_diff := Some (diff result), git_commit := gitCommit result,
       finished_at := Some (t_finish env), duration_ms := Some (duration env),
       env_snapshot := Some (newSnapshot (runtime_metadata w) (run_id r))\<rparr>"

text \<open>The \<^verbatim>\<open>catch (workerError)\<close> of both handlers: the run row of a worker call that threw.\<close>

definition run_failed :: "message_env \<Rightarrow> js_error \<Rightarrow> run \<Rightarrow> run" where
  "run_failed env workerError r =
     r\<lparr>run_status := Failed, run_error_message := Some (err_message workerError),
       finished_at := Some (t_finish env), duration_ms := Some (duration env)\<rparr>"

text \<open>Step 6 of both handlers: the workspace's activity.\<close>

definition touch_workspace :: "message_env \<Rightarrow> agent_result \<Rightarrow> workspace \<Rightarrow> workspace" where
  "touch_workspace env result w =
     w\<lparr>thread_id := Some (threadId result), last_active_at := t_touch env,
       idle_expires_at := Some (t_touch env + warm_idle_ms env)\<rparr>"

text \<open>The event log the unary handler generates after the worker has answered.\<close>

definition unary_events :: "message_env \<Rightarrow> uuid \<Rightarrow> agent_result \<Rightarrow> event list" where
  "unary_events env runId result =
     [Event RunStart (t_start env) runId]
     @ (if finalText result \<noteq> []
        then [Event (Token (finalText result) 0) ((t_start env + t_finish env) div 2) runId]
        else [])
     @ (if diff result \<noteq> [] then [Event (Diff (diff result)) (t_finish env) runId] else [])
     @ [Event (RunComplete Succeeded None) (t_finish env) runId]"

definition unary_failure_events :: "message_env \<Rightarrow> uuid \<Rightarrow> js_error \<Rightarrow> event list" where
  "unary_failure_events env runId workerError =
     [Event RunStart (t_start env) runId,
      Event (RunComplete Failed (Some (err_message workerError))) (t_finish env) runId]"

definition no_warm_workspace :: string where
  "no_warm_workspace = ''No warm workspace found. Open project first.''"

definition rejected :: "db \<Rightarrow> response \<Rightarrow> handled" where
  "rejected d r = \<lparr>reply = Some r, sse = [], store = d, puts = [], builds = []\<rparr>"

definition message_failed :: response where
  "message_failed = Reply 500 (ErrorBody ''Failed to process message'')"

text \<open>Steps 4 to 8 of the unary handler on a worker call that succeeded.\<close>

definition message_worker_ok ::
  "message_env \<Rightarrow> db \<Rightarrow> uuid \<Rightarrow> uuid \<Rightarrow> workspace \<Rightarrow> string \<Rightarrow> agent_result \<Rightarrow> handled" where
  "message_worker_ok env d1 userId projectId w containerId result =
     (let runId = new_run_id env;
          written = try_putFile (put_ok env) containerId (events_path runId)
                      (unary_events env runId result);
          d2 = update_run runId (run_succeeded env w result) d1;
          d3 = update_workspace (ws_id w) (touch_workspace env result) d2;
          (d4, fired) = triggerEvidenceBuild (new_bundle_id env) (t_touch env) runId userId
                          projectId (ws_id w) d3
      in \<lparr>reply = Some (Reply 200 (MessageBody runId (finalText result) (diff result))),
           sse = [], store = d4, puts = written, builds = fired\<rparr>)"

text \<open>
  The \<^verbatim>\<open>catch (workerError)\<close> of the unary handler. It throws the error again, which the
  outer \<^verbatim>\<open>catch\<close> answers with 500.
\<close>

definition message_worker_failed ::
  "message_env \<Rightarrow> db \<Rightarrow> uuid \<Rightarrow> uuid \<Rightarrow> workspace \<Rightarrow> string \<Rightarrow> js_error \<Rightarrow> handled" where
  "message_worker_failed env d1 userId projectId w containerId workerError =
     (let runId = new_run_id env;
          d2 = update_run runId (run_failed env workerError) d1;
          written = try_putFile (put_ok env) containerId (events_path runId)
                      (unary_failure_events env runId workerError);
          (d3, fired) = triggerEvidenceBuild (new_bundle_id env) (t_touch env) runId userId
                          projectId (ws_id w) d2
      in \<lparr>reply = Some message_failed, sse = [], store = d3, puts = written,
           builds = fired\<rparr>)"

text \<open>
  Steps 3 and 4: the address of the container (an error here is thrown past the inner
  \<^verbatim>\<open>try\<close>, so the run row stays \<^verbatim>\<open>running\<close>) and the one \<^verbatim>\<open>fetch\<close> of the worker.
\<close>

definition message_run ::
  "message_env \<Rightarrow> db \<Rightarrow> uuid \<Rightarrow> uuid \<Rightarrow> workspace \<Rightarrow> string \<Rightarrow> handled" where
  "message_run env d1 userId projectId w containerId =
     (case container_addr env of
        Inl e \<Rightarrow> rejected d1 message_failed
      | Inr ip \<Rightarrow>
          (case worker_result (fetched env 0) of
             Inr result \<Rightarrow> message_worker_ok env d1 userId projectId w containerId result
           | Inl workerError \<Rightarrow>
               message_worker_failed env d1 userId projectId w containerId workerError))"

text \<open>
  The function the unary handler passes to \<^verbatim>\<open>lockManager.run\<close>, with the handler's outer
  \<^verbatim>\<open>catch\<close>: 409 for the thrown \<^verbatim>\<open>{status: 409}\<close>, 500 for anything else.
\<close>

definition message_locked ::
  "message_env \<Rightarrow> db \<Rightarrow> uuid \<Rightarrow> uuid \<Rightarrow> string \<Rightarrow> handled" where
  "message_locked env d userId projectId text =
     (case find_warm_workspace d userId projectId of
        None \<Rightarrow> rejected d (Reply 409 (ErrorBody no_warm_workspace))
      | Some w \<Rightarrow>
          (case container_id w of
             None \<Rightarrow> rejected d (Reply 409 (ErrorBody no_warm_workspace))
           | Some containerId \<Rightarrow>
               if containerId = [] then rejected d (Reply 409 (ErrorBody no_warm_workspace))
               else
                 (case insert_run (running_run env userId projectId text w) d of
                    None \<Rightarrow> rejected d message_failed
                  | Some d1 \<Rightarrow> message_run env d1 userId projectId w containerId)))"

definition post_message ::
  "message_env \<Rightarrow> db \<Rightarrow> uuid \<Rightarrow> uuid \<Rightarrow> string \<Rightarrow> handled" where
  "post_message env d userId projectId text =
     (if \<not> checkQuota (max_runs_setting env) d userId (t_quota env)
      then rejected d (Reply 429 (ErrorBody ''quota_exceeded''))
      else message_locked env d userId projectId text)"


section \<open>The streaming message handler (POST /projects/:id/message/stream)\<close>

text \<open>
  The worker call of the streaming handler: up to fifteen attempts; an attempt that throws
  is repeated unless it is the last one or the error is the \<^verbatim>\<open>AbortError\<close> of the
  \<^verbatim>\<open>AbortController\<close> (armed for ten seconds). \<open>f i\<close> is what attempt \<open>i\<close> settles to.
\<close>

fun fetch_attempts ::
  "(nat \<Rightarrow> js_error + http_response) \<Rightarrow> nat \<Rightarrow> nat \<Rightarrow> js_error + http_response" where
  "fetch_attempts f i 0 = Inl (JsError ''Error'' ''Failed to connect to worker'')"
| "fetch_attempts f i (Suc n) =
     (case f i of
        Inr response \<Rightarrow> Inr response
      | Inl e \<Rightarrow>
          if i = 14 then Inl e
          else if err_name e = ''AbortError'' then Inl e
          else fetch_attempts f (Suc i) n)"

definition fetch_with_retry :: "(nat \<Rightarrow> js_error + http_response) \<Rightarrow> js_error + http_response" where
  "fetch_with_retry f = fetch_attempts f 0 15"

text \<open>
  The white space \<^verbatim>\<open>\s\<close> of a regular expression, among the code units up to U+00FF that
  a \<open>char\<close> holds: TAB, LF, VT, FF, CR, SPACE and NO-BREAK SPACE.
\<close>

definition is_space :: "char \<Rightarrow> bool" where
  "is_space c = (of_char c \<in> {9, 10, 11, 12, 13, 32, 160 :: nat})"

text \<open>
  \<^verbatim>\<open>text.split(/(\s+)/)\<close>: the pieces between the maximal runs of white space, and, for the
  capturing group, each run between its two neighbours. The empty text gives one empty
  piece; a text that starts or ends with white space gives an empty first or last piece.
\<close>

function js_split_ws :: "string \<Rightarrow> string list" where
  "js_split_ws s =
     (let piece = takeWhile (\<lambda>c. \<not> is_space c) s;
          rest = dropWhile (\<lambda>c. \<not> is_space c) s
      in if rest = [] then [piece]
         else piece # takeWhile is_space rest # js_split_ws (dropWhile is_space rest))"
  by pat_completeness auto
termination
proof (relation "measure length")
  fix s :: string and piece rest
  assume rest: "rest = dropWhile (\<lambda>c. \<not> is_space c) s" and ne: "rest \<noteq> []"
  from ne have "is_space (hd rest)"
    unfolding rest using hd_dropWhile [of "\<lambda>c. \<not> is_space c" s] by simp
  with ne have "length (dropWhile is_space rest) < length rest"
    by (cases rest) (simp_all add: le_imp_less_Suc length_dropWhile_le)
  moreover have "length rest \<le> length s"
    unfolding rest by (rule length_dropWhile_le)
  ultimately show "(dropWhile is_space rest, s) \<in> measure length"
    by simp
qed simp

declare js_split_ws.simps [simp del]

text \<open>\<^verbatim>\<open>emit\<close>: stamp the event and push it on \<^verbatim>\<open>runEvents\<close> (and write it to the stream).\<close>

definition emit :: "message_env \<Rightarrow> uuid \<Rightarrow> event_payload \<Rightarrow> event list \<Rightarrow> event list" where
  "emit env runId partial runEvents =
     runEvents @ [Event partial (t_emit env (length runEvents)) runId]"

text \<open>The token loop: \<open>i\<close> is the loop index, which an empty piece uses up as well.\<close>

fun emit_tokens ::
  "message_env \<Rightarrow> uuid \<Rightarrow> nat \<Rightarrow> string list \<Rightarrow> event list \<Rightarrow> event list" where
  "emit_tokens env runId i [] runEvents = runEvents"
| "emit_tokens env runId i (token # tokens) runEvents =
     emit_tokens env runId (Suc i) tokens
       (if token \<noteq> [] then emit env runId (Token token i) runEvents else runEvents)"

text \<open>
  \<^verbatim>\<open>runEvents\<close> of a run whose worker call succeeded, at the point where the handler
  writes \<^verbatim>\<open>events.jsonl\<close>: \<^verbatim>\<open>run-start\<close>, the tokens and the \<^verbatim>\<open>diff\<close>, if there is one.
\<close>

definition streamed_events :: "message_env \<Rightarrow> uuid \<Rightarrow> agent_result \<Rightarrow> event list" where
  "streamed_events env runId result =
     (let ev0 = emit env runId RunStart [];
          ev1 = emit_tokens env runId 0 (js_split_ws (finalText result)) ev0
      in if diff result \<noteq> [] then emit env runId (Diff (diff result)) ev1 else ev1)"

text \<open>
  Steps 4 to 6 of the streaming handler on a worker call that succeeded, in the order of
  the source: the events of the answer, the two updates, the write of \<^verbatim>\<open>events.jsonl\<close>,
  the evidence build, and \<^verbatim>\<open>run-complete\<close> last.
\<close>

definition stream_worker_ok ::
  "message_env \<Rightarrow> db \<Rightarrow> uuid \<Rightarrow> uuid \<Rightarrow> workspace \<Rightarrow> string \<Rightarrow> agent_result \<Rightarrow> handled" where
  "stream_worker_ok env d1 userId projectId w containerId result =
     (let runId = new_run_id env;
          runEvents = streamed_events env runId result;
          d2 = update_run runId (run_succeeded env w result) d1;
          d3 = update_workspace (ws_id w) (touch_workspace env result) d2;
          written = try_putFile (put_ok env) containerId (events_path runId) runEvents;
          (d4, fired) = triggerEvidenceBuild (new_bundle_id env) (t_touch env) runId userId
                          projectId (ws_id w) d3
      in \<lparr>reply = None, sse = emit env runId (RunComplete Succeeded None) runEvents,
           store = d4, puts = written, builds = fired\<rparr>)"

text \<open>The \<^verbatim>\<open>catch (workerError)\<close> of the streaming handler, in the order of the source.\<close>

definition stream_worker_failed ::
  "message_env \<Rightarrow> db \<Rightarrow> uuid \<Rightarrow> uuid \<Rightarrow> workspace \<Rightarrow> string \<Rightarrow> js_error \<Rightarrow> handled" where
  "stream_worker_failed env d1 userId projectId w containerId workerError =
     (let runId = new_run_id env;
          runEvents = emit env runId RunStart [];
          d2 = update_run runId (run_failed env workerError) d1;
          written = try_putFile (put_ok env) containerId (events_path runId) runEvents;
          (d3, fired) = triggerEvidenceBuild (new_bundle_id env) (t_touch env) runId userId
                          projectId (ws_id w) d2
      in \<lparr>reply = None,
           sse = emit env runId (RunComplete Failed (Some (err_message workerError))) runEvents,
           store = d3, puts = written, builds = fired\<rparr>)"

text \<open>
  From the emission of \<^verbatim>\<open>run-start\<close> on. An error of the address lookup is thrown past
  the inner \<^verbatim>\<open>try\<close>: the outer \<^verbatim>\<open>catch\<close> sends a \<^verbatim>\<open>run-complete\<close> whose \<^verbatim>\<open>runId\<close> is
  \<^verbatim>\<open>unknown\<close>, no file is written and the run row stays \<^verbatim>\<open>running\<close>.
\<close>

definition stream_run ::
  "message_env \<Rightarrow> db \<Rightarrow> uuid \<Rightarrow> uuid \<Rightarrow> workspace \<Rightarrow> string \<Rightarrow> handled" where
  "stream_run env d1 userId projectId w containerId =
     (let runEvents = emit env (new_run_id env) RunStart []
      in case container_addr env of
        Inl e \<Rightarrow>
          \<lparr>reply = None,
           sse = runEvents @ [Event (RunComplete Failed (Some (err_message e)))
                               (t_emit env (length runEvents)) ''unknown''],
           store = d1, puts = [], builds = []\<rparr>
      | Inr addr \<Rightarrow>
          (case worker_result (fetch_with_retry (fetched env)) of
             Inr result \<Rightarrow> stream_worker_ok env d1 userId projectId w containerId result
           | Inl workerError \<Rightarrow>
               stream_worker_failed env d1 userId projectId w containerId workerError))"

text \<open>
  The function the streaming handler passes to \<^verbatim>\<open>lockManager.run\<close>, with the handler's
  outer \<^verbatim>\<open>catch\<close>. Until the run row is inserted \<^verbatim>\<open>sendEvent\<close> is the function that does
  nothing, so what is thrown before that leaves the stream empty.
\<close>

definition silent :: "db \<Rightarrow> handled" where
  "silent d = \<lparr>reply = None, sse = [], store = d, puts = [], builds = []\<rparr>"

definition stream_locked ::
  "message_env \<Rightarrow> db \<Rightarrow> uuid \<Rightarrow> uuid \<Rightarrow> string \<Rightarrow> handled" where
  "stream_locked env d userId projectId text =
     (case find_warm_workspace d userId projectId of
        None \<Rightarrow> silent d
      | Some w \<Rightarrow>
          (case container_id w of
             None \<Rightarrow> silent d
           | Some containerId \<Rightarrow>
               if containerId = [] then silent d
               else
                 (case insert_run (running_run env userId projectId text w) d of
                    None \<Rightarrow> silent d
                  | Some d1 \<Rightarrow> stream_run env d1 userId projectId w containerId)))"

definition post_message_stream ::
  "message_env \<Rightarrow> db \<Rightarrow> uuid \<Rightarrow> uuid \<Rightarrow> string \<Rightarrow> handled" where
  "post_message_stream env d userId projectId text =
     (if \<not> checkQuota (max_runs_setting env) d userId (t_quota env)
      then rejected d (Reply 429 (ErrorBody ''quota_exceeded''))
      else stream_locked env d userId projectId text)"


section \<open>The workspace manager (workspace-manager/src/index.ts)\<close>

text \<open>The calls made to the Docker daemon, in the order they are made.\<close>

datatype docker_call =
    EnsureVolume string
  | CreateContainer string "string list"
  | StartContainer string
  | InspectContainer string
  | CloneRepo string string
  | StopContainer string
  | RemoveContainer string
  | StopWorkspace string
  | DeleteVolume string

text \<open>What the daemon answers to the calls of \<^verbatim>\<open>createWarmWorkspace\<close>.\<close>

record docker_replies =
  create_reply :: "js_error + string"
  start_reply :: "js_error option"
  inspect_reply :: "js_error + string \<times> string"
  clone_reply :: "js_error option"

record warm_workspace =
  containerId :: string
  volumeName :: string
  imageName :: string
  imageDigest :: string

text \<open>
  \<^verbatim>\<open>createWarmWorkspace\<close>. \<^verbatim>\<open>ensureVolume\<close> swallows its error. \<^verbatim>\<open>createContainer\<close> stands
  before the \<^verbatim>\<open>try\<close>: its error is thrown as it is. Whatever \<^verbatim>\<open>start\<close>, \<^verbatim>\<open>inspect\<close> or
  \<^verbatim>\<open>cloneRepo\<close> throws is caught: the container is stopped and removed (the errors of both
  calls ignored) and the error thrown again.
\<close>

definition createWarmWorkspace ::
  "docker_replies \<Rightarrow> uuid \<Rightarrow> string \<Rightarrow> string \<Rightarrow> (string \<times> string) list
     \<Rightarrow> docker_call list \<times> (js_error + warm_workspace)" where
  "createWarmWorkspace daemon projectId repoUrl apiKey envVars =
     (let volumeName = ''ws-'' @ projectId;
          env = (''OPENAI_API_KEY='' @ apiKey) # map (\<lambda>(k, v). k @ ''='' @ v) envVars;
          calls0 = [EnsureVolume volumeName, CreateContainer volumeName env]
      in case create_reply daemon of
        Inl e \<Rightarrow> (calls0, Inl e)
      | Inr cid \<Rightarrow>
          (let cleanup = [StopContainer cid, RemoveContainer cid];
               calls1 = calls0 @ [StartContainer cid]
           in case start_reply daemon of
             Some e \<Rightarrow> (calls1 @ cleanup, Inl e)
           | None \<Rightarrow>
               (let calls2 = calls1 @ [InspectContainer cid]
                in case inspect_reply daemon of
                  Inl e \<Rightarrow> (calls2 @ cleanup, Inl e)
                | Inr (realImageName, digest) \<Rightarrow>
                    (let calls3 = calls2 @ [CloneRepo cid repoUrl]
                     in case clone_reply daemon of
                       Some e \<Rightarrow> (calls3 @ cleanup, Inl e)
                     | None \<Rightarrow>
                         (calls3, Inr \<lparr>containerId = cid, volumeName = volumeName,
                                       imageName = realImageName, imageDigest = digest\<rparr>)))))"

section \<open>Opening a project (POST /projects/:id/open)\<close>

record open_env =
  daemon :: docker_replies
  openai_api_key :: "string option"
  force_mock_codex :: "string option"
  new_ws_id :: uuid
  t_open :: timestamp

definition mark_cold :: "workspace \<Rightarrow> workspace" where
  "mark_cold w = w\<lparr>ws_state := Cold, container_id := None\<rparr>"

text \<open>Step 1.5, the query: the user's warm workspaces of other projects.\<close>

definition otherWarmWorkspaces :: "db \<Rightarrow> uuid \<Rightarrow> uuid \<Rightarrow> workspace list" where
  "otherWarmWorkspaces d userId projectId =
     filter (\<lambda>w. ws_state w = Warm \<and> ws_project_id w \<noteq> projectId \<and> ws_user_id w = userId)
       (workspaces d)"

text \<open>
  Step 1.5, the loop: stop the container of each (\<^verbatim>\<open>stopWorkspace\<close> swallows its errors)
  and mark the row cold.
\<close>

fun lru_stop :: "workspace list \<Rightarrow> db \<Rightarrow> db \<times> docker_call list" where
  "lru_stop [] d = (d, [])"
| "lru_stop (other # others) d =
     (let stopped = (case container_id other of
                       None \<Rightarrow> []
                     | Some c \<Rightarrow> if c \<noteq> [] then [StopWorkspace c] else []);
          (d', calls) = lru_stop others (update_workspace (ws_id other) mark_cold d)
      in (d', stopped @ calls))"

text \<open>
  The handler up to its call of \<^verbatim>\<open>createWarmWorkspace\<close>, which it awaits: either it has
  answered, or it goes on with the project and the workspace row it has read.
\<close>

datatype open_stage = Answered response | Starting project "workspace option"

definition open_begin :: "db \<Rightarrow> uuid \<Rightarrow> uuid \<Rightarrow> db \<times> docker_call list \<times> open_stage" where
  "open_begin d userId projectId =
     (case find (\<lambda>p. prj_id p = projectId \<and> prj_user_id p = userId) (projects d) of
        None \<Rightarrow> (d, [], Answered (Reply 404 (ErrorBody ''Project not found'')))
      | Some p \<Rightarrow>
          (let workspace = find (\<lambda>w. ws_project_id w = projectId \<and> ws_user_id w = userId)
                             (workspaces d);
               (d', calls) = lru_stop (otherWarmWorkspaces d userId projectId) d
           in case workspace of
             None \<Rightarrow> (d', calls, Starting p None)
           | Some w \<Rightarrow>
               if ws_state w = Warm \<and> truthy (container_id w)
               then (d', calls, Answered (Reply 200 (OpenBody (ws_id w) Warm)))
               else (d', calls, Starting p (Some w))))"

definition open_envVars :: "open_env \<Rightarrow> workspace option \<Rightarrow> (string \<times> string) list" where
  "open_envVars env workspace =
     (case force_mock_codex env of
        None \<Rightarrow> []
      | Some v \<Rightarrow> if v \<noteq> [] then [(''FORCE_MOCK_CODEX'', v)] else [])
     @ (case workspace of
          None \<Rightarrow> []
        | Some w \<Rightarrow>
            (case thread_id w of
               None \<Rightarrow> []
             | Some t \<Rightarrow> if t \<noteq> [] then [(''CODEX_THREAD_ID'', t)] else []))"

definition open_apiKey :: "open_env \<Rightarrow> string" where
  "open_apiKey env =
     (case openai_api_key env of None \<Rightarrow> ''dummy-key'' | Some k \<Rightarrow> if k \<noteq> [] then k else ''dummy-key'')"

definition warm_idle_open :: nat where
  "warm_idle_open = 20 * 60 * 1000"

definition set_warm :: "open_env \<Rightarrow> warm_workspace \<Rightarrow> workspace \<Rightarrow> workspace" where
  "set_warm env c w =
     w\<lparr>ws_state := Warm, container_id := Some (containerId c),
       ws_image_name := Some (imageName c), ws_image_digest := Some (imageDigest c),
       idle_expires_at := Some (t_open env + warm_idle_open), last_active_at := t_open env\<rparr>"

definition new_workspace :: "open_env \<Rightarrow> uuid \<Rightarrow> uuid \<Rightarrow> warm_workspace \<Rightarrow> workspace" where
  "new_workspace env userId projectId c =
     \<lparr>ws_id = new_ws_id env, ws_user_id = userId, ws_project_id = projectId,
      ws_state = Warm, container_id = Some (containerId c),
      volume_name = Some (volumeName c), thread_id = None,
      ws_image_name = Some (imageName c), ws_image_digest = Some (imageDigest c),
      runtime_metadata = None, last_active_at = t_open env,
      idle_expires_at = Some (t_open env + warm_idle_open)\<rparr>"

definition open_failed :: response where
  "open_failed = Reply 500 (ErrorBody ''Failed to open workspace'')"

text \<open>
  The handler from the point where \<^verbatim>\<open>createWarmWorkspace\<close> has settled: step 3, the
  upsert, or the \<^verbatim>\<open>catch\<close> of the handler. \<^verbatim>\<open>executeTakeFirstOrThrow\<close> throws when the update
  returns no row.
\<close>

definition open_finish ::
  "open_env \<Rightarrow> db \<Rightarrow> uuid \<Rightarrow> uuid \<Rightarrow> workspace option \<Rightarrow> js_error + warm_workspace
     \<Rightarrow> db \<times> response" where
  "open_finish env d userId projectId workspace created =
     (case created of
        Inl e \<Rightarrow> (d, open_failed)
      | Inr c \<Rightarrow>
          (case workspace of
             Some w \<Rightarrow>
               if ws_id w \<in> set (map ws_id (workspaces d))
               then (update_workspace (ws_id w) (set_warm env c) d,
                     Reply 200 (OpenBody (ws_id w) Warm))
               else (d, open_failed)
           | None \<Rightarrow>
               (case insert_workspace (new_workspace env userId projectId c) d of
                  None \<Rightarrow> (d, open_failed)
                | Some d' \<Rightarrow> (d', Reply 200 (OpenBody (new_ws_id env) Warm)))))"

text \<open>The whole handler, when nothing else runs while it awaits the sandbox.\<close>

definition open_project :: "open_env \<Rightarrow> db \<Rightarrow> uuid \<Rightarrow> uuid \<Rightarrow> db \<times> docker_call list \<times> response" where
  "open_project env d userId projectId =
     (case open_begin d userId projectId of
        (d1, calls, Answered r) \<Rightarrow> (d1, calls, r)
      | (d1, calls, Starting p workspace) \<Rightarrow>
          (let (calls', created) = createWarmWorkspace (daemon env) projectId (repo_url p)
                                     (open_apiKey env) (open_envVars env workspace);
               (d2, r) = open_finish env d1 userId projectId workspace created
           in (d2, calls @ calls', r)))"

text \<open>
  The handler awaits \<^verbatim>\<open>createWarmWorkspace\<close>, and the server serves other requests while it
  does. \<open>open_resume\<close> is the handler from that \<^verbatim>\<open>await\<close> on, on the store as it is when the
  sandbox has settled, with the project and the workspace row the handler read before.
\<close>

definition open_resume ::
  "open_env \<Rightarrow> db \<Rightarrow> uuid \<Rightarrow> uuid \<Rightarrow> open_stage \<Rightarrow> db \<times> docker_call list \<times> response" where
  "open_resume env d userId projectId stage =
     (case stage of
        Answered r \<Rightarrow> (d, [], r)
      | Starting p workspace \<Rightarrow>
          (let (calls, created) = createWarmWorkspace (daemon env) projectId (repo_url p)
                                    (open_apiKey env) (open_envVars env workspace);
               (d', r) = open_finish env d userId projectId workspace created
           in (d', calls, r)))"

text \<open>
  Two Opens of one user whose awaits overlap: the second arrives while the first awaits its
  sandbox, then each goes on to its upsert.
\<close>

definition open_overlapping ::
  "open_env \<Rightarrow> uuid \<Rightarrow> open_env \<Rightarrow> uuid \<Rightarrow> uuid \<Rightarrow> db \<Rightarrow> db \<times> response \<times> response" where
  "open_overlapping envA projectA envB projectB userId d =
     (let (d1, callsA, stageA) = open_begin d userId projectA;
          (d2, callsB, stageB) = open_begin d1 userId projectB;
          (d3, callsA', rA) = open_resume envA d2 userId projectA stageA;
          (d4, callsB', rB) = open_resume envB d3 userId projectB stageB
      in (d4, rA, rB))"

section \<open>The idle reaper (background/idle-reaper.ts)\<close>

text \<open>
  The loop of \<^verbatim>\<open>reapIdleWorkspaces\<close>: a row whose \<^verbatim>\<open>container_id\<close> is falsy is skipped; for
  the others the container is stopped (\<^verbatim>\<open>stopWorkspace\<close> swallows its errors) and the row
  set to \<^verbatim>\<open>cold\<close> with no container.
\<close>

fun reap_loop :: "workspace list \<Rightarrow> db \<Rightarrow> db \<times> docker_call list" where
  "reap_loop [] d = (d, [])"
| "reap_loop (ws # rest) d =
     (case container_id ws of
        None \<Rightarrow> reap_loop rest d
      | Some c \<Rightarrow>
          if c = [] then reap_loop rest d
          else (let (d', calls) = reap_loop rest (update_workspace (ws_id ws) mark_cold d)
                in (d', StopWorkspace c # calls)))"

definition idleWorkspaces :: "db \<Rightarrow> timestamp \<Rightarrow> workspace list" where
  "idleWorkspaces d now =
     filter (\<lambda>w. ws_state w = Warm
                \<and> (case idle_expires_at w of None \<Rightarrow> False | Some t \<Rightarrow> t < now)
                \<and> container_id w \<noteq> None)
       (workspaces d)"

definition reapIdleWorkspaces :: "db \<Rightarrow> timestamp \<Rightarrow> db \<times> docker_call list" where
  "reapIdleWorkspaces d now = reap_loop (idleWorkspaces d now) d"

section \<open>The retention sweeps (background/gc-worker.ts)\<close>

text \<open>The files and directories that exist on the orchestrator's host, by path.\<close>

type_synonym host_fs = "string set"

definition limitDate :: "timestamp \<Rightarrow> int \<Rightarrow> int" where
  "limitDate now ttl_days = int now - ttl_days * 24 * 60 * 60 * 1000"

definition mark_deleted :: "workspace \<Rightarrow> workspace" where
  "mark_deleted w = w\<lparr>ws_state := Deleted, volume_name := None\<rparr>"

definition coldWorkspaces :: "db \<Rightarrow> timestamp \<Rightarrow> int \<Rightarrow> workspace list" where
  "coldWorkspaces d now ttl_days =
     filter (\<lambda>w. ws_state w = Cold \<and> int (last_active_at w) < limitDate now ttl_days
                \<and> volume_name w \<noteq> None)
       (workspaces d)"

text \<open>
  \<^verbatim>\<open>schema.sql\<close> declares \<^verbatim>\<open>volume_name TEXT NOT NULL\<close>: an \<^verbatim>\<open>UPDATE\<close> that would leave a row
  it matches with no \<^verbatim>\<open>volume_name\<close> is rejected and throws.
\<close>

definition update_workspace_not_null ::
  "uuid \<Rightarrow> (workspace \<Rightarrow> workspace) \<Rightarrow> db \<Rightarrow> js_error + db" where
  "update_workspace_not_null wsId f d =
     (if list_ex (\<lambda>w. ws_id w = wsId \<and> volume_name (f w) = None) (workspaces d)
      then Inl (JsError ''error''
             ''null value in column volume_name of relation workspaces violates not-null constraint'')
      else Inr (update_workspace wsId f d))"

text \<open>
  The loop of \<^verbatim>\<open>runWorkspaceGC\<close>: the volume is deleted (\<^verbatim>\<open>deleteVolume\<close> swallows its
  errors), then the row is updated to \<^verbatim>\<open>deleted\<close> with no \<^verbatim>\<open>volume_name\<close>. What the update
  throws ends the loop in the \<^verbatim>\<open>catch\<close> of \<^verbatim>\<open>runWorkspaceGC\<close>, which only logs.
\<close>

fun workspace_gc_loop :: "workspace list \<Rightarrow> db \<Rightarrow> db \<times> docker_call list" where
  "workspace_gc_loop [] d = (d, [])"
| "workspace_gc_loop (ws # rest) d =
     (let deleted = (case volume_name ws of
                       None \<Rightarrow> []
                     | Some v \<Rightarrow> if v \<noteq> [] then [DeleteVolume v] else [])
      in case update_workspace_not_null (ws_id ws) mark_deleted d of
           Inl e \<Rightarrow> (d, deleted)
         | Inr d' \<Rightarrow>
             (let (d'', calls) = workspace_gc_loop rest d'
              in (d'', deleted @ calls)))"

definition runWorkspaceGC :: "int \<Rightarrow> db \<Rightarrow> timestamp \<Rightarrow> db \<times> docker_call list" where
  "runWorkspaceGC ttl_days d now = workspace_gc_loop (coldWorkspaces d now ttl_days) d"

definition update_bundle ::
  "(evidence_bundle \<Rightarrow> bool) \<Rightarrow> (evidence_bundle \<Rightarrow> evidence_bundle) \<Rightarrow> db \<Rightarrow> db" where
  "update_bundle sel f d =
     d\<lparr>evidence_bundles := map (\<lambda>b. if sel b then f b else b) (evidence_bundles d)\<rparr>"

definition oldBundles :: "db \<Rightarrow> timestamp \<Rightarrow> int \<Rightarrow> evidence_bundle list" where
  "oldBundles d now ttl_days =
     filter (\<lambda>b. eb_status b = Ready \<and> int (eb_created_at b) < limitDate now ttl_days
                \<and> bundle_path b \<noteq> None)
       (evidence_bundles d)"

text \<open>
  The loop of \<^verbatim>\<open>runEvidenceGC\<close>: the file is unlinked and the row marked deleted. An
  error of \<^verbatim>\<open>unlink\<close> is logged and the row marked all the same; the model takes the
  \<^verbatim>\<open>unlink\<close> to succeed.
\<close>

fun evidence_gc_loop :: "evidence_bundle list \<Rightarrow> db \<Rightarrow> host_fs \<Rightarrow> db \<times> host_fs" where
  "evidence_gc_loop [] d fs = (d, fs)"
| "evidence_gc_loop (b # rest) d fs =
     (let fs' = (case bundle_path b of
                   None \<Rightarrow> fs
                 | Some path \<Rightarrow> if path \<noteq> [] then fs - {path} else fs)
      in evidence_gc_loop rest
           (update_bundle (\<lambda>x. eb_id x = eb_id b)
              (\<lambda>x. x\<lparr>eb_status := BundleDeleted, bundle_path := None\<rparr>) d) fs')"

definition runEvidenceGC :: "int \<Rightarrow> db \<Rightarrow> host_fs \<Rightarrow> timestamp \<Rightarrow> db \<times> host_fs" where
  "runEvidenceGC ttl_days d fs now = evidence_gc_loop (oldBundles d now ttl_days) d fs"

section \<open>The evidence builder (background/evidence-builder.ts)\<close>

datatype build_step = Mkdir | GetArchive | Untar | CopyFiles | WriteMetadata | Zip | Cleanup

text \<open>
  What the environment contributes to one build: the evidence root, the clock, and for each
  step that works on the sandbox or on the host's file system the error it throws, if any.
\<close>

record build_env =
  evidenceRoot :: string
  t_build :: timestamp
  step_error :: "build_step \<Rightarrow> js_error option"

definition tempDir :: "build_env \<Rightarrow> uuid \<Rightarrow> string" where
  "tempDir env runId = evidenceRoot env @ ''/temp/'' @ runId"

definition zipFilePath :: "build_env \<Rightarrow> uuid \<Rightarrow> string" where
  "zipFilePath env runId = evidenceRoot env @ ''/'' @ runId @ ''.zip''"

text \<open>The \<^verbatim>\<open>catch\<close> of \<^verbatim>\<open>buildBundle\<close>: the bundle row is marked \<^verbatim>\<open>error\<close>; nothing else.\<close>

definition bundle_failed :: "build_env \<Rightarrow> uuid \<Rightarrow> js_error \<Rightarrow> db \<Rightarrow> db" where
  "bundle_failed env runId e d =
     update_bundle (\<lambda>b. eb_run_id b = runId)
       (\<lambda>b. b\<lparr>eb_status := BundleError,
              eb_error_message := Some (if err_message e \<noteq> [] then err_message e
                                        else ''Unknown error''),
              eb_updated_at := t_build env\<rparr>) d"

definition bundle_ready :: "build_env \<Rightarrow> uuid \<Rightarrow> db \<Rightarrow> db" where
  "bundle_ready env runId d =
     update_bundle (\<lambda>b. eb_run_id b = runId)
       (\<lambda>b. b\<lparr>eb_status := Ready, bundle_path := Some (zipFilePath env runId),
              eb_updated_at := t_build env\<rparr>) d"

text \<open>
  The steps of \<^verbatim>\<open>buildBundle\<close> that follow the creation of the temp directory, in order:
  the first that throws ends in the \<^verbatim>\<open>catch\<close>. The zip file exists once \<^verbatim>\<open>zip\<close> has
  succeeded; the temp directory is removed after the row has been set to \<^verbatim>\<open>ready\<close>.
\<close>

fun build_steps :: "build_env \<Rightarrow> uuid \<Rightarrow> build_step list \<Rightarrow> db \<Rightarrow> host_fs \<Rightarrow> db \<times> host_fs" where
  "build_steps env runId [] d fs =
     (let fs' = insert (zipFilePath env runId) fs;
          d' = bundle_ready env runId d
      in case step_error env Cleanup of
           Some e \<Rightarrow> (bundle_failed env runId e d', fs')
         | None \<Rightarrow> (d', fs' - {tempDir env runId}))"
| "build_steps env runId (step # steps) d fs =
     (case step_error env step of
        Some e \<Rightarrow> (bundle_failed env runId e d, fs)
      | None \<Rightarrow> build_steps env runId steps d fs)"

definition buildBundle :: "build_env \<Rightarrow> db \<Rightarrow> host_fs \<Rightarrow> uuid \<Rightarrow> db \<times> host_fs" where
  "buildBundle env d fs runId =
     (case find (\<lambda>r. run_id r = runId) (runs d) of
        None \<Rightarrow> (bundle_failed env runId (JsError ''Error'' (''Run '' @ runId @ '' not found'')) d, fs)
      | Some r \<Rightarrow>
          (let no_container = JsError ''Error''
                 (''Workspace container not found for run '' @ runId)
           in case find (\<lambda>w. ws_id w = run_workspace_id r) (workspaces d) of
             None \<Rightarrow> (bundle_failed env runId no_container d, fs)
           | Some w \<Rightarrow>
               if \<not> truthy (container_id w) then (bundle_failed env runId no_container d, fs)
               else
                 (let fs1 = fs - {tempDir env runId}
                  in case step_error env Mkdir of
                    Some e \<Rightarrow> (bundle_failed env runId e d, fs1)
                  | None \<Rightarrow>
                      build_steps env runId [GetArchive, Untar, CopyFiles, WriteMetadata, Zip]
                        d (insert (tempDir env runId) fs1))))"


section \<open>Reading an event log\<close>

definition is_run_start :: "event \<Rightarrow> bool" where
  "is_run_start e = (case ev_payload e of RunStart \<Rightarrow> True | _ \<Rightarrow> False)"

definition is_run_complete :: "event \<Rightarrow> bool" where
  "is_run_complete e = (case ev_payload e of RunComplete s m \<Rightarrow> True | _ \<Rightarrow> False)"

text \<open>The token events of a log, each as its \<^verbatim>\<open>delta\<close> and its \<^verbatim>\<open>sequence\<close>, in order.\<close>

fun tokens_of :: "event list \<Rightarrow> (string \<times> nat) list" where
  "tokens_of [] = []"
| "tokens_of (e # es) =
     (case ev_payload e of Token delta n \<Rightarrow> (delta, n) # tokens_of es | _ \<Rightarrow> tokens_of es)"

definition token_seqs :: "event list \<Rightarrow> nat list" where
  "token_seqs es = map snd (tokens_of es)"

section \<open>The orchestrator as a whole\<close>

text \<open>
  The state the requests and the background jobs share: the store and the files of the
  evidence root. \<^verbatim>\<open>POST /projects\<close> inserts a project row under a generated id and answers
  500 when the insert fails.
\<close>

record system =
  sys_db :: db
  sys_fs :: host_fs

definition create_project :: "uuid \<Rightarrow> uuid \<Rightarrow> string \<Rightarrow> string \<Rightarrow> db \<Rightarrow> db" where
  "create_project newId userId name repoUrl d =
     (if newId \<in> set (map prj_id (projects d)) then d
      else d\<lparr>projects := projects d @
              [\<lparr>prj_id = newId, prj_user_id = userId, prj_name = name, repo_url = repoUrl\<rparr>]\<rparr>)"

text \<open>
  One request or one run of a background job, with what the environment contributes to it.
  \<^verbatim>\<open>POST /ops/gc\<close> is \<open>WorkspaceGC\<close> followed by \<open>EvidenceGC\<close>.
\<close>

datatype request =
    CreateProject uuid uuid string string
  | OpenProject open_env uuid uuid
  | Message message_env uuid uuid string
  | MessageStream message_env uuid uuid string
  | Reap timestamp
  | WorkspaceGC int timestamp
  | EvidenceGC int timestamp
  | BuildBundle build_env uuid

text \<open>A request served from its first statement to its last with nothing in between.\<close>

fun serve :: "request \<Rightarrow> system \<Rightarrow> system" where
  "serve (CreateProject newId userId name repoUrl) s =
     s\<lparr>sys_db := create_project newId userId name repoUrl (sys_db s)\<rparr>"
| "serve (OpenProject env userId projectId) s =
     s\<lparr>sys_db := fst (open_project env (sys_db s) userId projectId)\<rparr>"
| "serve (Message env userId projectId text) s =
     s\<lparr>sys_db := store (post_message env (sys_db s) userId projectId text)\<rparr>"
| "serve (MessageStream env userId projectId text) s =
     s\<lparr>sys_db := store (post_message_stream env (sys_db s) userId projectId text)\<rparr>"
| "serve (Reap now) s = s\<lparr>sys_db := fst (reapIdleWorkspaces (sys_db s) now)\<rparr>"
| "serve (WorkspaceGC ttl_days now) s =
     s\<lparr>sys_db := fst (runWorkspaceGC ttl_days (sys_db s) now)\<rparr>"
| "serve (EvidenceGC ttl_days now) s =
     (let (d, fs) = runEvidenceGC ttl_days (sys_db s) (sys_fs s) now
      in \<lparr>sys_db = d, sys_fs = fs\<rparr>)"
| "serve (BuildBundle env runId) s =
     (let (d, fs) = buildBundle env (sys_db s) (sys_fs s) runId
      in \<lparr>sys_db = d, sys_fs = fs\<rparr>)"

definition empty_system :: system where
  "empty_system =
     \<lparr>sys_db = \<lparr>projects = [], workspaces = [], runs = [], evidence_bundles = []\<rparr>,
      sys_fs = {}\<rparr>"

text \<open>
  The states the orchestrator reaches by serving requests one after the other. The Docker
  daemon names the container it creates by a non-empty id.
\<close>

definition docker_ids_ok :: "request \<Rightarrow> bool" where
  "docker_ids_ok r =
     (case r of
        OpenProject env userId projectId \<Rightarrow> create_reply (daemon env) \<noteq> Inr []
      | _ \<Rightarrow> True)"

inductive reachable :: "system \<Rightarrow> bool" where
  initial: "reachable empty_system"
| served: "reachable s \<Longrightarrow> docker_ids_ok r \<Longrightarrow> reachable (serve r s)"

text \<open>The number of warm workspace rows of a user.\<close>

definition warm_count :: "db \<Rightarrow> uuid \<Rightarrow> nat" where
  "warm_count d userId =
     length (filter (\<lambda>w. ws_user_id w = userId \<and> ws_state w = Warm) (workspaces d))"

text \<open>
  What a request may do to a row of the workspace table: the row keeps its id, its user,
  its project and its volume name.
\<close>

definition row_step :: "workspace \<Rightarrow> workspace \<Rightarrow> bool" where
  "row_step w w' \<longleftrightarrow>
     ws_id w' = ws_id w \<and> ws_user_id w' = ws_user_id w \<and> ws_project_id w' = ws_project_id w
     \<and> volume_name w' = volume_name w"

text \<open>Requests served one after the other, and the row at a position of the workspace table.\<close>

fun serve_all :: "request list \<Rightarrow> system \<Rightarrow> system" where
  "serve_all [] s = s"
| "serve_all (r # rs) s = serve_all rs (serve r s)"


text \<open>
  The workspace table is in order when ids are unique, a user has one row for a project, and
  the warm rows of a user are one row.
\<close>

definition one_warm_per_user :: "workspace list \<Rightarrow> bool" where
  "one_warm_per_user rows \<longleftrightarrow>
     distinct (map ws_id rows)
     \<and> distinct (map (\<lambda>w. (ws_user_id w, ws_project_id w)) rows)
     \<and> (\<forall>w \<in> set rows. \<forall>w' \<in> set rows.
           ws_state w = Warm \<and> ws_state w' = Warm \<and> ws_user_id w = ws_user_id w'
           \<longrightarrow> ws_id w = ws_id w')"

section \<open>Concrete inputs\<close>

text \<open>
  A user \<^verbatim>\<open>u1\<close> with two projects, rows and environments on which the theorems below are
  evaluated.
\<close>

definition ex_projects :: "project list" where
  "ex_projects =
     [\<lparr>prj_id = ''p1'', prj_user_id = ''u1'', prj_name = ''one'',
       repo_url = ''https://github.com/octocat/Hello-World.git''\<rparr>,
      \<lparr>prj_id = ''p2'', prj_user_id = ''u1'', prj_name = ''two'',
       repo_url = ''https://github.com/octocat/Spoon-Knife.git''\<rparr>]"

definition ex_workspace :: workspace where
  "ex_workspace =
     \<lparr>ws_id = ''w1'', ws_user_id = ''u1'', ws_project_id = ''p1'', ws_state = Warm,
      container_id = Some ''c1'', volume_name = Some ''ws-p1'', thread_id = Some ''t1'',
      ws_image_name = Some ''codexrt-workspace:v0.1'', ws_image_digest = Some ''sha256:0'',
      runtime_metadata = None, last_active_at = 1000, idle_expires_at = Some 2000\<rparr>"

definition ex_run :: "uuid \<Rightarrow> timestamp \<Rightarrow> run" where
  "ex_run rid t =
     \<lparr>run_id = rid, run_user_id = ''u1'', run_project_id = ''p1'', run_workspace_id = ''w1'',
      run_status = Succeeded, prompt = ''hello'', final_text = Some ''done'',
      run_diff = Some [], run_error_message = None, started_at = t,
      finished_at = Some (t + 5), duration_ms = Some 5, git_commit = None,
      run_image_name = None, run_image_digest = None, env_snapshot = None\<rparr>"

definition ex_db :: db where
  "ex_db = \<lparr>projects = ex_projects, workspaces = [ex_workspace], runs = [],
            evidence_bundles = []\<rparr>"

text \<open>
  The store on the second UTC day (which starts at 86400000): \<^verbatim>\<open>u1\<close> has a run at
  midnight sharp and one later that day, and one a millisecond before midnight; \<^verbatim>\<open>u2\<close> has
  one run that day.
\<close>

definition ex_db_two_runs :: db where
  "ex_db_two_runs =
     ex_db\<lparr>runs := [ex_run ''r0'' 86399999, ex_run ''r1'' 86400000, ex_run ''r2'' 86401200,
                    (ex_run ''r9'' 86401300)\<lparr>run_user_id := ''u2''\<rparr>]\<rparr>"

definition ex_result :: agent_result where
  "ex_result = \<lparr>finalText = '' hi there'', diff = [], threadId = ''t2'', gitCommit = None\<rparr>"

text \<open>
  An environment in which the worker answers \<^verbatim>\<open>200\<close> with \<open>ex_result\<close> at once, and one
  in which every attempt is cut off by the \<^verbatim>\<open>AbortController\<close>.
\<close>

definition ex_env :: message_env where
  "ex_env =
     \<lparr>max_runs_setting = Some 2, warm_idle_ms = 1200000, t_quota = 1500, t_start = 1501,
      t_finish = 1601, t_touch = 1602, t_emit = (\<lambda>n. 1502 + 20 * n), new_run_id = ''r3'',
      new_bundle_id = ''b3'', container_addr = Inr ''172.18.0.2'',
      fetched = (\<lambda>i. Inr (HttpResponse 200 [] (Inr ex_result))), put_ok = True\<rparr>"

definition ex_env_aborted :: message_env where
  "ex_env_aborted =
     ex_env\<lparr>fetched := (\<lambda>i. Inl (JsError ''AbortError'' ''This operation was aborted''))\<rparr>"

text \<open>
  An environment in which two attempts fail to connect and the third is cut off by the
  \<^verbatim>\<open>AbortController\<close>.
\<close>

definition ex_env_aborted_late :: message_env where
  "ex_env_aborted_late =
     ex_env\<lparr>fetched := (\<lambda>i. if i < 2 then Inl (JsError ''TypeError'' ''fetch failed'')
                            else Inl (JsError ''AbortError'' ''This operation was aborted''))\<rparr>"

text \<open>
  An environment in which the worker answers 500 after its own limit of 60 seconds
  (\<^verbatim>\<open>Codex run timed out after 60 seconds\<close>, codex-worker).
\<close>

definition ex_env_worker_timeout :: message_env where
  "ex_env_worker_timeout =
     ex_env\<lparr>fetched := (\<lambda>i. Inr (HttpResponse 500
        ''{error: Internal Server Error, details: Codex run timed out after 60 seconds}''
        (Inl (JsError ''SyntaxError'' ''not parsed''))))\<rparr>"

text \<open>The environment of a request at 86401500, with \<^verbatim>\<open>MAX_RUNS_PER_DAY=2\<close>.\<close>

definition ex_env_day2 :: message_env where
  "ex_env_day2 = ex_env\<lparr>t_quota := 86401500\<rparr>"

text \<open>
  The same store with the workspace cold, with a workspace whose \<^verbatim>\<open>container_id\<close> is the
  empty string, and with no workspace at all.
\<close>

definition ex_db_cold :: db where
  "ex_db_cold = ex_db\<lparr>workspaces := [ex_workspace\<lparr>ws_state := Cold, container_id := None\<rparr>]\<rparr>"

definition ex_db_blank :: db where
  "ex_db_blank = ex_db\<lparr>workspaces := [ex_workspace\<lparr>container_id := Some []\<rparr>]\<rparr>"

definition ex_db_new :: db where
  "ex_db_new = ex_db\<lparr>workspaces := []\<rparr>"

text \<open>
  A daemon that creates, starts and inspects the container and clones the repository; one
  whose \<^verbatim>\<open>start\<close> fails; one whose clone fails.
\<close>

definition ex_daemon :: docker_replies where
  "ex_daemon =
     \<lparr>create_reply = Inr ''c2'', start_reply = None,
      inspect_reply = Inr (''codexrt-workspace:v0.1'', ''sha256:0''), clone_reply = None\<rparr>"

definition ex_open_env :: open_env where
  "ex_open_env =
     \<lparr>daemon = ex_daemon, openai_api_key = None, force_mock_codex = None,
      new_ws_id = ''w9'', t_open = 3000\<rparr>"

definition ex_open_env_start_fails :: open_env where
  "ex_open_env_start_fails =
     ex_open_env\<lparr>daemon := ex_daemon\<lparr>start_reply := Some (JsError ''Error'' ''no such image'')\<rparr>\<rparr>"

definition ex_open_env_clone_fails :: open_env where
  "ex_open_env_clone_fails =
     ex_open_env\<lparr>daemon := ex_daemon\<lparr>clone_reply :=
        Some (JsError ''Error'' ''Git clone failed with exit code 128'')\<rparr>\<rparr>"

text \<open>The orchestrator with the two projects of the user and no workspace yet.\<close>

definition ex_system_new :: system where
  "ex_system_new = \<lparr>sys_db = ex_db_new, sys_fs = {}\<rparr>"

text \<open>
  The store after run \<^verbatim>\<open>r1\<close> with its evidence bundle pending; a build in which every step
  succeeds, and one in which the sandbox has no \<^verbatim>\<open>/workspace/evidence/r1\<close> to archive.
\<close>

definition ex_db_built :: db where
  "ex_db_built =
     ex_db\<lparr>runs := [ex_run ''r1'' 1100],
           evidence_bundles :=
             [\<lparr>eb_id = ''b1'', eb_run_id = ''r1'', eb_user_id = ''u1'', eb_project_id = ''p1'',
               eb_workspace_id = ''w1'', eb_status = Pending, bundle_path = None,
               eb_error_message = None, eb_created_at = 1105, eb_updated_at = 1105\<rparr>]\<rparr>"

definition ex_build_env :: build_env where
  "ex_build_env = \<lparr>evidenceRoot = ''/evidence'', t_build = 1700, step_error = (\<lambda>step. None)\<rparr>"

definition ex_build_env_no_archive :: build_env where
  "ex_build_env_no_archive =
     ex_build_env\<lparr>step_error := (\<lambda>step.
        if step = GetArchive
        then Some (JsError ''Error'' ''(HTTP code 404) no such container - Could not find the file /workspace/evidence/r1'')
        else None)\<rparr>"

text \<open>The environment of a second Open: Docker creates container \<^verbatim>\<open>c3\<close>, the row gets id \<^verbatim>\<open>w10\<close>.\<close>

definition ex_open_env_b :: open_env where
  "ex_open_env_b =
     ex_open_env\<lparr>daemon := ex_daemon\<lparr>create_reply := Inr ''c3''\<rparr>, new_ws_id := ''w10''\<rparr>"

section \<open>The quota gate\<close>

lemma start_of_utc_day_div: "start_of_utc_day now = now div 86400000 * 86400000"
proof -
  have "now = now div 86400000 * 86400000 + now mod 86400000"
    by simp
  then have "now - now mod 86400000 = now div 86400000 * 86400000"
    by linarith
  then show ?thesis
    by (simp add: start_of_utc_day_def ms_per_day_def)
qed

lemma checkQuota_count:
  "checkQuota setting d userId now \<longleftrightarrow>
     int (length (filter (\<lambda>r. run_user_id r = userId \<and> now div 86400000 * 86400000 \<le> started_at r)
                    (runs d)))
       < (case setting of None \<Rightarrow> 500 | Some n \<Rightarrow> n)"
  by (cases setting)
    (simp_all add: checkQuota_def runs_today_def start_of_utc_day_div max_runs_per_day_def
      DEFAULT_MAX_RUNS_def)

text \<open>
  Claim C4. \<^verbatim>\<open>checkQuota\<close> allows exactly when the number of runs of this user whose
  \<^verbatim>\<open>started_at\<close> is at or after the last UTC midnight (the greatest multiple of 86400000 ms
  that is at most the time of the check) is below \<^verbatim>\<open>MAX_RUNS_PER_DAY\<close> (500 when it is not
  set). A denied request, unary or streaming, is answered 429 \<^verbatim>\<open>quota_exceeded\<close> and leaves
  the table of runs as it was.
\<close>

theorem quota_gate:
  "(checkQuota (max_runs_setting env) d userId (t_quota env)
      \<longleftrightarrow> int (length (filter (\<lambda>r. run_user_id r = userId
                                   \<and> t_quota env div 86400000 * 86400000 \<le> started_at r)
                         (runs d)))
            < (case max_runs_setting env of None \<Rightarrow> 500 | Some n \<Rightarrow> n))
   \<and> (\<not> checkQuota (max_runs_setting env) d userId (t_quota env) \<longrightarrow>
        reply (post_message env d userId projectId msg)
          = Some (Reply 429 (ErrorBody ''quota_exceeded''))
        \<and> runs (store (post_message env d userId projectId msg)) = runs d
        \<and> reply (post_message_stream env d userId projectId msg)
          = Some (Reply 429 (ErrorBody ''quota_exceeded''))
        \<and> runs (store (post_message_stream env d userId projectId msg)) = runs d)"
  by (simp add: checkQuota_count post_message_def post_message_stream_def rejected_def)

text \<open>
  On the second day with a limit of two: the two runs of \<^verbatim>\<open>u1\<close> since midnight (the one at
  midnight sharp included, the one of the day before and the one of \<^verbatim>\<open>u2\<close> not) deny the
  third call, which inserts no run; \<^verbatim>\<open>u2\<close>, with one run, is allowed.
\<close>

theorem quota_gate_witness:
  "map run_id (filter (\<lambda>r. run_user_id r = ''u1''
                           \<and> t_quota ex_env_day2 div 86400000 * 86400000 \<le> started_at r)
                 (runs ex_db_two_runs)) = [''r1'', ''r2'']
   \<and> max_runs_setting ex_env_day2 = Some 2
   \<and> \<not> checkQuota (max_runs_setting ex_env_day2) ex_db_two_runs ''u1'' (t_quota ex_env_day2)
   \<and> checkQuota (max_runs_setting ex_env_day2) ex_db_two_runs ''u2'' (t_quota ex_env_day2)
   \<and> reply (post_message ex_env_day2 ex_db_two_runs ''u1'' ''p1'' ''third'')
       = Some (Reply 429 (ErrorBody ''quota_exceeded''))
   \<and> runs (store (post_message ex_env_day2 ex_db_two_runs ''u1'' ''p1'' ''third''))
       = runs ex_db_two_runs
   \<and> reply (post_message_stream ex_env_day2 ex_db_two_runs ''u1'' ''p1'' ''third'')
       = Some (Reply 429 (ErrorBody ''quota_exceeded''))
   \<and> runs (store (post_message_stream ex_env_day2 ex_db_two_runs ''u1'' ''p1'' ''third''))
       = runs ex_db_two_runs"
proof -
  have env: "t_quota ex_env_day2 = 86401500" "max_runs_setting ex_env_day2 = Some 2"
    by (simp_all add: ex_env_day2_def ex_env_def)
  have day: "(86401500 :: nat) div 86400000 * 86400000 = 86400000"
    by simp
  have rows: "runs ex_db_two_runs
      = [ex_run ''r0'' 86399999, ex_run ''r1'' 86400000, ex_run ''r2'' 86401200,
         (ex_run ''r9'' 86401300)\<lparr>run_user_id := ''u2''\<rparr>]"
    by (simp add: ex_db_two_runs_def)
  have u1: "filter (\<lambda>r. run_user_id r = ''u1'' \<and> 86400000 \<le> started_at r) (runs ex_db_two_runs)
      = [ex_run ''r1'' 86400000, ex_run ''r2'' 86401200]"
    unfolding rows by (simp add: ex_run_def)
  have u2: "filter (\<lambda>r. run_user_id r = ''u2'' \<and> 86400000 \<le> started_at r) (runs ex_db_two_runs)
      = [(ex_run ''r9'' 86401300)\<lparr>run_user_id := ''u2''\<rparr>]"
    unfolding rows by (simp add: ex_run_def)
  have ids: "run_id (ex_run ''r1'' 86400000) = ''r1''" "run_id (ex_run ''r2'' 86401200) = ''r2''"
    by (simp_all add: ex_run_def)
  from quota_gate [of ex_env_day2 ex_db_two_runs "''u1''" "''p1''" "''third''"]
    quota_gate [of ex_env_day2 ex_db_two_runs "''u2''" "''p1''" "''third''"]
  show ?thesis
    unfolding env day u1 u2 by (simp add: ids)
qed

section \<open>The handlers on the concrete inputs\<close>

lemma fetch_first_ok: "f 0 = Inr r \<Longrightarrow> fetch_with_retry f = Inr r"
  by (simp add: fetch_with_retry_def eval_nat_numeral)

lemma fetch_first_aborted:
  "f 0 = Inl e \<Longrightarrow> err_name e = ''AbortError'' \<Longrightarrow> fetch_with_retry f = Inl e"
  by (simp add: fetch_with_retry_def eval_nat_numeral)

lemma ex_find_warm: "find_warm_workspace ex_db ''u1'' ''p1'' = Some ex_workspace"
  by (simp add: find_warm_workspace_def ex_db_def ex_workspace_def)

lemma ex_quota: "checkQuota (max_runs_setting ex_env) ex_db ''u1'' (t_quota ex_env)"
  by (simp add: checkQuota_def runs_today_def ex_db_def ex_env_def max_runs_per_day_def)

lemma ex_insert_run:
  "insert_run (running_run env ''u1'' ''p1'' msg ex_workspace) ex_db
     = Some (ex_db\<lparr>runs := [running_run env ''u1'' ''p1'' msg ex_workspace]\<rparr>)"
  by (simp add: insert_run_def ex_db_def)

lemma ex_worker: "worker_result (fetch_with_retry (fetched ex_env)) = Inr ex_result"
  by (simp add: worker_result_def fetch_first_ok [of _ "HttpResponse 200 [] (Inr ex_result)"]
      ex_env_def response_ok_def)

lemma ex_worker_aborted:
  "worker_result (fetch_with_retry (fetched ex_env_aborted))
     = Inl (JsError ''AbortError'' ''This operation was aborted'')"
  by (simp add: worker_result_def ex_env_aborted_def
      fetch_first_aborted [of _ "JsError ''AbortError'' ''This operation was aborted''"])

lemma ex_split: "js_split_ws (finalText ex_result) = ['''', '' '', ''hi'', '' '', ''there'']"
  unfolding ex_result_def by code_simp

lemma ex_streamed:
  "streamed_events ex_env ''r3'' ex_result =
     [Event RunStart 1502 ''r3'', Event (Token '' '' 1) 1522 ''r3'',
      Event (Token ''hi'' 2) 1542 ''r3'', Event (Token '' '' 3) 1562 ''r3'',
      Event (Token ''there'' 4) 1582 ''r3'']"
  by (simp add: streamed_events_def ex_split emit_def Let_def) (simp add: ex_env_def ex_result_def)

lemma ex_stream:
  "post_message_stream ex_env ex_db ''u1'' ''p1'' msg
     = stream_worker_ok ex_env
         (ex_db\<lparr>runs := [running_run ex_env ''u1'' ''p1'' msg ex_workspace]\<rparr>)
         ''u1'' ''p1'' ex_workspace ''c1'' ex_result"
proof -
  have c: "container_id ex_workspace = Some ''c1''"
    by (simp add: ex_workspace_def)
  have a: "container_addr ex_env = Inr ''172.18.0.2''"
    by (simp add: ex_env_def)
  show ?thesis
    by (simp add: post_message_stream_def ex_quota stream_locked_def ex_find_warm ex_insert_run
        stream_run_def ex_worker c a)
qed

lemma ex_stream_sse:
  "sse (post_message_stream ex_env ex_db ''u1'' ''p1'' msg) =
     [Event RunStart 1502 ''r3'', Event (Token '' '' 1) 1522 ''r3'',
      Event (Token ''hi'' 2) 1542 ''r3'', Event (Token '' '' 3) 1562 ''r3'',
      Event (Token ''there'' 4) 1582 ''r3'', Event (RunComplete Succeeded None) 1602 ''r3'']"
proof -
  have r: "new_run_id ex_env = ''r3''"
    and t: "t_emit ex_env (Suc (Suc (Suc (Suc (Suc 0))))) = 1602"
    by (simp_all add: ex_env_def)
  show ?thesis
    by (simp add: ex_stream stream_worker_ok_def Let_def r t ex_streamed emit_def split_beta)
qed

lemma ex_stream_puts:
  "puts (post_message_stream ex_env ex_db ''u1'' ''p1'' msg) =
     [(''c1'', ''/workspace/evidence/r3/events.jsonl'',
       [Event RunStart 1502 ''r3'', Event (Token '' '' 1) 1522 ''r3'',
        Event (Token ''hi'' 2) 1542 ''r3'', Event (Token '' '' 3) 1562 ''r3'',
        Event (Token ''there'' 4) 1582 ''r3''])]"
proof -
  have r: "new_run_id ex_env = ''r3''" and p: "put_ok ex_env"
    by (simp_all add: ex_env_def)
  show ?thesis
    by (simp add: ex_stream stream_worker_ok_def Let_def r p ex_streamed try_putFile_def
        events_path_def evidence_dir_def split_beta)
qed

lemma ex_stream_aborted:
  "post_message_stream ex_env_aborted ex_db ''u1'' ''p1'' msg
     = stream_worker_failed ex_env_aborted
         (ex_db\<lparr>runs := [running_run ex_env_aborted ''u1'' ''p1'' msg ex_workspace]\<rparr>)
         ''u1'' ''p1'' ex_workspace ''c1'' (JsError ''AbortError'' ''This operation was aborted'')"
proof -
  have c: "container_id ex_workspace = Some ''c1''"
    by (simp add: ex_workspace_def)
  have a: "container_addr ex_env_aborted = Inr ''172.18.0.2''"
    by (simp add: ex_env_aborted_def ex_env_def)
  have q: "checkQuota (max_runs_setting ex_env_aborted) ex_db ''u1'' (t_quota ex_env_aborted)"
    using ex_quota by (simp add: ex_env_aborted_def)
  show ?thesis
    by (simp add: post_message_stream_def q stream_locked_def ex_find_warm ex_insert_run
        stream_run_def ex_worker_aborted c a)
qed

section \<open>The event log of a run\<close>

lemma filter_run_complete_emit_tokens:
  "filter is_run_complete (emit_tokens env runId i tokens es) = filter is_run_complete es"
  by (induction tokens arbitrary: i es) (simp_all add: emit_def is_run_complete_def)

lemma streamed_events_no_run_complete:
  "filter is_run_complete (streamed_events env runId result) = []"
  by (simp add: streamed_events_def Let_def filter_run_complete_emit_tokens emit_def
      is_run_complete_def)

lemma stream_run_puts:
  "list_all (\<lambda>(c, path, es). filter is_run_complete es = [])
     (puts (stream_run env d1 userId projectId w cid))"
  by (simp add: stream_run_def stream_worker_ok_def stream_worker_failed_def Let_def
      try_putFile_def streamed_events_no_run_complete emit_def is_run_complete_def
      split: sum.splits prod.splits)

text \<open>
  Whatever the store, the request and the environment, an \<^verbatim>\<open>events.jsonl\<close> that the
  streaming handler writes holds no \<^verbatim>\<open>run-complete\<close> event: the handler writes the file
  before it emits that event.
\<close>

lemma stream_file_has_no_run_complete:
  "list_all (\<lambda>(c, path, es). filter is_run_complete es = [])
     (puts (post_message_stream env d userId projectId text))"
  by (simp add: post_message_stream_def stream_locked_def rejected_def silent_def stream_run_puts
      split: option.splits)

text \<open>
  The unary handler builds the whole log before it writes it: its file has one
  \<^verbatim>\<open>run-start\<close>, first, and one \<^verbatim>\<open>run-complete\<close>, last.
\<close>

lemma unary_file_well_formed:
  "list_all (\<lambda>(c, path, es). length (filter is_run_start es) = 1
                \<and> length (filter is_run_complete es) = 1
                \<and> is_run_start (hd es) \<and> is_run_complete (last es))
     (puts (post_message env d userId projectId text))"
  by (simp add: post_message_def message_locked_def message_run_def message_worker_ok_def
      message_worker_failed_def rejected_def Let_def try_putFile_def unary_events_def
      unary_failure_events_def is_run_start_def is_run_complete_def
      split: option.splits sum.splits prod.splits)

text \<open>
  Claim C2, at a streaming run that succeeds (the worker answers \<^verbatim>\<open>" hi there"\<close> with no
  diff): the stream carries \<^verbatim>\<open>run-start\<close>, four tokens and \<^verbatim>\<open>run-complete\<close>, and the
  \<^verbatim>\<open>events.jsonl\<close> put into the sandbox ends with the last token; it has no
  \<^verbatim>\<open>run-complete\<close> line.
\<close>

theorem stream_events_file_lacks_run_complete:
  "map (\<lambda>(c, path, es). (c, path, map ev_payload es))
       (puts (post_message_stream ex_env ex_db ''u1'' ''p1'' ''say hi''))
     = [(''c1'', ''/workspace/evidence/r3/events.jsonl'',
         [RunStart, Token '' '' 1, Token ''hi'' 2, Token '' '' 3, Token ''there'' 4])]
   \<and> map ev_payload (sse (post_message_stream ex_env ex_db ''u1'' ''p1'' ''say hi''))
     = [RunStart, Token '' '' 1, Token ''hi'' 2, Token '' '' 3, Token ''there'' 4,
        RunComplete Succeeded None]"
  by (simp add: ex_stream_sse ex_stream_puts)

section \<open>The status of a run whose worker call is cut off\<close>

lemma runs_update_workspace [simp]: "runs (update_workspace wsId f d) = runs d"
  by (simp add: update_workspace_def)

lemma runs_triggerEvidenceBuild [simp]:
  "runs (fst (triggerEvidenceBuild newId now runId userId projectId workspaceId d)) = runs d"
  by (simp add: triggerEvidenceBuild_def)

lemma runs_stream_run:
  "runs (store (stream_run env d1 userId projectId w cid)) =
     (case container_addr env of
        Inl e \<Rightarrow> runs d1
      | Inr addr \<Rightarrow>
          (case worker_result (fetch_with_retry (fetched env)) of
             Inr result \<Rightarrow> runs (update_run (new_run_id env) (run_succeeded env w result) d1)
           | Inl e \<Rightarrow> runs (update_run (new_run_id env) (run_failed env e) d1)))"
  by (simp add: stream_run_def stream_worker_ok_def stream_worker_failed_def Let_def split_beta
      split: sum.splits)

lemma runs_message_run:
  "runs (store (message_run env d1 userId projectId w cid)) =
     (case container_addr env of
        Inl e \<Rightarrow> runs d1
      | Inr addr \<Rightarrow>
          (case worker_result (fetched env 0) of
             Inr result \<Rightarrow> runs (update_run (new_run_id env) (run_succeeded env w result) d1)
           | Inl e \<Rightarrow> runs (update_run (new_run_id env) (run_failed env e) d1)))"
  by (simp add: message_run_def message_worker_ok_def message_worker_failed_def rejected_def
      Let_def split_beta split: sum.splits)

lemma statuses_update_run:
  assumes "\<And>r. run_status (f r) \<in> S"
  shows "run_status ` set (runs (update_run runId f d)) \<subseteq> run_status ` set (runs d) \<union> S"
  using assms by (auto simp: update_run_def)

lemma statuses_stream_run:
  "run_status ` set (runs (store (stream_run env d1 userId projectId w cid)))
     \<subseteq> run_status ` set (runs d1) \<union> {Succeeded, Failed}"
proof -
  have ok: "run_status ` set (runs (update_run runId (run_succeeded env w result) d1))
              \<subseteq> run_status ` set (runs d1) \<union> {Succeeded, Failed}" for runId result
    by (rule statuses_update_run) (simp add: run_succeeded_def)
  have ko: "run_status ` set (runs (update_run runId (run_failed env e) d1))
              \<subseteq> run_status ` set (runs d1) \<union> {Succeeded, Failed}" for runId e
    by (rule statuses_update_run) (simp add: run_failed_def)
  show ?thesis
    unfolding runs_stream_run using ok ko by (auto split: sum.splits)
qed

lemma statuses_message_run:
  "run_status ` set (runs (store (message_run env d1 userId projectId w cid)))
     \<subseteq> run_status ` set (runs d1) \<union> {Succeeded, Failed}"
proof -
  have ok: "run_status ` set (runs (update_run runId (run_succeeded env w result) d1))
              \<subseteq> run_status ` set (runs d1) \<union> {Succeeded, Failed}" for runId result
    by (rule statuses_update_run) (simp add: run_succeeded_def)
  have ko: "run_status ` set (runs (update_run runId (run_failed env e) d1))
              \<subseteq> run_status ` set (runs d1) \<union> {Succeeded, Failed}" for runId e
    by (rule statuses_update_run) (simp add: run_failed_def)
  show ?thesis
    unfolding runs_message_run using ok ko by (auto split: sum.splits)
qed

lemma statuses_insert_run:
  "insert_run (running_run env userId projectId text w) d = Some d1 \<Longrightarrow>
   run_status ` set (runs d1) = insert Running (run_status ` set (runs d))"
  by (auto simp: insert_run_def running_run_def split: if_splits)

lemma stream_locked_cases:
  "stream_locked env d userId projectId msg = silent d
   \<or> (\<exists>w cid d1. insert_run (running_run env userId projectId msg w) d = Some d1
         \<and> stream_locked env d userId projectId msg = stream_run env d1 userId projectId w cid)"
  by (auto simp: stream_locked_def split: option.splits)

lemma message_locked_cases:
  "(\<exists>r. message_locked env d userId projectId msg = rejected d r)
   \<or> (\<exists>w cid d1. insert_run (running_run env userId projectId msg w) d = Some d1
         \<and> message_locked env d userId projectId msg = message_run env d1 userId projectId w cid)"
  by (auto simp: message_locked_def split: option.splits)

lemma stream_locked_statuses:
  "run_status ` set (runs (store (stream_locked env d userId projectId msg)))
     \<subseteq> run_status ` set (runs d) \<union> {Running, Succeeded, Failed}"
  using stream_locked_cases [of env d userId projectId msg]
proof (elim disjE exE conjE)
  assume "stream_locked env d userId projectId msg = silent d"
  then show ?thesis by (simp add: silent_def) blast
next
  fix w cid d1
  assume ins: "insert_run (running_run env userId projectId msg w) d = Some d1"
    and eq: "stream_locked env d userId projectId msg = stream_run env d1 userId projectId w cid"
  show ?thesis
    unfolding eq using statuses_stream_run [of env d1 userId projectId w cid]
    unfolding statuses_insert_run [OF ins] by blast
qed

lemma message_locked_statuses:
  "run_status ` set (runs (store (message_locked env d userId projectId msg)))
     \<subseteq> run_status ` set (runs d) \<union> {Running, Succeeded, Failed}"
  using message_locked_cases [of env d userId projectId msg]
proof (elim disjE exE conjE)
  fix r
  assume "message_locked env d userId projectId msg = rejected d r"
  then show ?thesis by (simp add: rejected_def) blast
next
  fix w cid d1
  assume ins: "insert_run (running_run env userId projectId msg w) d = Some d1"
    and eq: "message_locked env d userId projectId msg = message_run env d1 userId projectId w cid"
  show ?thesis
    unfolding eq using statuses_message_run [of env d1 userId projectId w cid]
    unfolding statuses_insert_run [OF ins] by blast
qed

text \<open>
  No handler ever writes the status \<^verbatim>\<open>timeout\<close>: a request adds at most one run row,
  \<^verbatim>\<open>running\<close>, and sets it to \<^verbatim>\<open>succeeded\<close> or to \<^verbatim>\<open>failed\<close>.
\<close>

lemma handlers_never_write_timeout:
  "run_status ` set (runs (store (post_message_stream env d userId projectId msg)))
     \<subseteq> run_status ` set (runs d) \<union> {Running, Succeeded, Failed}
   \<and> run_status ` set (runs (store (post_message env d userId projectId msg)))
     \<subseteq> run_status ` set (runs d) \<union> {Running, Succeeded, Failed}"
proof -
  have "run_status ` set (runs (store (rejected d r)))
          \<subseteq> run_status ` set (runs d) \<union> {Running, Succeeded, Failed}" for r
    by (simp add: rejected_def) blast
  then show ?thesis
    using stream_locked_statuses [of env d userId projectId msg]
      message_locked_statuses [of env d userId projectId msg]
    by (simp add: post_message_stream_def post_message_def)
qed

text \<open>
  The worker call that the \<^verbatim>\<open>AbortController\<close> cuts off at attempt \<open>i\<close>, after attempts that
  failed otherwise, throws the \<^verbatim>\<open>AbortError\<close>.
\<close>

lemma fetch_attempts_aborted:
  assumes "f (k + i) = Inl e" and "err_name e = ''AbortError''" and "i < n"
    and "\<forall>j<i. \<exists>e'. f (k + j) = Inl e' \<and> err_name e' \<noteq> ''AbortError'' \<and> k + j \<noteq> 14"
  shows "fetch_attempts f k n = Inl e"
  using assms
proof (induction i arbitrary: k n)
  case 0
  then obtain n' where "n = Suc n'"
    by (cases n) auto
  with 0 show ?case
    by simp
next
  case (Suc i)
  then obtain n' where n: "n = Suc n'" "i < n'"
    by (cases n) auto
  from Suc.prems(4) obtain e' where first: "f k = Inl e'" "err_name e' \<noteq> ''AbortError''" "k \<noteq> 14"
    by force
  have later: "\<forall>j<i. \<exists>e'. f (Suc k + j) = Inl e' \<and> err_name e' \<noteq> ''AbortError'' \<and> Suc k + j \<noteq> 14"
  proof (intro allI impI)
    fix j
    assume "j < i"
    then have "Suc j < Suc i"
      by simp
    with Suc.prems(4) show "\<exists>e'. f (Suc k + j) = Inl e' \<and> err_name e' \<noteq> ''AbortError'' \<and> Suc k + j \<noteq> 14"
      by (metis add_Suc_right add_Suc)
  qed
  from Suc.prems(1) have "f (Suc k + i) = Inl e"
    by simp
  from Suc.IH [OF this Suc.prems(2) n(2) later] first show ?case
    by (simp add: n)
qed

lemma fetch_with_retry_aborted:
  assumes "i < 15" and "f i = Inl e" and "err_name e = ''AbortError''"
    and "\<forall>j<i. \<exists>e'. f j = Inl e' \<and> err_name e' \<noteq> ''AbortError''"
  shows "fetch_with_retry f = Inl e"
proof -
  have "\<forall>j<i. \<exists>e'. f (0 + j) = Inl e' \<and> err_name e' \<noteq> ''AbortError'' \<and> 0 + j \<noteq> 14"
    using assms(1,4) by auto
  with fetch_attempts_aborted [of f 0 i e 15] assms(1-3) show ?thesis
    by (simp add: fetch_with_retry_def)
qed

text \<open>The worker's answer 500 is thrown as an \<^verbatim>\<open>Error\<close> with the status and the body.\<close>

lemma string_of_nat_500: "string_of_nat 500 = ''500''"
  by code_simp

lemma worker_result_500:
  "http_status resp = 500 \<Longrightarrow> worker_result (Inr resp)
     = Inl (JsError ''Error'' (''Worker responded with 500: '' @ http_text resp))"
  by (simp add: worker_result_def response_ok_def string_of_nat_500)

text \<open>
  Claim C5, as amended. When the agent call of a run exceeds the limit of 60 seconds, which
  is the worker's (it then answers 500), the run row is updated to status \<^verbatim>\<open>failed\<close>, not
  \<^verbatim>\<open>timeout\<close>, with \<^verbatim>\<open>Worker responded with 500\<close> and the body as \<^verbatim>\<open>error_message\<close>, by the unary
  handler (which answers 500) and by the streaming handler alike. When the streaming handler
  cuts the call off itself (its \<^verbatim>\<open>AbortController\<close>, at whichever attempt), the run row is
  updated to \<^verbatim>\<open>failed\<close> with the message of the \<^verbatim>\<open>AbortError\<close> and the stream is \<^verbatim>\<open>run-start\<close>,
  then \<^verbatim>\<open>run-complete\<close> of status \<^verbatim>\<open>failed\<close>. The rows of the other runs are as they were.
\<close>

theorem timed_out_run_is_failed:
  assumes quota: "checkQuota (max_runs_setting env) d userId (t_quota env)"
    and warm: "find_warm_workspace d userId projectId = Some w"
    and cid: "container_id w = Some cid" "cid \<noteq> []"
    and fresh: "new_run_id env \<notin> run_id ` set (runs d)"
    and addr: "container_addr env = Inr a"
  shows "(fetched env 0 = Inr resp \<and> http_status resp = 500 \<longrightarrow>
            (\<exists>r. runs (store (post_message env d userId projectId msg)) = runs d @ [r]
               \<and> run_id r = new_run_id env \<and> run_status r = Failed
               \<and> run_error_message r = Some (''Worker responded with 500: '' @ http_text resp)
               \<and> finished_at r = Some (t_finish env))
          \<and> reply (post_message env d userId projectId msg)
              = Some (Reply 500 (ErrorBody ''Failed to process message''))
          \<and> (\<exists>r. runs (store (post_message_stream env d userId projectId msg)) = runs d @ [r]
               \<and> run_id r = new_run_id env \<and> run_status r = Failed
               \<and> run_error_message r = Some (''Worker responded with 500: '' @ http_text resp)
               \<and> finished_at r = Some (t_finish env)))
     \<and> (i < 15 \<and> fetched env i = Inl e \<and> err_name e = ''AbortError''
          \<and> (\<forall>j<i. \<exists>e'. fetched env j = Inl e' \<and> err_name e' \<noteq> ''AbortError'') \<longrightarrow>
            (\<exists>r. runs (store (post_message_stream env d userId projectId msg)) = runs d @ [r]
               \<and> run_id r = new_run_id env \<and> run_status r = Failed
               \<and> run_error_message r = Some (err_message e)
               \<and> finished_at r = Some (t_finish env))
          \<and> map ev_payload (sse (post_message_stream env d userId projectId msg))
              = [RunStart, RunComplete Failed (Some (err_message e))])"
proof -
  let ?run = "running_run env userId projectId msg w"
  have ins: "insert_run ?run d = Some (d\<lparr>runs := runs d @ [?run]\<rparr>)"
    using fresh by (simp add: insert_run_def running_run_def)
  have id: "run_id ?run = new_run_id env"
    by (simp add: running_run_def)
  from fresh have "\<forall>r \<in> set (runs d). run_id r \<noteq> new_run_id env"
    by (metis imageI)
  then have old: "map (\<lambda>r. if run_id r = new_run_id env then run_failed env x r else r) (runs d)
      = runs d" for x
    by (simp add: map_idI)
  have row: "run_id (run_failed env x ?run) = new_run_id env"
    "run_status (run_failed env x ?run) = Failed"
    "run_error_message (run_failed env x ?run) = Some (err_message x)"
    "finished_at (run_failed env x ?run) = Some (t_finish env)" for x
    by (simp_all add: run_failed_def running_run_def)
  have stream: "runs (store (post_message_stream env d userId projectId msg))
        = runs d @ [run_failed env x ?run]
      \<and> map ev_payload (sse (post_message_stream env d userId projectId msg))
        = [RunStart, RunComplete Failed (Some (err_message x))]"
    if "worker_result (fetch_with_retry (fetched env)) = Inl x" for x
    by (simp add: post_message_stream_def quota stream_locked_def warm cid ins stream_run_def
        addr that stream_worker_failed_def Let_def split_beta update_run_def id old emit_def)
  have unary: "runs (store (post_message env d userId projectId msg))
        = runs d @ [run_failed env x ?run]
      \<and> reply (post_message env d userId projectId msg)
        = Some (Reply 500 (ErrorBody ''Failed to process message''))"
    if "worker_result (fetched env 0) = Inl x" for x
    by (simp add: post_message_def quota message_locked_def warm cid ins message_run_def
        addr that message_worker_failed_def Let_def split_beta update_run_def id old
        message_failed_def)
  have part1: "(\<exists>r. runs (store (post_message env d userId projectId msg)) = runs d @ [r]
               \<and> run_id r = new_run_id env \<and> run_status r = Failed
               \<and> run_error_message r = Some (''Worker responded with 500: '' @ http_text resp)
               \<and> finished_at r = Some (t_finish env))
          \<and> reply (post_message env d userId projectId msg)
              = Some (Reply 500 (ErrorBody ''Failed to process message''))
          \<and> (\<exists>r. runs (store (post_message_stream env d userId projectId msg)) = runs d @ [r]
               \<and> run_id r = new_run_id env \<and> run_status r = Failed
               \<and> run_error_message r = Some (''Worker responded with 500: '' @ http_text resp)
               \<and> finished_at r = Some (t_finish env))"
    if r: "fetched env 0 = Inr resp" "http_status resp = 500"
  proof -
    let ?x = "JsError ''Error'' (''Worker responded with 500: '' @ http_text resp)"
    have u: "worker_result (fetched env 0) = Inl ?x"
      by (simp add: r worker_result_500)
    have s: "worker_result (fetch_with_retry (fetched env)) = Inl ?x"
      by (simp add: fetch_first_ok [of "fetched env" resp, OF r(1)] worker_result_500 r(2))
    from unary [OF u] stream [OF s] row [of ?x] show ?thesis
      by simp
  qed
  have part2: "(\<exists>r. runs (store (post_message_stream env d userId projectId msg)) = runs d @ [r]
               \<and> run_id r = new_run_id env \<and> run_status r = Failed
               \<and> run_error_message r = Some (err_message e)
               \<and> finished_at r = Some (t_finish env))
          \<and> map ev_payload (sse (post_message_stream env d userId projectId msg))
              = [RunStart, RunComplete Failed (Some (err_message e))]"
    if a: "i < 15" "fetched env i = Inl e" "err_name e = ''AbortError''"
      "\<forall>j<i. \<exists>e'. fetched env j = Inl e' \<and> err_name e' \<noteq> ''AbortError''"
  proof -
    have "worker_result (fetch_with_retry (fetched env)) = Inl e"
      by (simp add: worker_result_def fetch_with_retry_aborted [OF a])
    from stream [OF this] row [of e] show ?thesis
      by simp
  qed
  from part1 part2 show ?thesis
    by blast
qed

text \<open>
  The claim as it is written fails at a streaming run whose first \<^verbatim>\<open>fetch\<close> is aborted: the
  run row ends \<^verbatim>\<open>failed\<close> with the message of the \<^verbatim>\<open>AbortError\<close>, not \<^verbatim>\<open>timeout\<close>, and the
  stream ends with \<^verbatim>\<open>run-complete\<close> of status \<^verbatim>\<open>failed\<close>.
\<close>

theorem aborted_run_is_failed:
  "map (\<lambda>r. (run_id r, run_status r, run_error_message r))
       (runs (store (post_message_stream ex_env_aborted ex_db ''u1'' ''p1'' ''say hi'')))
     = [(''r3'', Failed, Some ''This operation was aborted'')]
   \<and> map ev_payload (sse (post_message_stream ex_env_aborted ex_db ''u1'' ''p1'' ''say hi''))
     = [RunStart, RunComplete Failed (Some ''This operation was aborted'')]"
proof -
  have r: "new_run_id ex_env_aborted = ''r3''"
    by (simp add: ex_env_aborted_def ex_env_def)
  show ?thesis
    unfolding ex_stream_aborted
    by (simp add: stream_worker_failed_def Let_def r emit_def triggerEvidenceBuild_def
        update_run_def running_run_def run_failed_def ex_db_def)
qed

theorem timed_out_run_is_failed_witness:
  "fetched ex_env_worker_timeout 0 = Inr (HttpResponse 500
       ''{error: Internal Server Error, details: Codex run timed out after 60 seconds}''
       (Inl (JsError ''SyntaxError'' ''not parsed'')))
   \<and> map (\<lambda>r. (run_id r, run_status r, run_error_message r))
        (runs (store (post_message ex_env_worker_timeout ex_db ''u1'' ''p1'' ''say hi'')))
      = [(''r3'', Failed, Some
           ''Worker responded with 500: {error: Internal Server Error, details: Codex run timed out after 60 seconds}'')]
   \<and> reply (post_message ex_env_worker_timeout ex_db ''u1'' ''p1'' ''say hi'')
      = Some (Reply 500 (ErrorBody ''Failed to process message''))
   \<and> fetched ex_env_aborted_late 0 = Inl (JsError ''TypeError'' ''fetch failed'')
   \<and> fetched ex_env_aborted_late 1 = Inl (JsError ''TypeError'' ''fetch failed'')
   \<and> fetched ex_env_aborted_late 2 = Inl (JsError ''AbortError'' ''This operation was aborted'')
   \<and> map (\<lambda>r. (run_id r, run_status r, run_error_message r))
        (runs (store (post_message_stream ex_env_aborted_late ex_db ''u1'' ''p1'' ''say hi'')))
      = [(''r3'', Failed, Some ''This operation was aborted'')]
   \<and> map ev_payload (sse (post_message_stream ex_env_aborted_late ex_db ''u1'' ''p1'' ''say hi''))
      = [RunStart, RunComplete Failed (Some ''This operation was aborted'')]"
proof -
  let ?resp = "HttpResponse 500
       ''{error: Internal Server Error, details: Codex run timed out after 60 seconds}''
       (Inl (JsError ''SyntaxError'' ''not parsed''))"
  have t: "fetched ex_env_worker_timeout 0 = Inr ?resp" "http_status ?resp = 500"
    by (simp_all add: ex_env_worker_timeout_def)
  have f: "fetched ex_env_aborted_late 0 = Inl (JsError ''TypeError'' ''fetch failed'')"
    "fetched ex_env_aborted_late 1 = Inl (JsError ''TypeError'' ''fetch failed'')"
    "fetched ex_env_aborted_late 2 = Inl (JsError ''AbortError'' ''This operation was aborted'')"
    by (simp_all add: ex_env_aborted_late_def)
  have before: "\<forall>j<2. \<exists>e'. fetched ex_env_aborted_late j = Inl e' \<and> err_name e' \<noteq> ''AbortError''"
    by (simp add: ex_env_aborted_late_def)
  have q: "checkQuota (max_runs_setting ex_env_worker_timeout) ex_db ''u1''
        (t_quota ex_env_worker_timeout)"
    "checkQuota (max_runs_setting ex_env_aborted_late) ex_db ''u1'' (t_quota ex_env_aborted_late)"
    using ex_quota by (simp_all add: ex_env_worker_timeout_def ex_env_aborted_late_def)
  have c: "container_id ex_workspace = Some ''c1''" "''c1'' \<noteq> []"
    by (simp_all add: ex_workspace_def)
  have rows: "runs ex_db = []"
    by (simp add: ex_db_def)
  have fresh: "new_run_id ex_env_worker_timeout \<notin> run_id ` set (runs ex_db)"
    "new_run_id ex_env_aborted_late \<notin> run_id ` set (runs ex_db)"
    by (simp_all add: rows)
  have a: "container_addr ex_env_worker_timeout = Inr ''172.18.0.2''"
    "container_addr ex_env_aborted_late = Inr ''172.18.0.2''"
    by (simp_all add: ex_env_worker_timeout_def ex_env_aborted_late_def ex_env_def)
  have r: "new_run_id ex_env_worker_timeout = ''r3''" "new_run_id ex_env_aborted_late = ''r3''"
    by (simp_all add: ex_env_worker_timeout_def ex_env_aborted_late_def ex_env_def)
  from timed_out_run_is_failed [OF q(1) ex_find_warm c fresh(1) a(1),
      where resp = ?resp and msg = "''say hi''" and i = 0
        and e = "JsError [] []"] t
  obtain row where "runs (store (post_message ex_env_worker_timeout ex_db ''u1'' ''p1'' ''say hi''))
        = [row]"
      and "run_id row = ''r3''" and "run_status row = Failed"
      and "run_error_message row = Some (''Worker responded with 500: '' @ http_text ?resp)"
      and "reply (post_message ex_env_worker_timeout ex_db ''u1'' ''p1'' ''say hi'')
        = Some (Reply 500 (ErrorBody ''Failed to process message''))"
    by (auto simp: rows r)
  then have unary: "map (\<lambda>r. (run_id r, run_status r, run_error_message r))
        (runs (store (post_message ex_env_worker_timeout ex_db ''u1'' ''p1'' ''say hi'')))
      = [(''r3'', Failed, Some
           ''Worker responded with 500: {error: Internal Server Error, details: Codex run timed out after 60 seconds}'')]"
    "reply (post_message ex_env_worker_timeout ex_db ''u1'' ''p1'' ''say hi'')
      = Some (Reply 500 (ErrorBody ''Failed to process message''))"
    by simp_all
  from timed_out_run_is_failed [OF q(2) ex_find_warm c fresh(2) a(2),
      where resp = ?resp and msg = "''say hi''" and i = 2
        and e = "JsError ''AbortError'' ''This operation was aborted''"] f(3) before
  obtain row' where "runs (store (post_message_stream ex_env_aborted_late ex_db ''u1'' ''p1'' ''say hi''))
        = [row']"
      and "run_id row' = ''r3''" and "run_status row' = Failed"
      and "run_error_message row' = Some ''This operation was aborted''"
      and "map ev_payload (sse (post_message_stream ex_env_aborted_late ex_db ''u1'' ''p1'' ''say hi''))
        = [RunStart, RunComplete Failed (Some ''This operation was aborted'')]"
    by (auto simp: rows r)
  with unary t(1) f show ?thesis
    by simp
qed

section \<open>Token sequence numbers\<close>

lemma tokens_of_append: "tokens_of (xs @ ys) = tokens_of xs @ tokens_of ys"
  by (induction xs) (simp_all split: event_payload.splits)

lemma tokens_of_emit:
  "tokens_of (emit env runId partial es) =
     tokens_of es @ (case partial of Token delta n \<Rightarrow> [(delta, n)] | _ \<Rightarrow> [])"
  by (simp add: emit_def tokens_of_append split: event_payload.splits)

text \<open>The tokens of the loop: each non-empty piece with its index among all the pieces.\<close>

lemma tokens_of_emit_tokens:
  "tokens_of (emit_tokens env runId i pieces es) =
     tokens_of es @ filter (\<lambda>(piece, k). piece \<noteq> []) (zip pieces [i..<i + length pieces])"
proof (induction pieces arbitrary: i es)
  case Nil
  then show ?case by simp
next
  case (Cons piece pieces)
  have "[i..<i + length (piece # pieces)] = i # [Suc i..<Suc i + length pieces]"
    by (subst upt_conv_Cons) simp_all
  then show ?case
    by (simp add: Cons.IH tokens_of_emit)
qed

lemma tokens_of_streamed_events:
  "tokens_of (streamed_events env runId result) =
     filter (\<lambda>(piece, k). piece \<noteq> [])
       (zip (js_split_ws (finalText result)) [0..<length (js_split_ws (finalText result))])"
  by (simp add: streamed_events_def Let_def tokens_of_emit_tokens tokens_of_emit)

lemma sorted_numbered:
  "sorted_wrt (<) (map snd (filter P (zip pieces [i..<i + length pieces])))"
proof -
  have "sorted_wrt (<) (map snd (zip pieces [i..<i + length pieces]))"
    by simp
  then have "sorted_wrt (\<lambda>a b. snd a < snd b) (zip pieces [i..<i + length pieces])"
    unfolding sorted_wrt_map .
  then have "sorted_wrt (\<lambda>a b. snd a < snd b) (filter P (zip pieces [i..<i + length pieces]))"
    by (rule sorted_wrt_filter)
  then show ?thesis
    by (simp add: sorted_wrt_map)
qed

lemma token_seqs_streamed_sorted:
  "sorted_wrt (<) (token_seqs (streamed_events env runId result))"
  unfolding token_seqs_def tokens_of_streamed_events
  using sorted_numbered [of _ "js_split_ws (finalText result)" 0] by simp

text \<open>The first piece is empty exactly when the text is empty or starts with white space.\<close>

lemma first_token:
  "finalText result \<noteq> [] \<Longrightarrow>
     \<exists>delta rest. tokens_of (streamed_events env runId result)
        = (delta, if is_space (hd (finalText result)) then 1 else 0) # rest"
proof -
  assume "finalText result \<noteq> []"
  then obtain c cs where Cons: "finalText result = c # cs"
    by (cases "finalText result") auto
  show ?thesis
  proof (cases "is_space c")
    case True
    then have "js_split_ws (c # cs)
        = [] # (c # takeWhile is_space cs) # js_split_ws (dropWhile is_space cs)"
      by (subst js_split_ws.simps) simp
    then show ?thesis
      using Cons True by (simp add: tokens_of_streamed_events upt_conv_Cons del: upt_Suc)
  next
    case False
    then have "\<exists>rest. js_split_ws (c # cs) = (c # takeWhile (\<lambda>c. \<not> is_space c) cs) # rest"
      by (subst js_split_ws.simps) (simp add: Let_def)
    then obtain rest where "js_split_ws (c # cs) = (c # takeWhile (\<lambda>c. \<not> is_space c) cs) # rest"
      by blast
    then show ?thesis
      using Cons False by (simp add: tokens_of_streamed_events upt_conv_Cons del: upt_Suc)
  qed
qed

lemma no_token_of_empty_text:
  "finalText result = [] \<Longrightarrow> tokens_of (streamed_events env runId result) = []"
  by (simp add: tokens_of_streamed_events js_split_ws.simps)

lemma token_seqs_Nil [simp]: "token_seqs [] = []"
  by (simp add: token_seqs_def)

lemma token_seqs_emit_other:
  "partial = RunStart \<or> (\<exists>x. partial = Diff x) \<or> (\<exists>st m. partial = RunComplete st m)
   \<Longrightarrow> token_seqs (emit env runId partial es) = token_seqs es"
  by (auto simp: token_seqs_def tokens_of_emit)

lemma token_seqs_stream_run:
  "token_seqs (sse (stream_run env d1 userId projectId w cid)) =
     (case container_addr env of
        Inl e \<Rightarrow> []
      | Inr addr \<Rightarrow>
          (case worker_result (fetch_with_retry (fetched env)) of
             Inr result \<Rightarrow> token_seqs (streamed_events env (new_run_id env) result)
           | Inl e \<Rightarrow> []))"
  by (simp add: stream_run_def stream_worker_ok_def stream_worker_failed_def Let_def split_beta
      token_seqs_emit_other split: sum.splits)
    (simp add: token_seqs_def tokens_of_append emit_def)

lemma token_seqs_stream_run_puts:
  "list_all (\<lambda>(c, path, es). token_seqs es = token_seqs (sse (stream_run env d1 userId projectId w cid)))
     (puts (stream_run env d1 userId projectId w cid))"
  by (simp add: stream_run_def stream_worker_ok_def stream_worker_failed_def Let_def split_beta
      token_seqs_emit_other try_putFile_def split: sum.splits)

lemma token_seqs_message_run_puts:
  "list_all (\<lambda>(c, path, es). token_seqs es = [] \<or> token_seqs es = [0])
     (puts (message_run env d1 userId projectId w cid))"
  by (simp add: message_run_def message_worker_ok_def message_worker_failed_def Let_def
      split_beta rejected_def try_putFile_def unary_events_def unary_failure_events_def
      token_seqs_def split: sum.splits)

lemma first_seq_streamed:
  "case token_seqs (streamed_events env runId result) of
     [] \<Rightarrow> True
   | n # ns \<Rightarrow> n = (if is_space (hd (finalText result)) then 1 else 0)"
proof (cases "finalText result = []")
  case True
  then show ?thesis
    by (simp add: token_seqs_def no_token_of_empty_text)
next
  case False
  from first_token [OF this, where env = env and runId = runId] show ?thesis
    by (auto simp: token_seqs_def)
qed

text \<open>
  Claim C8, as amended. Within every run the sequence numbers of the emitted token events
  are strictly increasing. In a streaming run the sequence of a token is the index of its
  piece among the pieces of \<^verbatim>\<open>finalText.split(/(\s+)/)\<close>, so the first token has sequence 0
  when the text starts with a character that is not white space and sequence 1 when it
  starts with white space (the empty first piece has index 0 and is not emitted); the
  \<^verbatim>\<open>events.jsonl\<close> of the run carries the same sequence numbers. In a unary run the log has
  at most one token, of sequence 0.
\<close>

theorem token_sequences:
  "sorted_wrt (<) (token_seqs (sse (post_message_stream env d userId projectId msg)))
   \<and> (\<forall>result. worker_result (fetch_with_retry (fetched env)) = Inr result \<longrightarrow>
         (case token_seqs (sse (post_message_stream env d userId projectId msg)) of
            [] \<Rightarrow> True
          | n # ns \<Rightarrow> n = (if is_space (hd (finalText result)) then 1 else 0)))
   \<and> list_all (\<lambda>(c, path, es).
                  token_seqs es = token_seqs (sse (post_message_stream env d userId projectId msg)))
        (puts (post_message_stream env d userId projectId msg))
   \<and> list_all (\<lambda>(c, path, es). token_seqs es = [] \<or> token_seqs es = [0])
        (puts (post_message env d userId projectId msg))"
proof (intro conjI allI impI)
  let ?S = "post_message_stream env d userId projectId msg"
  have shape: "(sse ?S = [] \<and> puts ?S = [])
     \<or> (\<exists>w cid d1. ?S = stream_run env d1 userId projectId w cid)"
    using stream_locked_cases [of env d userId projectId msg]
    by (auto simp: post_message_stream_def rejected_def silent_def)
  show "sorted_wrt (<) (token_seqs (sse ?S))"
    using shape
    by (auto simp: token_seqs_stream_run token_seqs_streamed_sorted split: sum.splits)
  show "list_all (\<lambda>(c, path, es). token_seqs es = token_seqs (sse ?S)) (puts ?S)"
    using shape token_seqs_stream_run_puts by auto
  show "case token_seqs (sse ?S) of [] \<Rightarrow> True
        | n # ns \<Rightarrow> n = (if is_space (hd (finalText result)) then 1 else 0)"
    if wr: "worker_result (fetch_with_retry (fetched env)) = Inr result" for result
  proof -
    from shape consider "sse ?S = []"
      | w cid d1 where "?S = stream_run env d1 userId projectId w cid"
      by auto
    then show ?thesis
    proof cases
      case 1
      then show ?thesis by simp
    next
      case 2
      then have "token_seqs (sse ?S) =
          (case container_addr env of
             Inl e \<Rightarrow> []
           | Inr addr \<Rightarrow> token_seqs (streamed_events env (new_run_id env) result))"
        by (simp add: token_seqs_stream_run wr split: sum.splits)
      then show ?thesis
        using first_seq_streamed [where env = env and runId = "new_run_id env" and result = result]
        by (cases "container_addr env") simp_all
    qed
  qed
  show "list_all (\<lambda>(c, path, es). token_seqs es = [] \<or> token_seqs es = [0])
          (puts (post_message env d userId projectId msg))"
    using message_locked_cases [of env d userId projectId msg] token_seqs_message_run_puts
    by (auto simp: post_message_def rejected_def)
qed

lemma ex_stream_tokens:
  "token_seqs (sse (post_message_stream ex_env ex_db ''u1'' ''p1'' msg)) = [1, 2, 3, 4]"
  by (simp add: ex_stream_sse token_seqs_def)

theorem token_sequences_witness:
  "worker_result (fetch_with_retry (fetched ex_env)) = Inr ex_result
   \<and> is_space (hd (finalText ex_result))
   \<and> token_seqs (sse (post_message_stream ex_env ex_db ''u1'' ''p1'' ''say hi'')) \<noteq> []
   \<and> hd (token_seqs (sse (post_message_stream ex_env ex_db ''u1'' ''p1'' ''say hi''))) = 1
   \<and> sorted_wrt (<) (token_seqs (sse (post_message_stream ex_env ex_db ''u1'' ''p1'' ''say hi'')))"
proof -
  have sp: "is_space (hd (finalText ex_result))"
    by (simp add: ex_result_def is_space_def)
  have ne: "token_seqs (sse (post_message_stream ex_env ex_db ''u1'' ''p1'' ''say hi'')) \<noteq> []"
    by (simp add: ex_stream_tokens)
  note all = token_sequences [of ex_env ex_db "''u1''" "''p1''" "''say hi''"]
  from all have sorted:
    "sorted_wrt (<) (token_seqs (sse (post_message_stream ex_env ex_db ''u1'' ''p1'' ''say hi'')))"
    by blast
  from all ex_worker have first:
    "case token_seqs (sse (post_message_stream ex_env ex_db ''u1'' ''p1'' ''say hi'')) of
       [] \<Rightarrow> True
     | n # ns \<Rightarrow> n = (if is_space (hd (finalText ex_result)) then 1 else 0)"
    by blast
  from ne first sp
  have "hd (token_seqs (sse (post_message_stream ex_env ex_db ''u1'' ''p1'' ''say hi''))) = 1"
    by (cases "token_seqs (sse (post_message_stream ex_env ex_db ''u1'' ''p1'' ''say hi''))")
      simp_all
  with ne sorted ex_worker sp show ?thesis
    by simp
qed

text \<open>
  The claim as it is written fails on a streaming run whose worker answers
  \<^verbatim>\<open>" hi there"\<close>: the token events carry the sequences 1, 2, 3 and 4.
\<close>

theorem first_token_sequence_counterexample:
  "token_seqs (sse (post_message_stream ex_env ex_db ''u1'' ''p1'' ''say hi'')) = [1, 2, 3, 4]
   \<and> hd (token_seqs (sse (post_message_stream ex_env ex_db ''u1'' ''p1'' ''say hi''))) \<noteq> 0"
  by (simp add: ex_stream_tokens)

section \<open>The workspace table under the loops\<close>

lemma workspaces_update_workspace:
  "workspaces (update_workspace wsId f d) = map (\<lambda>w. if ws_id w = wsId then f w else w) (workspaces d)"
  by (simp add: update_workspace_def)

lemma ws_id_mark_cold [simp]: "ws_id (mark_cold w) = ws_id w"
  by (simp add: mark_cold_def)

lemma mark_cold_twice [simp]: "mark_cold (mark_cold w) = mark_cold w"
  by (simp add: mark_cold_def)

lemma ws_id_mark_deleted [simp]: "ws_id (mark_deleted w) = ws_id w"
  by (simp add: mark_deleted_def)

lemma mark_deleted_twice [simp]: "mark_deleted (mark_deleted w) = mark_deleted w"
  by (simp add: mark_deleted_def)

lemma update_then_map:
  assumes "\<And>w. ws_id (f w) = ws_id w" and "\<And>w. f (f w) = f w"
  shows "map (\<lambda>w. if ws_id w \<in> S then f w else w)
           (workspaces (update_workspace i f d))
         = map (\<lambda>w. if ws_id w \<in> insert i S then f w else w) (workspaces d)"
  by (simp add: workspaces_update_workspace assms)

lemma workspaces_lru_stop:
  "workspaces (fst (lru_stop others d)) =
     map (\<lambda>w. if ws_id w \<in> ws_id ` set others then mark_cold w else w) (workspaces d)"
proof (induction others arbitrary: d)
  case Nil
  then show ?case by simp
next
  case (Cons other others)
  show ?case
    by (simp add: split_beta Let_def Cons.IH update_then_map [of mark_cold])
qed

lemma others_lru_stop:
  "projects (fst (lru_stop others d)) = projects d
   \<and> runs (fst (lru_stop others d)) = runs d
   \<and> evidence_bundles (fst (lru_stop others d)) = evidence_bundles d"
  by (induction others arbitrary: d) (simp_all add: split_beta Let_def update_workspace_def)

text \<open>The rows the reaper's loop works on: those whose container id is truthy.\<close>

lemma workspaces_reap_loop:
  "workspaces (fst (reap_loop idle d)) =
     map (\<lambda>w. if ws_id w \<in> ws_id ` {x \<in> set idle. truthy (container_id x)}
               then mark_cold w else w) (workspaces d)"
proof (induction idle arbitrary: d)
  case Nil
  then show ?case by simp
next
  case (Cons ws rest)
  show ?case
  proof (cases "truthy (container_id ws)")
    case True
    then obtain c where c: "container_id ws = Some c" "c \<noteq> []"
      by (auto simp: truthy_def split: option.splits)
    have "ws_id ` {x \<in> set (ws # rest). truthy (container_id x)}
            = insert (ws_id ws) (ws_id ` {x \<in> set rest. truthy (container_id x)})"
      using True by auto
    then show ?thesis
      using c by (simp add: split_beta Cons.IH update_then_map [of mark_cold])
  next
    case False
    then have "{x \<in> set (ws # rest). truthy (container_id x)}
                 = {x \<in> set rest. truthy (container_id x)}"
      by auto
    moreover from False have "reap_loop (ws # rest) d = reap_loop rest d"
      by (auto simp: truthy_def split: option.splits)
    ultimately show ?thesis
      by (simp add: Cons.IH)
  qed
qed

text \<open>
  The retention sweep leaves the workspace table as it was: the update of a row that exists
  is rejected, for it would leave the row with no \<^verbatim>\<open>volume_name\<close>.
\<close>

lemma update_workspace_not_null_rows:
  "update_workspace_not_null wsId mark_deleted d = Inr d' \<Longrightarrow> workspaces d' = workspaces d"
proof -
  assume upd: "update_workspace_not_null wsId mark_deleted d = Inr d'"
  then have none: "\<forall>w \<in> set (workspaces d). ws_id w \<noteq> wsId"
    by (auto simp: update_workspace_not_null_def list_ex_iff mark_deleted_def split: if_splits)
  then have "map (\<lambda>w. if ws_id w = wsId then mark_deleted w else w) (workspaces d) = workspaces d"
    by (simp add: map_idI)
  with upd show ?thesis
    by (auto simp: update_workspace_not_null_def workspaces_update_workspace split: if_splits)
qed

lemma workspaces_workspace_gc_loop:
  "workspaces (fst (workspace_gc_loop cold d)) = workspaces d"
proof (induction cold arbitrary: d)
  case Nil
  then show ?case by simp
next
  case (Cons ws rest)
  show ?case
  proof (cases "update_workspace_not_null (ws_id ws) mark_deleted d")
    case (Inl e)
    then show ?thesis
      by (simp add: Let_def)
  next
    case (Inr d')
    with Cons.IH [of d'] update_workspace_not_null_rows [OF Inr] show ?thesis
      by (simp add: Let_def split_beta)
  qed
qed

section \<open>Opening a project\<close>

lemma same_id_same_row:
  "distinct (map ws_id rows) \<Longrightarrow> w \<in> set rows \<Longrightarrow> w' \<in> set rows \<Longrightarrow> ws_id w = ws_id w'
     \<Longrightarrow> w = w'"
  by (auto simp: distinct_map dest: inj_onD)

lemma createWarmWorkspace_volume:
  "snd (createWarmWorkspace dm projectId repoUrl apiKey envVars) = Inr c
     \<Longrightarrow> volumeName c = ''ws-'' @ projectId"
  by (auto simp: createWarmWorkspace_def Let_def split: sum.splits option.splits prod.splits)

lemma createWarmWorkspace_container:
  "snd (createWarmWorkspace dm projectId repoUrl apiKey envVars) = Inr c
     \<Longrightarrow> create_reply dm = Inr (containerId c)"
  by (auto simp: createWarmWorkspace_def Let_def split: sum.splits option.splits prod.splits)

lemma createWarmWorkspace_cleanup:
  assumes "create_reply dm = Inr cid"
    and "start_reply dm \<noteq> None
         \<or> (\<exists>img. inspect_reply dm = Inr img) \<and> clone_reply dm \<noteq> None"
  shows "\<exists>calls e. createWarmWorkspace dm projectId repoUrl apiKey envVars
           = (calls @ [StopContainer cid, RemoveContainer cid], Inl e)"
  using assms
  by (auto simp: createWarmWorkspace_def Let_def split: sum.splits option.splits prod.splits)

text \<open>The two ways \<open>open_begin\<close> ends for a project of the user.\<close>

lemma open_begin_found:
  assumes "find (\<lambda>q. prj_id q = projectId \<and> prj_user_id q = userId) (projects d) = Some prj"
  shows "fst (open_begin d userId projectId)
           = fst (lru_stop (otherWarmWorkspaces d userId projectId) d)"
    and "fst (snd (open_begin d userId projectId))
           = snd (lru_stop (otherWarmWorkspaces d userId projectId) d)"
    and "snd (snd (open_begin d userId projectId)) =
           (case find (\<lambda>w. ws_project_id w = projectId \<and> ws_user_id w = userId) (workspaces d) of
              None \<Rightarrow> Starting prj None
            | Some w \<Rightarrow>
                if ws_state w = Warm \<and> truthy (container_id w)
                then Answered (Reply 200 (OpenBody (ws_id w) Warm))
                else Starting prj (Some w))"
  using assms by (simp_all add: open_begin_def Let_def split_beta split: option.splits)

lemma open_begin_not_found:
  assumes "find (\<lambda>q. prj_id q = projectId \<and> prj_user_id q = userId) (projects d) = None"
  shows "open_begin d userId projectId = (d, [], Answered (Reply 404 (ErrorBody ''Project not found'')))"
  using assms by (simp add: open_begin_def)

lemma open_project_starting:
  assumes "open_begin d userId projectId = (d1, calls, Starting prj ws)"
  shows "open_project env d userId projectId =
     (fst (open_finish env d1 userId projectId ws
             (snd (createWarmWorkspace (daemon env) projectId (repo_url prj) (open_apiKey env)
                     (open_envVars env ws)))),
      calls @ fst (createWarmWorkspace (daemon env) projectId (repo_url prj) (open_apiKey env)
                     (open_envVars env ws)),
      snd (open_finish env d1 userId projectId ws
             (snd (createWarmWorkspace (daemon env) projectId (repo_url prj) (open_apiKey env)
                     (open_envVars env ws)))))"
  using assms by (simp add: open_project_def split_beta)

lemma open_project_answered:
  assumes "open_begin d userId projectId = (d1, calls, Answered r)"
  shows "open_project env d userId projectId = (d1, calls, r)"
  using assms by (simp add: open_project_def)

lemma target_untouched_by_lru:
  assumes "distinct (map ws_id (workspaces d))"
  shows "filter (\<lambda>w. ws_project_id w = projectId \<and> ws_user_id w = userId)
           (workspaces (fst (lru_stop (otherWarmWorkspaces d userId projectId) d)))
         = filter (\<lambda>w. ws_project_id w = projectId \<and> ws_user_id w = userId) (workspaces d)"
proof -
  let ?ids = "ws_id ` set (otherWarmWorkspaces d userId projectId)"
  let ?g = "\<lambda>w. if ws_id w \<in> ?ids then mark_cold w else w"
  have keep: "?g w = w" if "w \<in> set (workspaces d)" "ws_project_id w = projectId" for w
  proof -
    have "ws_id w \<notin> ?ids"
    proof
      assume "ws_id w \<in> ?ids"
      then obtain other where "other \<in> set (workspaces d)" "ws_project_id other \<noteq> projectId"
        "ws_id other = ws_id w"
        by (auto simp: otherWarmWorkspaces_def)
      with assms that show False
        by (auto dest: same_id_same_row)
    qed
    then show ?thesis by simp
  qed
  have "filter (\<lambda>w. ws_project_id w = projectId \<and> ws_user_id w = userId) (map ?g (workspaces d))
          = map ?g (filter (\<lambda>w. ws_project_id w = projectId \<and> ws_user_id w = userId) (workspaces d))"
    by (simp add: filter_map comp_def mark_cold_def cong: filter_cong)
  also have "\<dots> = filter (\<lambda>w. ws_project_id w = projectId \<and> ws_user_id w = userId) (workspaces d)"
    by (rule map_idI) (simp add: keep)
  finally show ?thesis
    by (simp add: workspaces_lru_stop)
qed


text \<open>
  Claim C6, as amended. When, during Open, the container has been created and either fails
  to start or the clone fails, \<^verbatim>\<open>createWarmWorkspace\<close> stops and removes the container (the
  last two calls it makes to the daemon) and throws the error again; Open answers 500
  \<^verbatim>\<open>Failed to open workspace\<close> and writes nothing to the workspace of the project: an
  existing row stays as it was (it is not set to \<^verbatim>\<open>error\<close>) and no row is created. The
  hypotheses: the primary key of the table, the project is the user's, and its workspace is
  not warm with a container already (Open would answer at once).
\<close>

theorem open_sandbox_failure:
  assumes pk: "distinct (map ws_id (workspaces d))"
    and prj: "find (\<lambda>q. prj_id q = projectId \<and> prj_user_id q = userId) (projects d) = Some prj"
    and not_warm: "\<forall>w. find (\<lambda>w. ws_project_id w = projectId \<and> ws_user_id w = userId) (workspaces d)
                       = Some w \<longrightarrow> \<not> (ws_state w = Warm \<and> truthy (container_id w))"
    and created: "create_reply (daemon env) = Inr cid"
    and fails: "start_reply (daemon env) \<noteq> None
                \<or> (\<exists>img. inspect_reply (daemon env) = Inr img) \<and> clone_reply (daemon env) \<noteq> None"
  shows "snd (snd (open_project env d userId projectId)) = Reply 500 (ErrorBody ''Failed to open workspace'')
    \<and> filter (\<lambda>w. ws_project_id w = projectId \<and> ws_user_id w = userId)
         (workspaces (fst (open_project env d userId projectId)))
       = filter (\<lambda>w. ws_project_id w = projectId \<and> ws_user_id w = userId) (workspaces d)
    \<and> length (workspaces (fst (open_project env d userId projectId))) = length (workspaces d)
    \<and> (\<exists>calls. fst (snd (open_project env d userId projectId))
          = calls @ [StopContainer cid, RemoveContainer cid])"
proof -
  let ?d1 = "fst (lru_stop (otherWarmWorkspaces d userId projectId) d)"
  let ?ws = "find (\<lambda>w. ws_project_id w = projectId \<and> ws_user_id w = userId) (workspaces d)"
  from open_begin_found [OF prj] not_warm
  have first_part: "open_begin d userId projectId
      = (?d1, snd (lru_stop (otherWarmWorkspaces d userId projectId) d), Starting prj ?ws)"
    by (cases "open_begin d userId projectId") (auto split: option.splits)
  from createWarmWorkspace_cleanup [OF created fails]
  obtain calls e where cw:
    "createWarmWorkspace (daemon env) projectId (repo_url prj) (open_apiKey env)
       (open_envVars env ?ws) = (calls @ [StopContainer cid, RemoveContainer cid], Inl e)"
    by blast
  have "open_project env d userId projectId =
      (?d1, snd (lru_stop (otherWarmWorkspaces d userId projectId) d)
            @ calls @ [StopContainer cid, RemoveContainer cid], open_failed)"
    by (simp add: open_project_starting [OF first_part] cw open_finish_def)
  then show ?thesis
    using target_untouched_by_lru [OF pk, of projectId userId]
    by (simp add: open_failed_def workspaces_lru_stop)
qed


text \<open>
  The workspace table after \<open>open_project\<close>: untouched (no such project), after the
  eviction pass only (the target is warm already, or the sandbox or the upsert fails), with
  the target row set warm, or with a new row appended.
\<close>

lemma open_project_table:
  fixes d userId projectId env
  defines "evicted \<equiv>
     map (\<lambda>w. if ws_id w \<in> ws_id ` set (otherWarmWorkspaces d userId projectId)
               then mark_cold w else w) (workspaces d)"
  shows "workspaces (fst (open_project env d userId projectId)) = workspaces d
     \<or> workspaces (fst (open_project env d userId projectId)) = evicted
     \<or> (\<exists>w c. find (\<lambda>w. ws_project_id w = projectId \<and> ws_user_id w = userId) (workspaces d) = Some w
           \<and> create_reply (daemon env) = Inr (containerId c)
           \<and> workspaces (fst (open_project env d userId projectId))
               = map (\<lambda>x. if ws_id x = ws_id w then set_warm env c x else x) evicted)
     \<or> (\<exists>c. find (\<lambda>w. ws_project_id w = projectId \<and> ws_user_id w = userId) (workspaces d) = None
           \<and> create_reply (daemon env) = Inr (containerId c)
           \<and> new_ws_id env \<notin> ws_id ` set (workspaces d)
           \<and> volumeName c = ''ws-'' @ projectId
           \<and> snd (snd (open_project env d userId projectId)) = Reply 200 (OpenBody (new_ws_id env) Warm)
           \<and> workspaces (fst (open_project env d userId projectId))
               = evicted @ [new_workspace env userId projectId c])"
proof (cases "find (\<lambda>q. prj_id q = projectId \<and> prj_user_id q = userId) (projects d)")
  case None
  then show ?thesis
    by (simp add: open_begin_not_found open_project_answered)
next
  case (Some prj)
  let ?d1 = "fst (lru_stop (otherWarmWorkspaces d userId projectId) d)"
  have d1: "workspaces ?d1 = evicted"
    by (simp add: evicted_def workspaces_lru_stop)
  obtain calls stage where ob: "open_begin d userId projectId = (?d1, calls, stage)"
    using open_begin_found(1) [OF Some] by (cases "open_begin d userId projectId") auto
  show ?thesis
  proof (cases stage)
    case (Answered r)
    with ob d1 show ?thesis
      by (simp add: open_project_answered)
  next
    case (Starting prj' ws)
    with ob open_begin_found(3) [OF Some]
    have ws: "ws = find (\<lambda>w. ws_project_id w = projectId \<and> ws_user_id w = userId) (workspaces d)"
      by (auto split: option.splits if_splits)
    let ?cw = "createWarmWorkspace (daemon env) projectId (repo_url prj') (open_apiKey env)
                 (open_envVars env ws)"
    from ob Starting have op: "open_project env d userId projectId
        = (fst (open_finish env ?d1 userId projectId ws (snd ?cw)), calls @ fst ?cw,
           snd (open_finish env ?d1 userId projectId ws (snd ?cw)))"
      by (simp add: open_project_starting)
    show ?thesis
    proof (cases "snd ?cw")
      case (Inl e)
      then show ?thesis
        by (simp add: op open_finish_def d1)
    next
      case (Inr c)
      then have vol: "volumeName c = ''ws-'' @ projectId"
        by (rule createWarmWorkspace_volume)
      from Inr have cre: "create_reply (daemon env) = Inr (containerId c)"
        by (rule createWarmWorkspace_container)
      show ?thesis
      proof (cases ws)
        case None
        have ids: "map ws_id evicted = map ws_id (workspaces d)"
          by (simp add: evicted_def)
        show ?thesis
        proof (cases "new_ws_id env \<in> ws_id ` set (workspaces d)")
          case True
          then have "insert_workspace (new_workspace env userId projectId c) ?d1 = None"
            using ids by (simp add: insert_workspace_def d1 new_workspace_def del: set_map)
              (simp add: image_iff)
          then show ?thesis
            by (simp add: op None Inr [unfolded None] open_finish_def d1)
        next
          case False
          then have "insert_workspace (new_workspace env userId projectId c) ?d1
              = Some (?d1\<lparr>workspaces := evicted @ [new_workspace env userId projectId c]\<rparr>)"
            using ids by (simp add: insert_workspace_def d1 new_workspace_def del: set_map)
              (simp add: image_iff)
          then have "workspaces (fst (open_project env d userId projectId))
                = evicted @ [new_workspace env userId projectId c]"
            and "snd (snd (open_project env d userId projectId))
                = Reply 200 (OpenBody (new_ws_id env) Warm)"
            by (simp_all add: op None Inr [unfolded None] open_finish_def)
          moreover from None ws
          have "find (\<lambda>w. ws_project_id w = projectId \<and> ws_user_id w = userId) (workspaces d) = None"
            by simp
          ultimately show ?thesis
            using False vol cre by (intro disjI2) (rule exI [of _ c], simp)
        qed
      next
        case (Some w)
        show ?thesis
        proof (cases "ws_id w \<in> set (map ws_id (workspaces ?d1))")
          case True
          then have "workspaces (fst (open_project env d userId projectId))
              = map (\<lambda>x. if ws_id x = ws_id w then set_warm env c x else x) evicted"
            by (simp add: op Some Inr [unfolded Some] open_finish_def workspaces_update_workspace
                d1 del: set_map)
          moreover from Some ws
          have "find (\<lambda>w. ws_project_id w = projectId \<and> ws_user_id w = userId) (workspaces d) = Some w"
            by simp
          ultimately have "\<exists>w c. find (\<lambda>w. ws_project_id w = projectId \<and> ws_user_id w = userId)
                (workspaces d) = Some w
              \<and> create_reply (daemon env) = Inr (containerId c)
              \<and> workspaces (fst (open_project env d userId projectId))
                  = map (\<lambda>x. if ws_id x = ws_id w then set_warm env c x else x) evicted"
            using cre by (intro exI [of _ w] exI [of _ c]) simp
          then show ?thesis
            by simp
        next
          case False
          then show ?thesis
            by (simp add: op Some Inr [unfolded Some] open_finish_def d1 del: set_map)
        qed
      qed
    qed
  qed
qed

section \<open>Open on the concrete inputs\<close>

lemma ex_find_project:
  "find (\<lambda>q. prj_id q = ''p1'' \<and> prj_user_id q = ''u1'') ex_projects = Some (hd ex_projects)"
  by (simp add: ex_projects_def)

lemma ex_cold_begin:
  "open_begin ex_db_cold ''u1'' ''p1''
     = (ex_db_cold, [], Starting (hd ex_projects)
          (Some (ex_workspace\<lparr>ws_state := Cold, container_id := None\<rparr>)))"
proof -
  have others: "otherWarmWorkspaces ex_db_cold ''u1'' ''p1'' = []"
    by (simp add: otherWarmWorkspaces_def ex_db_cold_def ex_db_def ex_workspace_def)
  have target: "find (\<lambda>w. ws_project_id w = ''p1'' \<and> ws_user_id w = ''u1'') (workspaces ex_db_cold)
      = Some (ex_workspace\<lparr>ws_state := Cold, container_id := None\<rparr>)"
    by (simp add: ex_db_cold_def ex_db_def ex_workspace_def)
  have prj: "find (\<lambda>q. prj_id q = ''p1'' \<and> prj_user_id q = ''u1'') (projects ex_db_cold)
      = Some (hd ex_projects)"
    by (simp add: ex_db_cold_def ex_db_def ex_find_project)
  show ?thesis
    by (simp add: open_begin_def prj others target truthy_def)
qed

lemma ex_start_fails:
  "snd (createWarmWorkspace (daemon ex_open_env_start_fails) projectId repoUrl apiKey envVars)
     = Inl (JsError ''Error'' ''no such image'')"
  by (simp add: createWarmWorkspace_def Let_def ex_open_env_start_fails_def ex_open_env_def
      ex_daemon_def)

lemma ex_open_cold_fails:
  "fst (open_project ex_open_env_start_fails ex_db_cold ''u1'' ''p1'') = ex_db_cold
   \<and> snd (snd (open_project ex_open_env_start_fails ex_db_cold ''u1'' ''p1'')) = open_failed"
  by (simp add: open_project_starting [OF ex_cold_begin] ex_start_fails open_finish_def)

text \<open>
  The claim as it is written fails on a cold workspace whose container does not start: the
  row is cold after Open, not \<^verbatim>\<open>error\<close>.
\<close>

theorem open_failure_counterexample:
  "map ws_state (workspaces (fst (open_project ex_open_env_start_fails ex_db_cold ''u1'' ''p1'')))
     = [Cold]
   \<and> snd (snd (open_project ex_open_env_start_fails ex_db_cold ''u1'' ''p1''))
     = Reply 500 (ErrorBody ''Failed to open workspace'')"
  by (simp add: ex_open_cold_fails open_failed_def) (simp add: ex_db_cold_def)

theorem open_sandbox_failure_witness:
  "distinct (map ws_id (workspaces ex_db_cold))
   \<and> create_reply (daemon ex_open_env_start_fails) = Inr ''c2''
   \<and> start_reply (daemon ex_open_env_start_fails) \<noteq> None
   \<and> snd (snd (open_project ex_open_env_start_fails ex_db_cold ''u1'' ''p1''))
       = Reply 500 (ErrorBody ''Failed to open workspace'')
   \<and> filter (\<lambda>w. ws_project_id w = ''p1'' \<and> ws_user_id w = ''u1'')
        (workspaces (fst (open_project ex_open_env_start_fails ex_db_cold ''u1'' ''p1'')))
       = [ex_workspace\<lparr>ws_state := Cold, container_id := None\<rparr>]"
proof -
  have pk: "distinct (map ws_id (workspaces ex_db_cold))"
    by (simp add: ex_db_cold_def)
  have prj: "find (\<lambda>q. prj_id q = ''p1'' \<and> prj_user_id q = ''u1'') (projects ex_db_cold)
      = Some (hd ex_projects)"
    by (simp add: ex_db_cold_def ex_db_def ex_find_project)
  have target: "find (\<lambda>w. ws_project_id w = ''p1'' \<and> ws_user_id w = ''u1'') (workspaces ex_db_cold)
      = Some (ex_workspace\<lparr>ws_state := Cold, container_id := None\<rparr>)"
    by (simp add: ex_db_cold_def ex_db_def ex_workspace_def)
  have not_warm: "\<forall>w. find (\<lambda>w. ws_project_id w = ''p1'' \<and> ws_user_id w = ''u1'')
      (workspaces ex_db_cold) = Some w \<longrightarrow> \<not> (ws_state w = Warm \<and> truthy (container_id w))"
    by (simp add: target)
  have created: "create_reply (daemon ex_open_env_start_fails) = Inr ''c2''"
    by (simp add: ex_open_env_start_fails_def ex_open_env_def ex_daemon_def)
  have fails: "start_reply (daemon ex_open_env_start_fails) \<noteq> None"
    by (simp add: ex_open_env_start_fails_def ex_open_env_def ex_daemon_def)
  then have fails': "start_reply (daemon ex_open_env_start_fails) \<noteq> None
      \<or> (\<exists>img. inspect_reply (daemon ex_open_env_start_fails) = Inr img)
        \<and> clone_reply (daemon ex_open_env_start_fails) \<noteq> None"
    by simp
  have rows: "filter (\<lambda>w. ws_project_id w = ''p1'' \<and> ws_user_id w = ''u1'') (workspaces ex_db_cold)
      = [ex_workspace\<lparr>ws_state := Cold, container_id := None\<rparr>]"
    by (simp add: ex_db_cold_def ex_db_def ex_workspace_def)
  from open_sandbox_failure [OF pk prj not_warm created fails'] pk created fails rows
  show ?thesis
    by simp
qed

section \<open>The workspace table under the requests\<close>

lemma workspaces_update_run [simp]: "workspaces (update_run runId f d) = workspaces d"
  by (simp add: update_run_def)

lemma workspaces_triggerEvidenceBuild [simp]:
  "workspaces (fst (triggerEvidenceBuild newId now runId userId projectId workspaceId d)) = workspaces d"
  by (simp add: triggerEvidenceBuild_def)

lemma workspaces_insert_run: "insert_run r d = Some d1 \<Longrightarrow> workspaces d1 = workspaces d"
  by (auto simp: insert_run_def split: if_splits)

lemma workspaces_message_run:
  "workspaces (store (message_run env d1 userId projectId w cid)) = workspaces d1
   \<or> (\<exists>result. workspaces (store (message_run env d1 userId projectId w cid))
         = map (\<lambda>x. if ws_id x = ws_id w then touch_workspace env result x else x) (workspaces d1))"
  by (auto simp: message_run_def message_worker_ok_def message_worker_failed_def rejected_def
      Let_def split_beta workspaces_update_workspace split: sum.splits)

lemma workspaces_stream_run:
  "workspaces (store (stream_run env d1 userId projectId w cid)) = workspaces d1
   \<or> (\<exists>result. workspaces (store (stream_run env d1 userId projectId w cid))
         = map (\<lambda>x. if ws_id x = ws_id w then touch_workspace env result x else x) (workspaces d1))"
  by (auto simp: stream_run_def stream_worker_ok_def stream_worker_failed_def
      Let_def split_beta workspaces_update_workspace split: sum.splits)

lemma workspaces_post_message:
  "workspaces (store (post_message env d userId projectId msg)) = workspaces d
   \<or> (\<exists>(w::workspace) result. workspaces (store (post_message env d userId projectId msg))
         = map (\<lambda>x. if ws_id x = ws_id w then touch_workspace env result x else x) (workspaces d))"
  using message_locked_cases [of env d userId projectId msg]
proof (elim disjE exE conjE)
  fix r
  assume "message_locked env d userId projectId msg = rejected d r"
  then show ?thesis
    by (simp add: post_message_def rejected_def)
next
  fix w cid d1
  assume ins: "insert_run (running_run env userId projectId msg w) d = Some d1"
    and eq: "message_locked env d userId projectId msg = message_run env d1 userId projectId w cid"
  show ?thesis
  proof (cases "checkQuota (max_runs_setting env) d userId (t_quota env)")
    case False
    then show ?thesis
      by (simp add: post_message_def rejected_def)
  next
    case True
    then have h: "post_message env d userId projectId msg = message_run env d1 userId projectId w cid"
      by (simp add: post_message_def eq)
    have "workspaces (store (message_run env d1 userId projectId w cid)) = workspaces d
        \<or> (\<exists>(w'::workspace) result. workspaces (store (message_run env d1 userId projectId w cid))
              = map (\<lambda>x. if ws_id x = ws_id w' then touch_workspace env result x else x)
                  (workspaces d))"
      using workspaces_message_run [of env d1 userId projectId w cid]
      unfolding workspaces_insert_run [OF ins]
      by (elim disjE exE) (erule disjI1, rule disjI2, rule exI [of _ w], erule exI)
    then show ?thesis
      by (simp add: h)
  qed
qed

lemma workspaces_post_message_stream:
  "workspaces (store (post_message_stream env d userId projectId msg)) = workspaces d
   \<or> (\<exists>(w::workspace) result. workspaces (store (post_message_stream env d userId projectId msg))
         = map (\<lambda>x. if ws_id x = ws_id w then touch_workspace env result x else x) (workspaces d))"
  using stream_locked_cases [of env d userId projectId msg]
proof (elim disjE exE conjE)
  assume "stream_locked env d userId projectId msg = silent d"
  then show ?thesis
    by (simp add: post_message_stream_def rejected_def silent_def)
next
  fix w cid d1
  assume ins: "insert_run (running_run env userId projectId msg w) d = Some d1"
    and eq: "stream_locked env d userId projectId msg = stream_run env d1 userId projectId w cid"
  show ?thesis
  proof (cases "checkQuota (max_runs_setting env) d userId (t_quota env)")
    case False
    then show ?thesis
      by (simp add: post_message_stream_def rejected_def)
  next
    case True
    then have h: "post_message_stream env d userId projectId msg = stream_run env d1 userId projectId w cid"
      by (simp add: post_message_stream_def eq)
    have "workspaces (store (stream_run env d1 userId projectId w cid)) = workspaces d
        \<or> (\<exists>(w'::workspace) result. workspaces (store (stream_run env d1 userId projectId w cid))
              = map (\<lambda>x. if ws_id x = ws_id w' then touch_workspace env result x else x)
                  (workspaces d))"
      using workspaces_stream_run [of env d1 userId projectId w cid]
      unfolding workspaces_insert_run [OF ins]
      by (elim disjE exE) (erule disjI1, rule disjI2, rule exI [of _ w], erule exI)
    then show ?thesis
      by (simp add: h)
  qed
qed

lemma workspaces_evidence_gc_loop [simp]:
  "workspaces (fst (evidence_gc_loop old d fs)) = workspaces d"
  by (induction old arbitrary: d fs) (simp_all add: Let_def update_bundle_def)

lemma workspaces_build_steps [simp]:
  "workspaces (fst (build_steps env runId steps d fs)) = workspaces d"
  by (induction steps)
    (simp_all add: Let_def bundle_failed_def bundle_ready_def update_bundle_def split: option.splits)

lemma workspaces_buildBundle [simp]:
  "workspaces (fst (buildBundle env d fs runId)) = workspaces d"
  by (simp add: buildBundle_def Let_def bundle_failed_def bundle_ready_def update_bundle_def
      split: option.splits)

text \<open>Every request rewrites the rows in place, each by a \<open>row_step\<close>, and may append rows.\<close>

lemma row_step_refl [simp]: "row_step w w"
  by (simp add: row_step_def)

lemma row_step_cold: "row_step w (mark_cold w)"
  by (simp add: row_step_def mark_cold_def)

lemma row_step_touch: "row_step w (touch_workspace env result w)"
  by (simp add: row_step_def touch_workspace_def)

lemma row_step_warm: "row_step w (set_warm env c w)"
  by (simp add: row_step_def set_warm_def)

lemma row_step_warm_cold: "row_step w (set_warm env c (mark_cold w))"
  by (simp add: row_step_def set_warm_def mark_cold_def)

lemma ws_state_mark_cold [simp]: "ws_state (mark_cold w) = Cold"
  by (simp add: mark_cold_def)

lemma ws_state_mark_deleted [simp]: "ws_state (mark_deleted w) = Deleted"
  by (simp add: mark_deleted_def)

lemma ws_state_touch_workspace [simp]: "ws_state (touch_workspace env result w) = ws_state w"
  by (simp add: touch_workspace_def)

lemma serve_table:
  "\<exists>g extra. workspaces (sys_db (serve r s)) = map g (workspaces (sys_db s)) @ extra
     \<and> (\<forall>w. row_step w (g w))
     \<and> (extra = []
        \<or> (\<exists>env userId projectId c. r = OpenProject env userId projectId
              \<and> extra = [new_workspace env userId projectId c]
              \<and> volumeName c = ''ws-'' @ projectId
              \<and> new_ws_id env \<notin> ws_id ` set (workspaces (sys_db s))))
     \<and> ((\<exists>env userId projectId. r = OpenProject env userId projectId)
        \<or> (\<forall>w. ws_state (g w) = Warm \<longrightarrow> ws_state w = Warm))"
proof (cases r)
  case (CreateProject newId userId name repoUrl)
  then show ?thesis
    by (auto simp: create_project_def intro!: exI [of _ "\<lambda>w. w"] exI [of _ "[]"])
next
  case (OpenProject env userId projectId)
  let ?ev = "\<lambda>w. if ws_id w \<in> ws_id ` set (otherWarmWorkspaces (sys_db s) userId projectId)
               then mark_cold w else w"
  have srv: "workspaces (sys_db (serve r s))
      = workspaces (fst (open_project env (sys_db s) userId projectId))"
    by (simp add: OpenProject)
  from open_project_table [of env "sys_db s" userId projectId] show ?thesis
    unfolding srv [symmetric]
  proof (elim disjE exE conjE)
    assume "workspaces (sys_db (serve r s)) = workspaces (sys_db s)"
    then show ?thesis
      by (intro exI [of _ "\<lambda>w. w"] exI [of _ "[]"]) simp
  next
    assume "workspaces (sys_db (serve r s)) = map ?ev (workspaces (sys_db s))"
    then show ?thesis
      by (intro exI [of _ ?ev] exI [of _ "[]"]) (simp add: row_step_cold OpenProject)
  next
    fix w :: workspace and c
    assume "workspaces (sys_db (serve r s))
        = map (\<lambda>x. if ws_id x = ws_id w then set_warm env c x else x) (map ?ev (workspaces (sys_db s)))"
    then show ?thesis
      by (intro exI [of _ "\<lambda>x. (if ws_id (?ev x) = ws_id w then set_warm env c (?ev x) else ?ev x)"]
          exI [of _ "[]"])
        (simp add: row_step_cold row_step_warm row_step_warm_cold comp_def OpenProject)
  next
    fix c
    assume "workspaces (sys_db (serve r s))
        = map ?ev (workspaces (sys_db s)) @ [new_workspace env userId projectId c]"
      and "volumeName c = ''ws-'' @ projectId"
      and "new_ws_id env \<notin> ws_id ` set (workspaces (sys_db s))"
    then show ?thesis
      by (intro exI [of _ ?ev] exI [of _ "[new_workspace env userId projectId c]"])
        (auto simp: row_step_cold OpenProject)
  qed
next
  case (Message env userId projectId msg)
  have srv: "workspaces (sys_db (serve r s))
      = workspaces (store (post_message env (sys_db s) userId projectId msg))"
    by (simp add: Message)
  from workspaces_post_message [of env "sys_db s" userId projectId msg] show ?thesis
    unfolding srv [symmetric]
  proof (elim disjE exE)
    assume "workspaces (sys_db (serve r s)) = workspaces (sys_db s)"
    then show ?thesis
      by (intro exI [of _ "\<lambda>w. w"] exI [of _ "[]"]) simp
  next
    fix w :: workspace and result
    assume "workspaces (sys_db (serve r s))
        = map (\<lambda>x. if ws_id x = ws_id w then touch_workspace env result x else x)
            (workspaces (sys_db s))"
    then show ?thesis
      by (intro exI [of _ "\<lambda>x. if ws_id x = ws_id w then touch_workspace env result x else x"]
          exI [of _ "[]"])
        (simp add: row_step_touch)
  qed
next
  case (MessageStream env userId projectId msg)
  have srv: "workspaces (sys_db (serve r s))
      = workspaces (store (post_message_stream env (sys_db s) userId projectId msg))"
    by (simp add: MessageStream)
  from workspaces_post_message_stream [of env "sys_db s" userId projectId msg] show ?thesis
    unfolding srv [symmetric]
  proof (elim disjE exE)
    assume "workspaces (sys_db (serve r s)) = workspaces (sys_db s)"
    then show ?thesis
      by (intro exI [of _ "\<lambda>w. w"] exI [of _ "[]"]) simp
  next
    fix w :: workspace and result
    assume "workspaces (sys_db (serve r s))
        = map (\<lambda>x. if ws_id x = ws_id w then touch_workspace env result x else x)
            (workspaces (sys_db s))"
    then show ?thesis
      by (intro exI [of _ "\<lambda>x. if ws_id x = ws_id w then touch_workspace env result x else x"]
          exI [of _ "[]"])
        (simp add: row_step_touch)
  qed
next
  case (Reap now)
  then show ?thesis
    by (auto simp: reapIdleWorkspaces_def workspaces_reap_loop row_step_cold
        split: if_splits intro!: exI [of _ "[]"]
          exI [of _ "\<lambda>w. if ws_id w \<in> ws_id ` {x \<in> set (idleWorkspaces (sys_db s) now). truthy (container_id x)} then mark_cold w else w"])
next
  case (WorkspaceGC ttl now)
  then show ?thesis
    by (auto simp: runWorkspaceGC_def workspaces_workspace_gc_loop
        intro!: exI [of _ "\<lambda>w. w"] exI [of _ "[]"])
next
  case (EvidenceGC ttl now)
  then show ?thesis
    by (auto simp: runEvidenceGC_def split_beta intro!: exI [of _ "\<lambda>w. w"] exI [of _ "[]"])
next
  case (BuildBundle env runId)
  then show ?thesis
    by (auto simp: split_beta intro!: exI [of _ "\<lambda>w. w"] exI [of _ "[]"])
qed

section \<open>Volume names\<close>




section \<open>Open of a project with no workspace\<close>

lemma ex_new_begin:
  "open_begin ex_db_new ''u1'' ''p1'' = (ex_db_new, [], Starting (hd ex_projects) None)"
proof -
  have others: "otherWarmWorkspaces ex_db_new ''u1'' ''p1'' = []"
    by (simp add: otherWarmWorkspaces_def ex_db_new_def)
  have target: "find (\<lambda>w. ws_project_id w = ''p1'' \<and> ws_user_id w = ''u1'') (workspaces ex_db_new)
      = None"
    by (simp add: ex_db_new_def)
  have prj: "find (\<lambda>q. prj_id q = ''p1'' \<and> prj_user_id q = ''u1'') (projects ex_db_new)
      = Some (hd ex_projects)"
    by (simp add: ex_db_new_def ex_db_def ex_find_project)
  show ?thesis
    by (simp add: open_begin_def prj others target)
qed

lemma ex_created:
  "snd (createWarmWorkspace (daemon ex_open_env) ''p1'' repoUrl apiKey envVars)
     = Inr \<lparr>containerId = ''c2'', volumeName = ''ws-p1'',
            imageName = ''codexrt-workspace:v0.1'', imageDigest = ''sha256:0''\<rparr>"
  by (simp add: createWarmWorkspace_def Let_def ex_open_env_def ex_daemon_def)


lemma ex_system_db: "sys_db ex_system_new = ex_db_new"
  by (simp add: ex_system_new_def)




section \<open>The temp directory of the evidence builder\<close>

lemma build_steps_fail:
  assumes "\<exists>step \<in> set steps. step_error env step \<noteq> None"
  shows "snd (build_steps env runId steps d fs) = fs"
    and "\<exists>e. fst (build_steps env runId steps d fs) = bundle_failed env runId e d"
  using assms by (induction steps) (auto split: option.splits)

lemma build_steps_ok:
  assumes "\<forall>step \<in> set steps. step_error env step = None" and "step_error env Cleanup = None"
  shows "build_steps env runId steps d fs
     = (bundle_ready env runId d, insert (zipFilePath env runId) fs - {tempDir env runId})"
  using assms by (induction steps) (auto simp: Let_def)

lemma zip_is_not_temp: "zipFilePath env runId \<noteq> tempDir env runId"
  by (simp add: zipFilePath_def tempDir_def)

lemma ex_build_found:
  "find (\<lambda>r. run_id r = ''r1'') (runs ex_db_built) = Some (ex_run ''r1'' 1100)"
  "find (\<lambda>w. ws_id w = run_workspace_id (ex_run ''r1'' 1100)) (workspaces ex_db_built)
     = Some ex_workspace"
  "truthy (container_id ex_workspace)"
  by (simp_all add: ex_db_built_def ex_db_def ex_run_def ex_workspace_def truthy_def)

lemma buildBundle_started:
  assumes "find (\<lambda>r. run_id r = runId) (runs d) = Some r"
    and "find (\<lambda>w. ws_id w = run_workspace_id r) (workspaces d) = Some w"
    and "truthy (container_id w)"
    and "step_error env Mkdir = None"
  shows "buildBundle env d fs runId
     = build_steps env runId [GetArchive, Untar, CopyFiles, WriteMetadata, Zip] d
         (insert (tempDir env runId) fs)"
  using assms by (simp add: buildBundle_def Let_def split: option.splits)

lemma temp_dir_kept_on_failure:
  assumes "find (\<lambda>r. run_id r = runId) (runs d) = Some r"
    and "find (\<lambda>w. ws_id w = run_workspace_id r) (workspaces d) = Some w"
    and "truthy (container_id w)"
    and "step_error env Mkdir = None"
    and "\<exists>step \<in> {GetArchive, Untar, CopyFiles, WriteMetadata, Zip}. step_error env step \<noteq> None"
  shows "tempDir env runId \<in> snd (buildBundle env d fs runId)"
    and "\<exists>e. fst (buildBundle env d fs runId) = bundle_failed env runId e d"
proof -
  have fails: "\<exists>step \<in> set [GetArchive, Untar, CopyFiles, WriteMetadata, Zip].
      step_error env step \<noteq> None"
    using assms(5) by simp
  show "tempDir env runId \<in> snd (buildBundle env d fs runId)"
    unfolding buildBundle_started [OF assms(1-4)] build_steps_fail(1) [OF fails] by simp
  show "\<exists>e. fst (buildBundle env d fs runId) = bundle_failed env runId e d"
    unfolding buildBundle_started [OF assms(1-4)] by (rule build_steps_fail(2) [OF fails])
qed

lemma temp_dir_removed_on_success:
  assumes "find (\<lambda>r. run_id r = runId) (runs d) = Some r"
    and "find (\<lambda>w. ws_id w = run_workspace_id r) (workspaces d) = Some w"
    and "truthy (container_id w)"
    and "\<forall>step. step_error env step = None"
  shows "tempDir env runId \<notin> snd (buildBundle env d fs runId)"
    and "fst (buildBundle env d fs runId) = bundle_ready env runId d"
proof -
  have mk: "step_error env Mkdir = None"
    using assms(4) by simp
  have ok: "\<forall>step \<in> set [GetArchive, Untar, CopyFiles, WriteMetadata, Zip]. step_error env step = None"
    using assms(4) by simp
  have cl: "step_error env Cleanup = None"
    using assms(4) by simp
  show "tempDir env runId \<notin> snd (buildBundle env d fs runId)"
    unfolding buildBundle_started [OF assms(1-3) mk] build_steps_ok [OF ok cl] by simp
  show "fst (buildBundle env d fs runId) = bundle_ready env runId d"
    unfolding buildBundle_started [OF assms(1-3) mk] build_steps_ok [OF ok cl] by simp
qed

text \<open>
  Claim C10. \<^verbatim>\<open>buildBundle\<close> is to remove the temp directory on every exit path. It does
  not: when \<^verbatim>\<open>getContainerArchive\<close> throws, the bundle is marked \<^verbatim>\<open>error\<close> and the temp
  directory \<^verbatim>\<open>/evidence/temp/r1\<close> is still there when the builder returns. The build in
  which every step succeeds leaves the zip file only.
\<close>

theorem failed_build_leaves_temp_dir:
  "tempDir ex_build_env_no_archive ''r1'' = ''/evidence/temp/r1''
   \<and> snd (buildBundle ex_build_env_no_archive ex_db_built {} ''r1'') = {''/evidence/temp/r1''}
   \<and> map eb_status (evidence_bundles (fst (buildBundle ex_build_env_no_archive ex_db_built {} ''r1'')))
       = [BundleError]
   \<and> snd (buildBundle ex_build_env ex_db_built {} ''r1'') = {''/evidence/r1.zip''}"
proof -
  have mk: "step_error ex_build_env_no_archive Mkdir = None" "step_error ex_build_env Mkdir = None"
    by (simp_all add: ex_build_env_no_archive_def ex_build_env_def)
  have tmp: "tempDir ex_build_env_no_archive ''r1'' = ''/evidence/temp/r1''"
    "tempDir ex_build_env ''r1'' = ''/evidence/temp/r1''"
    "zipFilePath ex_build_env ''r1'' = ''/evidence/r1.zip''"
    by (simp_all add: tempDir_def zipFilePath_def ex_build_env_no_archive_def ex_build_env_def)
  have err: "step_error ex_build_env_no_archive GetArchive
      = Some (JsError ''Error'' ''(HTTP code 404) no such container - Could not find the file /workspace/evidence/r1'')"
    by (simp add: ex_build_env_no_archive_def ex_build_env_def)
  have ok: "\<forall>step \<in> set [GetArchive, Untar, CopyFiles, WriteMetadata, Zip]. step_error ex_build_env step = None"
    "step_error ex_build_env Cleanup = None"
    by (simp_all add: ex_build_env_def)
  have bundles: "map eb_status (evidence_bundles (bundle_failed env ''r1'' e ex_db_built)) = [BundleError]"
    for env e
    by (simp add: bundle_failed_def update_bundle_def ex_db_built_def)
  show ?thesis
    unfolding buildBundle_started [OF ex_build_found mk(1)]
      buildBundle_started [OF ex_build_found mk(2)] build_steps_ok [OF ok]
    by (auto simp: err tmp bundles)
qed

section \<open>The idle reaper\<close>

text \<open>
  What a sweep of the idle reaper at time \<open>now\<close> does to each row: the rows after the sweep
  are those before it, in the same order; a row that was warm and expired with a
  \<^verbatim>\<open>container_id\<close> that is neither null nor the empty string is cold with no container.
\<close>

lemma reaper_rows:
  "list_all2
     (\<lambda>w w'. ws_id w' = ws_id w \<and> thread_id w' = thread_id w \<and> volume_name w' = volume_name w
        \<and> (ws_state w = Warm \<and> (\<exists>t. idle_expires_at w = Some t \<and> t < now)
              \<and> (\<exists>c. container_id w = Some c \<and> c \<noteq> [])
            \<longrightarrow> ws_state w' = Cold \<and> container_id w' = None))
     (workspaces d) (workspaces (fst (reapIdleWorkspaces d now)))"
proof -
  let ?ids = "ws_id ` {x \<in> set (idleWorkspaces d now). truthy (container_id x)}"
  have sel: "ws_id w \<in> ?ids"
    if "w \<in> set (workspaces d)" "ws_state w = Warm" "idle_expires_at w = Some t" "t < now"
      "container_id w = Some c" "c \<noteq> []" for w t c
    using that by (auto simp: idleWorkspaces_def truthy_def intro!: image_eqI [where x = w])
  show ?thesis
    unfolding reapIdleWorkspaces_def workspaces_reap_loop list_all2_map2
    by (rule list_all2_all_nthI) (auto simp: mark_cold_def dest: sel [OF nth_mem])
qed

section \<open>Container ids\<close>

text \<open>
  The handlers write to \<^verbatim>\<open>container_id\<close> null or the id of a container Docker has created:
  no row of a state the orchestrator reaches has the empty string there.
\<close>

lemma container_id_mark_cold [simp]: "container_id (mark_cold w) = None"
  by (simp add: mark_cold_def)

lemma container_id_touch_workspace [simp]:
  "container_id (touch_workspace env result w) = container_id w"
  by (simp add: touch_workspace_def)

lemma container_id_set_warm [simp]: "container_id (set_warm env c w) = Some (containerId c)"
  by (simp add: set_warm_def)

lemma container_id_new_workspace [simp]:
  "container_id (new_workspace env userId projectId c) = Some (containerId c)"
  by (simp add: new_workspace_def)

lemma serve_container_ids:
  assumes ok: "docker_ids_ok r"
    and inv: "\<forall>w \<in> set (workspaces (sys_db s)). container_id w \<noteq> Some []"
  shows "\<forall>w \<in> set (workspaces (sys_db (serve r s))). container_id w \<noteq> Some []"
proof (cases r)
  case (CreateProject newId userId name repoUrl)
  with inv show ?thesis
    by (simp add: create_project_def)
next
  case (OpenProject env userId projectId)
  with ok have daemon: "create_reply (daemon env) \<noteq> Inr []"
    by (simp add: docker_ids_ok_def)
  have srv: "workspaces (sys_db (serve r s))
      = workspaces (fst (open_project env (sys_db s) userId projectId))"
    by (simp add: OpenProject)
  from open_project_table [of env "sys_db s" userId projectId] show ?thesis
    unfolding srv [symmetric]
  proof (elim disjE exE conjE)
    assume "workspaces (sys_db (serve r s)) = workspaces (sys_db s)"
    with inv show ?thesis
      by simp
  next
    assume "workspaces (sys_db (serve r s))
        = map (\<lambda>w. if ws_id w \<in> ws_id ` set (otherWarmWorkspaces (sys_db s) userId projectId)
                    then mark_cold w else w) (workspaces (sys_db s))"
    with inv show ?thesis
      by auto
  next
    fix w :: workspace and c
    assume "create_reply (daemon env) = Inr (containerId c)"
      and "workspaces (sys_db (serve r s))
        = map (\<lambda>x. if ws_id x = ws_id w then set_warm env c x else x)
            (map (\<lambda>w. if ws_id w \<in> ws_id ` set (otherWarmWorkspaces (sys_db s) userId projectId)
                       then mark_cold w else w) (workspaces (sys_db s)))"
    with inv daemon show ?thesis
      by auto
  next
    fix c
    assume "create_reply (daemon env) = Inr (containerId c)"
      and "workspaces (sys_db (serve r s))
        = map (\<lambda>w. if ws_id w \<in> ws_id ` set (otherWarmWorkspaces (sys_db s) userId projectId)
                    then mark_cold w else w) (workspaces (sys_db s))
          @ [new_workspace env userId projectId c]"
    with inv daemon show ?thesis
      by auto
  qed
next
  case (Message env userId projectId msg)
  have srv: "workspaces (sys_db (serve r s))
      = workspaces (store (post_message env (sys_db s) userId projectId msg))"
    by (simp add: Message)
  from workspaces_post_message [of env "sys_db s" userId projectId msg] inv show ?thesis
    unfolding srv [symmetric] by (elim disjE exE) auto
next
  case (MessageStream env userId projectId msg)
  have srv: "workspaces (sys_db (serve r s))
      = workspaces (store (post_message_stream env (sys_db s) userId projectId msg))"
    by (simp add: MessageStream)
  from workspaces_post_message_stream [of env "sys_db s" userId projectId msg] inv show ?thesis
    unfolding srv [symmetric] by (elim disjE exE) auto
next
  case (Reap now)
  with inv show ?thesis
    by (auto simp: reapIdleWorkspaces_def workspaces_reap_loop)
next
  case (WorkspaceGC ttl now)
  with inv show ?thesis
    by (simp add: runWorkspaceGC_def workspaces_workspace_gc_loop)
next
  case (EvidenceGC ttl now)
  with inv show ?thesis
    by (simp add: runEvidenceGC_def split_beta)
next
  case (BuildBundle env runId)
  with inv show ?thesis
    by (simp add: split_beta)
qed

lemma reachable_container_ids:
  "reachable s \<Longrightarrow> \<forall>w \<in> set (workspaces (sys_db s)). container_id w \<noteq> Some []"
proof (induction rule: reachable.induct)
  case initial
  show ?case
    by (simp add: empty_system_def)
next
  case (served s r)
  from serve_container_ids [OF served.hyps(2) served.IH] show ?case .
qed

text \<open>
  Claim C7. After a sweep of the idle reaper at time \<open>now\<close>, every workspace that was warm
  with \<^verbatim>\<open>idle_expires_at\<close> earlier than \<open>now\<close> and a non-null \<^verbatim>\<open>container_id\<close> is cold with
  \<^verbatim>\<open>container_id\<close> null, and the \<^verbatim>\<open>thread_id\<close> and the \<^verbatim>\<open>volume_name\<close> of every row are what
  they were before the sweep. This holds of every store in which no \<^verbatim>\<open>container_id\<close> is the
  empty string, which the handlers never write.
\<close>

theorem reaper_frame:
  assumes "\<forall>w \<in> set (workspaces d). container_id w \<noteq> Some []"
  shows "list_all2
     (\<lambda>w w'. ws_id w' = ws_id w \<and> thread_id w' = thread_id w \<and> volume_name w' = volume_name w
        \<and> (ws_state w = Warm \<and> (\<exists>t. idle_expires_at w = Some t \<and> t < now)
              \<and> container_id w \<noteq> None
            \<longrightarrow> ws_state w' = Cold \<and> container_id w' = None))
     (workspaces d) (workspaces (fst (reapIdleWorkspaces d now)))"
proof -
  have len: "length (workspaces (fst (reapIdleWorkspaces d now))) = length (workspaces d)"
    using reaper_rows [of now d] by (simp add: list_all2_lengthD)
  show ?thesis
  proof (rule list_all2_all_nthI)
    show "length (workspaces d) = length (workspaces (fst (reapIdleWorkspaces d now)))"
      by (simp add: len)
  next
    fix i
    assume i: "i < length (workspaces d)"
    then have "workspaces d ! i \<in> set (workspaces d)"
      by simp
    with assms have "container_id (workspaces d ! i) \<noteq> Some []"
      by blast
    then have "container_id (workspaces d ! i) \<noteq> None
        \<Longrightarrow> \<exists>c. container_id (workspaces d ! i) = Some c \<and> c \<noteq> []"
      by (cases "container_id (workspaces d ! i)") auto
    with list_all2_nthD [OF reaper_rows [of now d] i]
    show "ws_id (workspaces (fst (reapIdleWorkspaces d now)) ! i) = ws_id (workspaces d ! i)
        \<and> thread_id (workspaces (fst (reapIdleWorkspaces d now)) ! i) = thread_id (workspaces d ! i)
        \<and> volume_name (workspaces (fst (reapIdleWorkspaces d now)) ! i)
            = volume_name (workspaces d ! i)
        \<and> (ws_state (workspaces d ! i) = Warm
              \<and> (\<exists>t. idle_expires_at (workspaces d ! i) = Some t \<and> t < now)
              \<and> container_id (workspaces d ! i) \<noteq> None
            \<longrightarrow> ws_state (workspaces (fst (reapIdleWorkspaces d now)) ! i) = Cold
              \<and> container_id (workspaces (fst (reapIdleWorkspaces d now)) ! i) = None)"
      by blast
  qed
qed

text \<open>The same of every state the orchestrator reaches.\<close>

lemma reaper_frame_reachable:
  assumes "reachable s"
  shows "list_all2
     (\<lambda>w w'. ws_id w' = ws_id w \<and> thread_id w' = thread_id w \<and> volume_name w' = volume_name w
        \<and> (ws_state w = Warm \<and> (\<exists>t. idle_expires_at w = Some t \<and> t < now)
              \<and> container_id w \<noteq> None
            \<longrightarrow> ws_state w' = Cold \<and> container_id w' = None))
     (workspaces (sys_db s)) (workspaces (fst (reapIdleWorkspaces (sys_db s) now)))"
proof -
  have len: "length (workspaces (fst (reapIdleWorkspaces (sys_db s) now)))
      = length (workspaces (sys_db s))"
    using reaper_rows [of now "sys_db s"] by (simp add: list_all2_lengthD)
  show ?thesis
  proof (rule list_all2_all_nthI)
    show "length (workspaces (sys_db s))
        = length (workspaces (fst (reapIdleWorkspaces (sys_db s) now)))"
      by (simp add: len)
  next
    fix i
    assume i: "i < length (workspaces (sys_db s))"
    then have "workspaces (sys_db s) ! i \<in> set (workspaces (sys_db s))"
      by simp
    with reachable_container_ids [OF assms]
    have "container_id (workspaces (sys_db s) ! i) \<noteq> Some []"
      by blast
    then have "container_id (workspaces (sys_db s) ! i) \<noteq> None
        \<Longrightarrow> \<exists>c. container_id (workspaces (sys_db s) ! i) = Some c \<and> c \<noteq> []"
      by (cases "container_id (workspaces (sys_db s) ! i)") auto
    with list_all2_nthD [OF reaper_rows [of now "sys_db s"] i]
    show "ws_id (workspaces (fst (reapIdleWorkspaces (sys_db s) now)) ! i)
            = ws_id (workspaces (sys_db s) ! i)
        \<and> thread_id (workspaces (fst (reapIdleWorkspaces (sys_db s) now)) ! i)
            = thread_id (workspaces (sys_db s) ! i)
        \<and> volume_name (workspaces (fst (reapIdleWorkspaces (sys_db s) now)) ! i)
            = volume_name (workspaces (sys_db s) ! i)
        \<and> (ws_state (workspaces (sys_db s) ! i) = Warm
              \<and> (\<exists>t. idle_expires_at (workspaces (sys_db s) ! i) = Some t \<and> t < now)
              \<and> container_id (workspaces (sys_db s) ! i) \<noteq> None
            \<longrightarrow> ws_state (workspaces (fst (reapIdleWorkspaces (sys_db s) now)) ! i) = Cold
              \<and> container_id (workspaces (fst (reapIdleWorkspaces (sys_db s) now)) ! i) = None)"
      by blast
  qed
qed

theorem reaper_frame_witness:
  "workspaces ex_db = [ex_workspace]
   \<and> ws_state ex_workspace = Warm \<and> idle_expires_at ex_workspace = Some 2000
   \<and> container_id ex_workspace = Some ''c1''
   \<and> map (\<lambda>w. (ws_state w, container_id w, thread_id w, volume_name w))
        (workspaces (fst (reapIdleWorkspaces ex_db 5000)))
      = [(Cold, None, Some ''t1'', Some ''ws-p1'')]"
proof -
  have rows: "workspaces ex_db = [ex_workspace]"
    by (simp add: ex_db_def)
  have w: "ws_state ex_workspace = Warm" "idle_expires_at ex_workspace = Some 2000"
    "container_id ex_workspace = Some ''c1''" "thread_id ex_workspace = Some ''t1''"
    "volume_name ex_workspace = Some ''ws-p1''"
    by (simp_all add: ex_workspace_def)
  have no_blank: "\<forall>w \<in> set (workspaces ex_db). container_id w \<noteq> Some []"
    by (simp add: rows w)
  from reaper_frame [OF no_blank, of 5000] show ?thesis
    unfolding rows by (auto simp: list_all2_Cons1 w)
qed

text \<open>
  A warm, expired row whose \<^verbatim>\<open>container_id\<close> is the empty string, which no statement of
  the handlers writes, would be selected by the query and skipped by the loop.
\<close>

lemma ex_reap_blank:
  "workspaces (fst (reapIdleWorkspaces ex_db_blank 5000)) = workspaces ex_db_blank"
  by (simp add: reapIdleWorkspaces_def idleWorkspaces_def ex_db_blank_def ex_db_def
      ex_workspace_def)

lemma reaper_skips_blank_container_id:
  "map (\<lambda>w. (ws_state w, idle_expires_at w, container_id w)) (workspaces ex_db_blank)
     = [(Warm, Some 2000, Some [])]
   \<and> map (\<lambda>w. (ws_state w, container_id w))
       (workspaces (fst (reapIdleWorkspaces ex_db_blank 5000))) = [(Warm, Some [])]"
  unfolding ex_reap_blank by (simp add: ex_db_blank_def ex_db_def ex_workspace_def)


section \<open>One warm workspace per user\<close>

text \<open>Requests served one after the other keep the workspace table in order.\<close>

lemma one_warm_per_userI:
  assumes "distinct (map ws_id rows)"
    and "distinct (map (\<lambda>w. (ws_user_id w, ws_project_id w)) rows)"
    and "\<And>w w'. w \<in> set rows \<Longrightarrow> w' \<in> set rows \<Longrightarrow> ws_state w = Warm \<Longrightarrow> ws_state w' = Warm
           \<Longrightarrow> ws_user_id w = ws_user_id w' \<Longrightarrow> ws_id w = ws_id w'"
  shows "one_warm_per_user rows"
  using assms unfolding one_warm_per_user_def by blast

lemma one_warm_per_userD:
  assumes "one_warm_per_user rows"
  shows "distinct (map ws_id rows)"
    and "distinct (map (\<lambda>w. (ws_user_id w, ws_project_id w)) rows)"
    and "\<And>w w'. w \<in> set rows \<Longrightarrow> w' \<in> set rows \<Longrightarrow> ws_state w = Warm \<Longrightarrow> ws_state w' = Warm
           \<Longrightarrow> ws_user_id w = ws_user_id w' \<Longrightarrow> ws_id w = ws_id w'"
  using assms unfolding one_warm_per_user_def by blast+

lemma row_step_keys:
  assumes "\<And>w. row_step w (g w)"
  shows "map ws_id (map g rows) = map ws_id rows"
    and "map (\<lambda>w. (ws_user_id w, ws_project_id w)) (map g rows)
           = map (\<lambda>w. (ws_user_id w, ws_project_id w)) rows"
  using assms by (simp_all add: row_step_def comp_def)

lemma one_warm_map:
  assumes inv: "one_warm_per_user rows"
    and step: "\<And>w. row_step w (g w)"
    and cools: "\<And>w. ws_state (g w) = Warm \<Longrightarrow> ws_state w = Warm"
  shows "one_warm_per_user (map g rows)"
proof (rule one_warm_per_userI)
  show "distinct (map ws_id (map g rows))"
    unfolding row_step_keys(1) [of g, OF step] by (rule one_warm_per_userD(1) [OF inv])
  show "distinct (map (\<lambda>w. (ws_user_id w, ws_project_id w)) (map g rows))"
    unfolding row_step_keys(2) [of g, OF step] by (rule one_warm_per_userD(2) [OF inv])
  fix w w'
  assume "w \<in> set (map g rows)" "w' \<in> set (map g rows)"
  then obtain x y where x: "x \<in> set rows" "w = g x" and y: "y \<in> set rows" "w' = g y"
    by auto
  assume "ws_state w = Warm" "ws_state w' = Warm" "ws_user_id w = ws_user_id w'"
  with x y step [of x] step [of y] cools [of x] cools [of y]
  have "ws_state x = Warm" "ws_state y = Warm" "ws_user_id x = ws_user_id y"
    by (simp_all add: row_step_def)
  from one_warm_per_userD(3) [OF inv x(1) y(1) this] x y step [of x] step [of y]
  show "ws_id w = ws_id w'"
    by (simp add: row_step_def)
qed

text \<open>
  After the eviction pass of Open, a row of the user that is still warm is a row of the
  project that is opened.
\<close>

lemma still_warm_after_eviction:
  assumes "y \<in> set (workspaces d)" and "ws_user_id y = userId"
    and "ws_state (if ws_id y \<in> ws_id ` set (otherWarmWorkspaces d userId projectId)
                   then mark_cold y else y) = Warm"
  shows "ws_project_id y = projectId \<and> ws_state y = Warm"
proof -
  from assms(3) have out: "ws_id y \<notin> ws_id ` set (otherWarmWorkspaces d userId projectId)"
    and warm: "ws_state y = Warm"
    by (auto split: if_splits)
  from out have "y \<notin> set (otherWarmWorkspaces d userId projectId)"
    by blast
  with assms(1,2) warm show ?thesis
    by (simp add: otherWarmWorkspaces_def)
qed

lemma eviction_step:
  "row_step w (if ws_id w \<in> ids then mark_cold w else w)"
  "ws_state (if ws_id w \<in> ids then mark_cold w else w) = Warm \<Longrightarrow> ws_state w = Warm"
  by (simp_all add: row_step_cold split: if_splits)

lemma one_warm_set_warm:
  fixes d userId projectId
  defines "ev \<equiv> \<lambda>w. if ws_id w \<in> ws_id ` set (otherWarmWorkspaces d userId projectId)
               then mark_cold w else w"
  assumes inv: "one_warm_per_user (workspaces d)"
    and found: "find (\<lambda>w. ws_project_id w = projectId \<and> ws_user_id w = userId) (workspaces d) = Some w"
  shows "one_warm_per_user
     (map (\<lambda>x. if ws_id x = ws_id w then set_warm env c x else x) (map ev (workspaces d)))"
proof -
  let ?h = "\<lambda>x. if ws_id (ev x) = ws_id w then set_warm env c (ev x) else ev x"
  have ev_step: "row_step x (ev x)" for x
    unfolding ev_def by (rule eviction_step)
  have h_step: "row_step x (?h x)" for x
    unfolding ev_def by (simp add: row_step_def set_warm_def mark_cold_def)
  from found have w: "w \<in> set (workspaces d)" "ws_project_id w = projectId" "ws_user_id w = userId"
    by (auto simp: find_Some_iff in_set_conv_nth)
  have target: "ws_id y = ws_id w"
    if y: "y \<in> set (workspaces d)" "ws_user_id y = userId" "ws_state (ev y) = Warm" for y
  proof -
    from still_warm_after_eviction [OF y(1,2) y(3) [unfolded ev_def]]
    have "ws_project_id y = projectId"
      by simp
    with y(2) w have "(ws_user_id y, ws_project_id y) = (ws_user_id w, ws_project_id w)"
      by simp
    with one_warm_per_userD(2) [OF inv] y(1) w(1) have "y = w"
      by (auto simp: distinct_map dest: inj_onD)
    then show ?thesis
      by simp
  qed
  have "one_warm_per_user (map ?h (workspaces d))"
  proof (rule one_warm_per_userI)
    show "distinct (map ws_id (map ?h (workspaces d)))"
      unfolding row_step_keys(1) [of ?h, OF h_step] by (rule one_warm_per_userD(1) [OF inv])
    show "distinct (map (\<lambda>w. (ws_user_id w, ws_project_id w)) (map ?h (workspaces d)))"
      unfolding row_step_keys(2) [of ?h, OF h_step] by (rule one_warm_per_userD(2) [OF inv])
    fix a b
    assume "a \<in> set (map ?h (workspaces d))" "b \<in> set (map ?h (workspaces d))"
    then obtain x y where x: "x \<in> set (workspaces d)" "a = ?h x"
      and y: "y \<in> set (workspaces d)" "b = ?h y"
      by auto
    assume warm: "ws_state a = Warm" "ws_state b = Warm" and user: "ws_user_id a = ws_user_id b"
    have ids: "ws_id a = ws_id x" "ws_id b = ws_id y" "ws_user_id a = ws_user_id x"
      "ws_user_id b = ws_user_id y" "ws_id (ev x) = ws_id x" "ws_id (ev y) = ws_id y"
      using h_step [of x] h_step [of y] ev_step [of x] ev_step [of y] x(2) y(2)
      by (simp_all add: row_step_def)
    have same_user: "ws_user_id x = ws_user_id y"
      using user ids by simp
    have "ws_id x = ws_id y"
    proof (cases "ws_id x = ws_id w")
      case True
      note xw = this
      with x(1) w(1) one_warm_per_userD(1) [OF inv] have "x = w"
        by (auto simp: distinct_map dest: inj_onD)
      with same_user w(3) have yu: "ws_user_id y = userId"
        by simp
      show ?thesis
      proof (cases "ws_id y = ws_id w")
        case True
        with xw show ?thesis
          by simp
      next
        case False
        with warm(2) y(2) ids(6) have "ws_state (ev y) = Warm"
          by simp
        from target [OF y(1) yu this] False show ?thesis
          by simp
      qed
    next
      case False
      note xw = this
      with warm(1) x(2) ids(5) have evx: "ws_state (ev x) = Warm"
        by simp
      show ?thesis
      proof (cases "ws_id y = ws_id w")
        case True
        with y(1) w(1) one_warm_per_userD(1) [OF inv] have "y = w"
          by (auto simp: distinct_map dest: inj_onD)
        with same_user w(3) have "ws_user_id x = userId"
          by simp
        from target [OF x(1) this evx] xw show ?thesis
          by simp
      next
        case False
        with warm(2) y(2) ids(6) have evy: "ws_state (ev y) = Warm"
          by simp
        from evx evy have "ws_state x = Warm" "ws_state y = Warm"
          unfolding ev_def by (simp_all split: if_splits)
        from one_warm_per_userD(3) [OF inv x(1) y(1) this same_user] show ?thesis .
      qed
    qed
    with ids show "ws_id a = ws_id b"
      by simp
  qed
  moreover have "map (\<lambda>x. if ws_id x = ws_id w then set_warm env c x else x) (map ev (workspaces d))
      = map ?h (workspaces d)"
    by (simp add: comp_def)
  ultimately show ?thesis
    by (simp add: comp_def)
qed

lemma one_warm_new:
  fixes d userId projectId
  defines "ev \<equiv> \<lambda>w. if ws_id w \<in> ws_id ` set (otherWarmWorkspaces d userId projectId)
               then mark_cold w else w"
  assumes inv: "one_warm_per_user (workspaces d)"
    and none: "find (\<lambda>w. ws_project_id w = projectId \<and> ws_user_id w = userId) (workspaces d) = None"
    and fresh: "new_ws_id env \<notin> ws_id ` set (workspaces d)"
  shows "one_warm_per_user (map ev (workspaces d) @ [new_workspace env userId projectId c])"
proof -
  have ev_step: "row_step x (ev x)" for x
    unfolding ev_def by (rule eviction_step)
  have ev_cools: "ws_state (ev x) = Warm \<Longrightarrow> ws_state x = Warm" for x
    unfolding ev_def by (rule eviction_step)
  note evicted = one_warm_map [of _ ev, OF inv ev_step ev_cools]
  from none have no_row: "\<not> (ws_project_id y = projectId \<and> ws_user_id y = userId)"
    if "y \<in> set (workspaces d)" for y
    using that by (auto simp: find_None_iff)
  have new [simp]: "ws_id (new_workspace env userId projectId c) = new_ws_id env"
    "ws_user_id (new_workspace env userId projectId c) = userId"
    "ws_project_id (new_workspace env userId projectId c) = projectId"
    by (simp_all add: new_workspace_def)
  have no_warm: False
    if y: "y \<in> set (workspaces d)" "ws_user_id (ev y) = userId" "ws_state (ev y) = Warm" for y
  proof -
    from ev_step [of y] y(2) have "ws_user_id y = userId"
      by (simp add: row_step_def)
    from still_warm_after_eviction [OF y(1) this y(3) [unfolded ev_def]] this no_row [OF y(1)]
    show False
      by simp
  qed
  show ?thesis
  proof (rule one_warm_per_userI)
    have "distinct (map ws_id (map ev (workspaces d)) @ [new_ws_id env])"
      unfolding row_step_keys(1) [of ev, OF ev_step]
      using one_warm_per_userD(1) [OF inv] fresh by (simp add: image_iff)
    then show "distinct (map ws_id (map ev (workspaces d) @ [new_workspace env userId projectId c]))"
      by simp
    have "distinct (map (\<lambda>w. (ws_user_id w, ws_project_id w)) (map ev (workspaces d))
        @ [(userId, projectId)])"
      unfolding row_step_keys(2) [of ev, OF ev_step]
      using one_warm_per_userD(2) [OF inv] no_row by auto
    then show "distinct (map (\<lambda>w. (ws_user_id w, ws_project_id w))
        (map ev (workspaces d) @ [new_workspace env userId projectId c]))"
      by simp
  next
    fix a b
    assume a: "a \<in> set (map ev (workspaces d) @ [new_workspace env userId projectId c])"
      and b: "b \<in> set (map ev (workspaces d) @ [new_workspace env userId projectId c])"
      and warm: "ws_state a = Warm" "ws_state b = Warm" and user: "ws_user_id a = ws_user_id b"
    show "ws_id a = ws_id b"
    proof (cases "a = new_workspace env userId projectId c")
      case True
      note an = this
      show ?thesis
      proof (cases "b = new_workspace env userId projectId c")
        case True
        with an show ?thesis
          by simp
      next
        case False
        with b obtain y where "y \<in> set (workspaces d)" "b = ev y"
          by auto
        with no_warm [of y] warm(2) user an show ?thesis
          by simp
      qed
    next
      case False
      with a obtain x where x: "x \<in> set (workspaces d)" "a = ev x"
        by auto
      show ?thesis
      proof (cases "b = new_workspace env userId projectId c")
        case True
        with no_warm [of x] x warm(1) user show ?thesis
          by simp
      next
        case False
        with b have "b \<in> set (map ev (workspaces d))"
          by auto
        moreover from x have "a \<in> set (map ev (workspaces d))"
          by simp
        ultimately show ?thesis
          using one_warm_per_userD(3) [OF evicted] warm user by blast
      qed
    qed
  qed
qed

lemma open_project_one_warm:
  assumes inv: "one_warm_per_user (workspaces d)"
  shows "one_warm_per_user (workspaces (fst (open_project env d userId projectId)))"
  using open_project_table [of env d userId projectId]
proof (elim disjE exE conjE)
  assume "workspaces (fst (open_project env d userId projectId)) = workspaces d"
  with inv show ?thesis
    by simp
next
  assume eq: "workspaces (fst (open_project env d userId projectId))
      = map (\<lambda>w. if ws_id w \<in> ws_id ` set (otherWarmWorkspaces d userId projectId)
                  then mark_cold w else w) (workspaces d)"
  show ?thesis
    unfolding eq by (rule one_warm_map [OF inv]) (rule eviction_step, erule eviction_step)
next
  fix w c
  assume found: "find (\<lambda>w. ws_project_id w = projectId \<and> ws_user_id w = userId) (workspaces d)
      = Some w"
    and eq: "workspaces (fst (open_project env d userId projectId))
      = map (\<lambda>x. if ws_id x = ws_id w then set_warm env c x else x)
          (map (\<lambda>w. if ws_id w \<in> ws_id ` set (otherWarmWorkspaces d userId projectId)
                     then mark_cold w else w) (workspaces d))"
  show ?thesis
    unfolding eq by (rule one_warm_set_warm [OF inv found])
next
  fix c
  assume none: "find (\<lambda>w. ws_project_id w = projectId \<and> ws_user_id w = userId) (workspaces d)
      = None"
    and fresh: "new_ws_id env \<notin> ws_id ` set (workspaces d)"
    and eq: "workspaces (fst (open_project env d userId projectId))
      = map (\<lambda>w. if ws_id w \<in> ws_id ` set (otherWarmWorkspaces d userId projectId)
                  then mark_cold w else w) (workspaces d)
        @ [new_workspace env userId projectId c]"
  show ?thesis
    unfolding eq by (rule one_warm_new [OF inv none fresh])
qed

lemma serve_one_warm:
  assumes inv: "one_warm_per_user (workspaces (sys_db s))"
  shows "one_warm_per_user (workspaces (sys_db (serve r s)))"
proof (cases "\<exists>env userId projectId. r = OpenProject env userId projectId")
  case True
  then obtain env userId projectId where "r = OpenProject env userId projectId"
    by blast
  with open_project_one_warm [OF inv] show ?thesis
    by simp
next
  case False
  from serve_table [of r s] obtain g extra
    where tab: "workspaces (sys_db (serve r s)) = map g (workspaces (sys_db s)) @ extra"
      and step: "\<forall>w. row_step w (g w)"
      and new: "extra = [] \<or> (\<exists>env userId projectId c. r = OpenProject env userId projectId
              \<and> extra = [new_workspace env userId projectId c]
              \<and> volumeName c = ''ws-'' @ projectId
              \<and> new_ws_id env \<notin> ws_id ` set (workspaces (sys_db s)))"
      and cools: "(\<exists>env userId projectId. r = OpenProject env userId projectId)
          \<or> (\<forall>w. ws_state (g w) = Warm \<longrightarrow> ws_state w = Warm)"
    by (elim exE conjE)
  from new False have "extra = []"
    by blast
  with tab have tab': "workspaces (sys_db (serve r s)) = map g (workspaces (sys_db s))"
    by simp
  from cools False have "\<forall>w. ws_state (g w) = Warm \<longrightarrow> ws_state w = Warm"
    by blast
  with step show ?thesis
    unfolding tab' by (intro one_warm_map [OF inv]) simp_all
qed

lemma reachable_one_warm: "reachable s \<Longrightarrow> one_warm_per_user (workspaces (sys_db s))"
proof (induction rule: reachable.induct)
  case initial
  show ?case
    by (simp add: empty_system_def one_warm_per_user_def)
next
  case (served s r)
  from serve_one_warm [OF served.IH] show ?case .
qed

lemma one_warm_count:
  assumes "one_warm_per_user (workspaces d)"
  shows "warm_count d userId \<le> 1"
proof -
  define warm where "warm = filter (\<lambda>w. ws_user_id w = userId \<and> ws_state w = Warm) (workspaces d)"
  from one_warm_per_userD(1) [OF assms] have ids: "distinct (map ws_id warm)"
    unfolding warm_def by (rule distinct_map_filter)
  have same: "ws_id a = ws_id b" if "a \<in> set warm" "b \<in> set warm" for a b
    using that one_warm_per_userD(3) [OF assms, of a b] by (simp add: warm_def)
  have "length warm \<le> 1"
  proof (cases warm)
    case Nil
    then show ?thesis
      by simp
  next
    case (Cons a rest)
    note first = this
    show ?thesis
    proof (cases rest)
      case Nil
      with first show ?thesis
        by simp
    next
      case (Cons b rest')
      with first same [of a b] ids show ?thesis
        by simp
    qed
  qed
  then show ?thesis
    by (simp add: warm_count_def warm_def)
qed

lemma serial_single_warm: "reachable s \<Longrightarrow> warm_count (sys_db s) userId \<le> 1"
  by (rule one_warm_count [OF reachable_one_warm])


section \<open>Two Opens that overlap\<close>

text \<open>Served alone, Open is its first part followed at once by its second.\<close>

lemma open_project_resume:
  "open_project env d userId projectId =
     (let (d1, calls, stage) = open_begin d userId projectId;
          (d2, calls', r) = open_resume env d1 userId projectId stage
      in (d2, calls @ calls', r))"
  by (simp add: open_project_def open_resume_def split_beta Let_def split: open_stage.splits)

lemma ex_new_begin_b:
  "open_begin ex_db_new ''u1'' ''p2'' = (ex_db_new, [], Starting (ex_projects ! 1) None)"
proof -
  have others: "otherWarmWorkspaces ex_db_new ''u1'' ''p2'' = []"
    by (simp add: otherWarmWorkspaces_def ex_db_new_def)
  have target: "find (\<lambda>w. ws_project_id w = ''p2'' \<and> ws_user_id w = ''u1'') (workspaces ex_db_new)
      = None"
    by (simp add: ex_db_new_def)
  have prj: "find (\<lambda>q. prj_id q = ''p2'' \<and> prj_user_id q = ''u1'') (projects ex_db_new)
      = Some (ex_projects ! 1)"
    by (simp add: ex_db_new_def ex_db_def ex_projects_def)
  show ?thesis
    by (simp add: open_begin_def prj others target)
qed

lemma ex_created_b:
  "snd (createWarmWorkspace (daemon ex_open_env_b) ''p2'' repoUrl apiKey envVars)
     = Inr \<lparr>containerId = ''c3'', volumeName = ''ws-p2'',
            imageName = ''codexrt-workspace:v0.1'', imageDigest = ''sha256:0''\<rparr>"
  by (simp add: createWarmWorkspace_def Let_def ex_open_env_b_def ex_open_env_def ex_daemon_def)

lemma ex_overlapping:
  "open_overlapping ex_open_env ''p1'' ex_open_env_b ''p2'' ''u1'' ex_db_new
     = (ex_db_new\<lparr>workspaces :=
          [new_workspace ex_open_env ''u1'' ''p1''
             \<lparr>containerId = ''c2'', volumeName = ''ws-p1'',
              imageName = ''codexrt-workspace:v0.1'', imageDigest = ''sha256:0''\<rparr>,
           new_workspace ex_open_env_b ''u1'' ''p2''
             \<lparr>containerId = ''c3'', volumeName = ''ws-p2'',
              imageName = ''codexrt-workspace:v0.1'', imageDigest = ''sha256:0''\<rparr>]\<rparr>,
        Reply 200 (OpenBody ''w9'' Warm), Reply 200 (OpenBody ''w10'' Warm))"
proof -
  have ids: "new_ws_id ex_open_env = ''w9''" "new_ws_id ex_open_env_b = ''w10''"
    by (simp_all add: ex_open_env_b_def ex_open_env_def)
  have rows: "workspaces ex_db_new = []"
    by (simp add: ex_db_new_def)
  show ?thesis
    by (simp add: open_overlapping_def ex_new_begin ex_new_begin_b open_resume_def split_beta
        ex_created ex_created_b open_finish_def insert_workspace_def rows Let_def)
      (simp add: new_workspace_def ids)
qed

text \<open>The same two Opens, one served after the other, leave the first workspace cold.\<close>

lemma ex_open_new_db:
  "fst (open_project ex_open_env ex_db_new ''u1'' ''p1'')
     = ex_db_new\<lparr>workspaces :=
         [new_workspace ex_open_env ''u1'' ''p1''
            \<lparr>containerId = ''c2'', volumeName = ''ws-p1'',
             imageName = ''codexrt-workspace:v0.1'', imageDigest = ''sha256:0''\<rparr>]\<rparr>"
  by (simp add: open_project_starting [OF ex_new_begin] ex_created open_finish_def
      insert_workspace_def)
    (simp add: ex_db_new_def)

lemma ex_one_after_the_other:
  "map (\<lambda>w. (ws_id w, ws_project_id w, ws_state w))
     (workspaces (sys_db (serve_all [OpenProject ex_open_env ''u1'' ''p1'',
                                     OpenProject ex_open_env_b ''u1'' ''p2''] ex_system_new)))
     = [(''w9'', ''p1'', Cold), (''w10'', ''p2'', Warm)]"
proof -
  let ?row = "new_workspace ex_open_env ''u1'' ''p1''
      \<lparr>containerId = ''c2'', volumeName = ''ws-p1'',
       imageName = ''codexrt-workspace:v0.1'', imageDigest = ''sha256:0''\<rparr>"
  let ?d1 = "ex_db_new\<lparr>workspaces := [?row]\<rparr>"
  have row: "ws_id ?row = ''w9''" "ws_user_id ?row = ''u1''" "ws_project_id ?row = ''p1''"
    "ws_state ?row = Warm" "container_id ?row = Some ''c2''"
    by (simp_all add: new_workspace_def ex_open_env_def)
  have prj: "find (\<lambda>q. prj_id q = ''p2'' \<and> prj_user_id q = ''u1'') (projects ex_db_new)
      = Some (ex_projects ! 1)"
    by (simp add: ex_db_new_def ex_db_def ex_projects_def)
  have others: "otherWarmWorkspaces ?d1 ''u1'' ''p2'' = [?row]"
    by (simp add: otherWarmWorkspaces_def row)
  have target: "find (\<lambda>w. ws_project_id w = ''p2'' \<and> ws_user_id w = ''u1'') [?row] = None"
    by (simp add: row)
  have begin2: "open_begin ?d1 ''u1'' ''p2''
      = (?d1\<lparr>workspaces := [mark_cold ?row]\<rparr>, [StopWorkspace ''c2''], Starting (ex_projects ! 1) None)"
    by (simp add: open_begin_def prj others target row update_workspace_def)
  have ids: "new_ws_id ex_open_env_b = ''w10''" "new_ws_id ex_open_env = ''w9''"
    by (simp_all add: ex_open_env_b_def ex_open_env_def)
  have second: "workspaces (fst (open_project ex_open_env_b ?d1 ''u1'' ''p2''))
      = [mark_cold ?row, new_workspace ex_open_env_b ''u1'' ''p2''
           \<lparr>containerId = ''c3'', volumeName = ''ws-p2'',
            imageName = ''codexrt-workspace:v0.1'', imageDigest = ''sha256:0''\<rparr>]"
    by (simp add: open_project_starting [OF begin2] ex_created_b open_finish_def
        insert_workspace_def)
      (simp add: new_workspace_def ids row)
  show ?thesis
    by (simp add: ex_system_db ex_open_new_db second)
      (simp add: new_workspace_def ids row mark_cold_def)
qed

text \<open>
  Claim C1. A user is to have at most one warm workspace at every point. Requests served one
  after the other keep it so (\<open>serial_single_warm\<close>). Two Opens of user \<^verbatim>\<open>u1\<close> for projects
  \<^verbatim>\<open>p1\<close> and \<^verbatim>\<open>p2\<close> that overlap do not: each finds no warm workspace to stop, for the other
  has not yet written its row, and when both have answered 200 the user has two warm rows.
\<close>

theorem overlapping_opens_leave_two_warm:
  "map (\<lambda>w. (ws_id w, ws_user_id w, ws_project_id w, ws_state w))
     (workspaces (fst (open_overlapping ex_open_env ''p1'' ex_open_env_b ''p2'' ''u1'' ex_db_new)))
     = [(''w9'', ''u1'', ''p1'', Warm), (''w10'', ''u1'', ''p2'', Warm)]
   \<and> warm_count (fst (open_overlapping ex_open_env ''p1'' ex_open_env_b ''p2'' ''u1'' ex_db_new)) ''u1''
     = 2
   \<and> snd (open_overlapping ex_open_env ''p1'' ex_open_env_b ''p2'' ''u1'' ex_db_new)
     = (Reply 200 (OpenBody ''w9'' Warm), Reply 200 (OpenBody ''w10'' Warm))
   \<and> workspaces ex_db_new = []"
  unfolding ex_overlapping
  by (simp add: warm_count_def new_workspace_def ex_open_env_b_def ex_open_env_def ex_db_new_def)

end
